theory Spec2Isabelle
  imports Main "HOL-Library.Sublist" "HOL-Library.Word"
begin

section \<open>Python values and built-ins used by the sources\<close>

text \<open>
  Byte strings and text strings are both \<open>string\<close> (a list of 8-bit characters); a
  decoded \<open>str\<close> is kept as its UTF-8 bytes.  Exceptions are values of \<open>error\<close>; a
  function that can raise returns \<open>error + 'a\<close> with \<open>Inl\<close> for the raise.
\<close>

datatype error =
    ValueError
  | IndexError
  | KeyError string
  | UnboundLocalError
  | UnicodeDecodeError
  | TypeError
  | OSError
  | OverflowError

text \<open>\<open>dict([(k1, v1), ...])\<close>: pairs are inserted left to right, a later pair with
  the same key replaces the earlier value.\<close>

definition dict :: "('k \<times> 'v) list \<Rightarrow> 'k \<rightharpoonup> 'v" where
  "dict kvs = foldl (\<lambda>m kv. m(fst kv \<mapsto> snd kv)) Map.empty kvs"

text \<open>\<open>xs[i]\<close> for a non-negative literal index.\<close>

definition index :: "'a list \<Rightarrow> nat \<Rightarrow> error + 'a" where
  "index xs i = (if i < length xs then Inr (xs ! i) else Inl IndexError)"

text \<open>\<open>needle in hay\<close> on bytes: contiguous occurrence.\<close>

primrec bytes_in :: "string \<Rightarrow> string \<Rightarrow> bool" where
  "bytes_in needle [] = (needle = [])"
| "bytes_in needle (c # cs) = (prefix needle (c # cs) \<or> bytes_in needle cs)"

text \<open>\<open>f.readline()\<close> on a file opened \<open>"rb"\<close>: the bytes up to and including the
  next line feed, or what is left; empty at end of file.  The result is the line and
  the rest of the stream.\<close>

fun readline :: "string \<Rightarrow> string \<times> string" where
  "readline [] = ([], [])"
| "readline (c # cs) =
     (if c = CHR ''\<newline>'' then ([c], cs)
      else (case readline cs of (l, rest) \<Rightarrow> (c # l, rest)))"

text \<open>\<open>bytes.split()\<close> with no argument: runs of ASCII whitespace separate the
  tokens, empty tokens are dropped.\<close>

definition is_space :: "char \<Rightarrow> bool" where
  "is_space c = (c \<in> set [CHR '' '', CHR 0x09, CHR 0x0A, CHR 0x0B, CHR 0x0C, CHR 0x0D])"

fun split_from :: "string \<Rightarrow> string \<Rightarrow> string list" where
  "split_from tok [] = (if tok = [] then [] else [tok])"
| "split_from tok (c # cs) =
     (if is_space c then (if tok = [] then split_from [] cs else tok # split_from [] cs)
      else split_from (tok @ [c]) cs)"

definition split_ws :: "string \<Rightarrow> string list" where
  "split_ws s = split_from [] s"

text \<open>\<open>str.split(" ")\<close>: every single space separates, empty pieces are kept.\<close>

fun split_sp_from :: "string \<Rightarrow> string \<Rightarrow> string list" where
  "split_sp_from tok [] = [tok]"
| "split_sp_from tok (c # cs) =
     (if c = CHR '' '' then tok # split_sp_from [] cs else split_sp_from (tok @ [c]) cs)"

definition split_sp :: "string \<Rightarrow> string list" where
  "split_sp s = split_sp_from [] s"

text \<open>\<open>bytes.decode()\<close>: UTF-8, strict.  The well-formed sequences are those of the
  Unicode standard (no overlong forms, no surrogates, nothing above U+10FFFF).\<close>

definition cont :: "char \<Rightarrow> bool" where
  "cont c = (128 \<le> (of_char c :: nat) \<and> (of_char c :: nat) \<le> 191)"

definition between :: "nat \<Rightarrow> char \<Rightarrow> nat \<Rightarrow> bool" where
  "between lo c hi = (lo \<le> of_char c \<and> (of_char c :: nat) \<le> hi)"

fun utf8 :: "string \<Rightarrow> bool" where
  "utf8 [] = True"
| "utf8 (a # s) =
     (if (of_char a :: nat) < 128 then utf8 s
      else if between 194 a 223 then
        (case s of b # s1 \<Rightarrow> cont b \<and> utf8 s1 | _ \<Rightarrow> False)
      else if between 224 a 239 then
        (case s of b # c # s2 \<Rightarrow>
            (if of_char a = (224 :: nat) then between 160 b 191
             else if of_char a = (237 :: nat) then between 128 b 159
             else cont b) \<and> cont c \<and> utf8 s2
         | _ \<Rightarrow> False)
      else if between 240 a 244 then
        (case s of b # c # d # s3 \<Rightarrow>
            (if of_char a = (240 :: nat) then between 144 b 191
             else if of_char a = (244 :: nat) then between 128 b 143
             else cont b) \<and> cont c \<and> cont d \<and> utf8 s3
         | _ \<Rightarrow> False)
      else False)"

definition decode :: "string \<Rightarrow> error + string" where
  "decode b = (if utf8 b then Inr b else Inl UnicodeDecodeError)"

text \<open>\<open>int(b)\<close> on a token without whitespace: an optional sign, then decimal digits
  in which single underscores may stand between digits.\<close>

definition is_digit :: "char \<Rightarrow> bool" where
  "is_digit c = (48 \<le> (of_char c :: nat) \<and> (of_char c :: nat) \<le> 57)"

definition digit_val :: "char \<Rightarrow> nat" where
  "digit_val c = of_char c - 48"

fun int_digits :: "bool \<Rightarrow> nat \<Rightarrow> string \<Rightarrow> nat option" where
  "int_digits prev acc [] = (if prev then Some acc else None)"
| "int_digits prev acc (c # cs) =
     (if is_digit c then int_digits True (10 * acc + digit_val c) cs
      else if c = CHR ''_'' \<and> prev then int_digits False acc cs
      else None)"

definition py_int :: "string \<Rightarrow> error + int" where
  "py_int s =
     (case s of
        [] \<Rightarrow> Inl ValueError
      | c # cs \<Rightarrow>
          if c = CHR ''-'' then
            (case int_digits False 0 cs of None \<Rightarrow> Inl ValueError | Some n \<Rightarrow> Inr (- int n))
          else if c = CHR ''+'' then
            (case int_digits False 0 cs of None \<Rightarrow> Inl ValueError | Some n \<Rightarrow> Inr (int n))
          else
            (case int_digits False 0 s of None \<Rightarrow> Inl ValueError | Some n \<Rightarrow> Inr (int n)))"

text \<open>\<open>str(n)\<close> and \<open>"%d" % n\<close> for integers.\<close>

definition digit_char :: "nat \<Rightarrow> char" where
  "digit_char d = char_of (48 + d)"

fun str_nat :: "nat \<Rightarrow> string" where
  "str_nat n = (if n < 10 then [digit_char n] else str_nat (n div 10) @ [digit_char (n mod 10)])"

declare str_nat.simps [simp del]

definition str_int :: "int \<Rightarrow> string" where
  "str_int i = (if i < 0 then CHR ''-'' # str_nat (nat (- i)) else str_nat (nat i))"

section \<open>third_party/ply.py: the module's tables\<close>

datatype endian = Little | Big

text \<open>\<open>sys_byteorder = (">", "<")[sys.byteorder == "little"]\<close>; the platform's byte
  order is a parameter of everything that depends on it.\<close>

definition sys_byteorder :: "endian \<Rightarrow> string" where
  "sys_byteorder native = (case native of Little \<Rightarrow> ''<'' | Big \<Rightarrow> ''>'')"

definition byteorder_name :: "endian \<Rightarrow> string" where
  "byteorder_name native = (case native of Little \<Rightarrow> ''little'' | Big \<Rightarrow> ''big'')"

definition ply_dtypes :: "string \<rightharpoonup> string" where
  "ply_dtypes = dict
     [(''int8'', ''i1''),
      (''char'', ''i1''),
      (''uint8'', ''u1''),
      (''uchar'', ''b1''),
      (''uchar'', ''u1''),
      (''int16'', ''i2''),
      (''short'', ''i2''),
      (''uint16'', ''u2''),
      (''ushort'', ''u2''),
      (''int32'', ''i4''),
      (''int'', ''i4''),
      (''uint32'', ''u4''),
      (''uint'', ''u4''),
      (''float32'', ''f4''),
      (''float'', ''f4''),
      (''float64'', ''f8''),
      (''double'', ''f8'')]"

definition valid_formats :: "string \<rightharpoonup> string" where
  "valid_formats = dict
     [(''ascii'', ''''), (''binary_big_endian'', ''>''), (''binary_little_endian'', ''<'')]"

text \<open>A dictionary lookup \<open>d[k]\<close> raises \<open>KeyError\<close> on a missing key.\<close>

definition bind_err :: "error + 'a \<Rightarrow> ('a \<Rightarrow> error + 'b) \<Rightarrow> error + 'b" where
  "bind_err m f = (case m of Inl e \<Rightarrow> Inl e | Inr x \<Rightarrow> f x)"

definition lookup :: "(string \<rightharpoonup> 'v) \<Rightarrow> string \<Rightarrow> error + 'v" where
  "lookup d k = (case d k of None \<Rightarrow> Inl (KeyError k) | Some v \<Rightarrow> Inr v)"

section \<open>read_ply: the header\<close>

text \<open>
  The loop of \<open>read_ply\<close> keeps these locals.  \<open>line\<close> starts as the empty list, holds
  the bytes of the line just read, and is rebound to the list of its tokens in the
  \<open>element\<close> and \<open>property\<close> branches; the loop test reads it in either shape.
  \<open>dtypes\<close> is a \<open>defaultdict(list)\<close>: a missing key reads as the empty list.
  \<open>name\<close> is unbound until the first \<open>element\<close> line.
\<close>

datatype pyline = Bytes string | Tokens "string list"

record header =
  line :: pyline
  dtypes :: "string \<Rightarrow> (string \<times> string) list"
  count :: nat
  points_size :: "int option"
  mesh_size :: "int option"
  name :: "string option"

definition header_init :: header where
  "header_init =
     \<lparr>line = Tokens [], dtypes = (\<lambda>k. []), count = 2,
      points_size = None, mesh_size = None, name = None\<rparr>"

text \<open>\<open>b"end_header" not in line and line != b""\<close>: a substring test on bytes, a
  membership test on a token list (which never equals \<open>b""\<close>).\<close>

fun loop_test :: "pyline \<Rightarrow> bool" where
  "loop_test (Bytes l) = (\<not> bytes_in ''end_header'' l \<and> l \<noteq> [])"
| "loop_test (Tokens ts) = (''end_header'' \<notin> set ts)"

definition append_dtype :: "header \<Rightarrow> string \<Rightarrow> string \<times> string \<Rightarrow> header" where
  "append_dtype h k x = h\<lparr>dtypes := (dtypes h)(k := dtypes h k @ [x])\<rparr>"

definition get_name :: "header \<Rightarrow> error + string" where
  "get_name h = (case name h of None \<Rightarrow> Inl UnboundLocalError | Some nm \<Rightarrow> Inr nm)"

text \<open>Lines 65-72: the \<open>element\<close> branch.\<close>

definition element_line :: "header \<Rightarrow> string list \<Rightarrow> error + header" where
  "element_line h ts =
     bind_err (index ts 1) (\<lambda>t1.
     bind_err (decode t1) (\<lambda>nm.
     bind_err (index ts 2) (\<lambda>t2.
     bind_err (py_int t2) (\<lambda>sz.
       Inr (if nm = ''vertex'' then h\<lparr>points_size := Some sz, name := Some nm\<rparr>
            else if nm = ''face'' then h\<lparr>mesh_size := Some sz, name := Some nm\<rparr>
            else h\<lparr>name := Some nm\<rparr>)))))"

text \<open>Lines 74-99: the \<open>property\<close> branch.  In each \<open>append\<close> the receiver
  \<open>dtypes[name]\<close> is evaluated before the argument.\<close>

definition property_line :: "string \<Rightarrow> string \<Rightarrow> header \<Rightarrow> string list \<Rightarrow> error + header" where
  "property_line fmt ext h ts =
     (if ''list'' \<in> set ts then
        bind_err (get_name h) (\<lambda>nm.
        bind_err (index ts 2) (\<lambda>t2.
        bind_err (lookup ply_dtypes t2) (\<lambda>d0.
        bind_err (index ts 3) (\<lambda>t3.
        bind_err (lookup ply_dtypes t3) (\<lambda>d1.
          Inr (foldl (\<lambda>h' x. append_dtype h' nm x) h
                 (if fmt = ''ascii''
                  then [(''n_points'', d0), (''v1'', d1), (''v2'', d1), (''v3'', d1)]
                  else [(''n_points'', ext @ d0), (''v1'', ext @ d1),
                        (''v2'', ext @ d1), (''v3'', ext @ d1)])))))))
      else
        bind_err (get_name h) (\<lambda>nm.
        bind_err (index ts 2) (\<lambda>t2.
        bind_err (decode t2) (\<lambda>pn.
        bind_err (index ts 1) (\<lambda>t1.
        bind_err (lookup ply_dtypes t1) (\<lambda>d.
          Inr (append_dtype h nm (pn, if fmt = ''ascii'' then d else ext @ d))))))))"

text \<open>Lines 63-100: one turn of the loop on the line just read.\<close>

definition header_body :: "string \<Rightarrow> string \<Rightarrow> header \<Rightarrow> string \<Rightarrow> error + header" where
  "header_body fmt ext h l =
     bind_err
       (if bytes_in ''element'' l then
          element_line (h\<lparr>line := Tokens (split_ws l)\<rparr>) (split_ws l)
        else if bytes_in ''property'' l then
          property_line fmt ext (h\<lparr>line := Tokens (split_ws l)\<rparr>) (split_ws l)
        else Inr (h\<lparr>line := Bytes l\<rparr>))
       (\<lambda>h'. Inr (h'\<lparr>count := count h' + 1\<rparr>))"

lemma readline_shorter: "length (snd (readline s)) \<le> length s - 1"
  by (induction s) (auto split: prod.splits)

lemma header_body_eof: "header_body fmt ext h [] = Inr h' \<Longrightarrow> line h' = Bytes []"
  by (auto simp: header_body_def bind_err_def)

text \<open>Lines 62-100: the loop, on the unread part of the file.  It returns the locals
  and what is left unread.\<close>

function header_loop ::
  "string \<Rightarrow> string \<Rightarrow> header \<Rightarrow> string \<Rightarrow> error + (header \<times> string)" where
  "header_loop fmt ext h ply =
     (if loop_test (line h) then
        (case readline ply of (l, rest) \<Rightarrow>
           (case header_body fmt ext h l of
              Inl e \<Rightarrow> Inl e
            | Inr h' \<Rightarrow> header_loop fmt ext h' rest))
      else Inr (h, ply))"
  by pat_completeness auto
termination
proof (relation "measure (\<lambda>(fmt, ext, h, ply). 2 * length ply + (if loop_test (line h) then 1 else 0))")
  show "wf (measure (\<lambda>(fmt, ext, h, ply). 2 * length ply + (if loop_test (line h) then 1 else 0)))"
    by simp
next
  fix fmt ext :: string and h :: header and ply l rest :: string and h' :: header
  assume t: "loop_test (line h)"
    and r: "(l, rest) = readline ply"
    and b: "header_body fmt ext h l = Inr h'"
  show "((fmt, ext, h', rest), (fmt, ext, h, ply))
          \<in> measure (\<lambda>(fmt, ext, h, ply). 2 * length ply + (if loop_test (line h) then 1 else 0))"
  proof (cases ply)
    case Nil
    with r have "l = []" and "rest = []" by simp_all
    with b have "line h' = Bytes []" by (simp add: header_body_eof)
    with Nil t \<open>rest = []\<close> show ?thesis by simp
  next
    case (Cons c cs)
    have "length (snd (readline ply)) \<le> length ply - 1" by (rule readline_shorter)
    with r have "length rest \<le> length ply - 1" by (metis snd_conv)
    with Cons t show ?thesis by simp
  qed
qed

declare header_loop.simps [simp del]

text \<open>Lines 48-103: the first \<open>with\<close> block.  It returns \<open>fmt\<close>, \<open>ext\<close>, the locals
  after the loop and \<open>end_header = ply.tell()\<close>.\<close>

record parsed =
  p_fmt :: string
  p_ext :: string
  p_header :: header
  p_end_header :: nat

text \<open>Lines 50-55: the magic line and the format line.  The result is \<open>fmt\<close>, \<open>ext\<close>
  and the file from the third line on.\<close>

definition read_format :: "string \<Rightarrow> error + (string \<times> string \<times> string)" where
  "read_format file =
     (case readline file of (l1, ply1) \<Rightarrow>
        if \<not> bytes_in ''ply'' l1 then Inl ValueError
        else
          (case readline ply1 of (l2, ply2) \<Rightarrow>
             bind_err (index (split_ws l2) 1) (\<lambda>t.
             bind_err (decode t) (\<lambda>fmt.
             bind_err (lookup valid_formats fmt) (\<lambda>ext.
               Inr (fmt, ext, ply2))))))"

definition read_header :: "string \<Rightarrow> error + parsed" where
  "read_header file =
     bind_err (read_format file) (\<lambda>f.
     bind_err (header_loop (fst f) (fst (snd f)) header_init (snd (snd f))) (\<lambda>r.
       Inr \<lparr>p_fmt = fst f, p_ext = fst (snd f), p_header = fst r,
            p_end_header = length file - length (snd r)\<rparr>))"

text \<open>The first \<open>n\<close> turns of the loop, from the locals \<open>h\<close> with \<open>ply\<close> unread:
  the locals and the unread part after them, or \<open>None\<close> when the loop ends or raises
  before.\<close>

fun turns :: "nat \<Rightarrow> string \<Rightarrow> string \<Rightarrow> header \<Rightarrow> string \<Rightarrow> (header \<times> string) option" where
  "turns 0 fmt ext h ply = Some (h, ply)"
| "turns (Suc n) fmt ext h ply =
     (if loop_test (line h) then
        (case readline ply of (l, rest) \<Rightarrow>
           (case header_body fmt ext h l of
              Inl e \<Rightarrow> None
            | Inr h1 \<Rightarrow> turns n fmt ext h1 rest))
      else None)"

text \<open>What the rest of read_ply reads of the header stage: the error it raised, or
  \<open>fmt\<close>, \<open>ext\<close>, \<open>dtypes\<close>, \<open>count\<close>, \<open>points_size\<close> and \<open>mesh_size\<close> (all but the offset
  \<open>end_header\<close>).\<close>

definition scan_view ::
  "error + parsed \<Rightarrow>
   error + (string \<times> string \<times> (string \<Rightarrow> (string \<times> string) list) \<times> nat \<times> int option \<times> int option)" where
  "scan_view r =
     map_sum id (\<lambda>p. (p_fmt p, p_ext p, dtypes (p_header p), count (p_header p),
                       points_size (p_header p), mesh_size (p_header p))) r"

section \<open>write_ply: the output path\<close>

text \<open>Lines 186-187: \<open>if not filename.endswith("ply"): filename += ".ply"\<close>.\<close>

definition endswith :: "string \<Rightarrow> string \<Rightarrow> bool" where
  "endswith s suff = suffix suff s"

definition ply_filename :: "string \<Rightarrow> string" where
  "ply_filename filename = (if \<not> endswith filename ''ply'' then filename @ ''.ply'' else filename)"

section \<open>camera/setup\_single\_camera.py\<close>

text \<open>
  The module is three assignments of literals to module globals.  A module's globals
  are a namespace from names to values; executing the module runs its statements in
  order on the empty namespace.  A float literal is kept as the decimal it is written
  as (mantissa and power of ten): \<open>0.4\<close> is \<open>PyFloat 4 (-1)\<close>, and two floats written as
  the same literal are equal.
\<close>

datatype pyval = PyInt int | PyFloat int int

type_synonym namespace = "string \<rightharpoonup> pyval"

datatype stmt = Assign string pyval

fun exec_stmt :: "namespace \<Rightarrow> stmt \<Rightarrow> namespace" where
  "exec_stmt ns (Assign x v) = ns(x \<mapsto> v)"

fun target :: "stmt \<Rightarrow> string" where
  "target (Assign x v) = x"

definition setup_single_camera_source :: "stmt list" where
  "setup_single_camera_source =
     [Assign ''cam_height_off_ground'' (PyInt 5),
      Assign ''feet_height_off_ground'' (PyFloat 4 (- 1)),
      Assign ''hori_dist_cam_feet'' (PyInt 5)]"

definition setup_single_camera :: namespace where
  "setup_single_camera = foldl exec_stmt Map.empty setup_single_camera_source"

text \<open>Reading a global returns its value and leaves the namespace as it is; a
  process that only reads is a list of names read in turn.\<close>

definition read_global :: "namespace \<Rightarrow> string \<Rightarrow> pyval option \<times> namespace" where
  "read_global ns x = (ns x, ns)"

fun read_globals :: "namespace \<Rightarrow> string list \<Rightarrow> pyval option list \<times> namespace" where
  "read_globals ns [] = ([], ns)"
| "read_globals ns (x # xs) =
     (case read_global ns x of (v, ns1) \<Rightarrow>
        (case read_globals ns1 xs of (vs, ns2) \<Rightarrow> (v # vs, ns2)))"

section \<open>NumPy arrays and pandas tables\<close>

text \<open>
  A scalar is kept as the bytes NumPy stores for it, in the platform's byte order; a
  dtype is a kind and an item size.  What the sources do with the payload (copy it to
  the file, cut it out of the file, swap it) is then exact, for floats as well, and
  integers can be read off the bytes.  A table is a pandas \<open>DataFrame\<close> with a default
  index: its columns (name and dtype) and its rows, one cell per column.  An \<open>ndarray\<close>
  is a two-dimensional array of one dtype, as the callers pass it.
\<close>

datatype kind = KFloat | KInt | KUInt | KBool | KObject | KVoid

record dtype =
  dt_kind :: kind
  dt_size :: nat

definition float32 :: dtype where "float32 = \<lparr>dt_kind = KFloat, dt_size = 4\<rparr>"
definition float64 :: dtype where "float64 = \<lparr>dt_kind = KFloat, dt_size = 8\<rparr>"
definition int32 :: dtype where "int32 = \<lparr>dt_kind = KInt, dt_size = 4\<rparr>"
definition int64 :: dtype where "int64 = \<lparr>dt_kind = KInt, dt_size = 8\<rparr>"
definition uint8 :: dtype where "uint8 = \<lparr>dt_kind = KUInt, dt_size = 1\<rparr>"
definition object :: dtype where "object = \<lparr>dt_kind = KObject, dt_size = 8\<rparr>"
definition void0 :: dtype where "void0 = \<lparr>dt_kind = KVoid, dt_size = 0\<rparr>"

text \<open>\<open>str(dtype)\<close> for a dtype in native byte order.\<close>

definition dtype_name :: "dtype \<Rightarrow> string" where
  "dtype_name d =
     (case dt_kind d of
        KFloat \<Rightarrow> ''float'' @ str_nat (8 * dt_size d)
      | KInt \<Rightarrow> ''int'' @ str_nat (8 * dt_size d)
      | KUInt \<Rightarrow> ''uint'' @ str_nat (8 * dt_size d)
      | KBool \<Rightarrow> ''bool''
      | KObject \<Rightarrow> ''object''
      | KVoid \<Rightarrow> ''|V'' @ str_nat (dt_size d))"

text \<open>\<open>np.dtype(code)\<close> for the codes read_ply builds: an optional byte-order mark
  \<open><\<close> or \<open>>\<close>, a kind letter and the item size.  \<open>b1\<close> is NumPy's boolean.\<close>

definition kind_of_char :: "char \<Rightarrow> kind option" where
  "kind_of_char c =
     (if c = CHR ''f'' then Some KFloat else if c = CHR ''i'' then Some KInt
      else if c = CHR ''u'' then Some KUInt else if c = CHR ''b'' then Some KBool
      else None)"

definition valid_size :: "kind \<Rightarrow> nat \<Rightarrow> bool" where
  "valid_size k n =
     (case k of
        KFloat \<Rightarrow> n \<in> set [2, 4, 8]
      | KInt \<Rightarrow> n \<in> set [1, 2, 4, 8]
      | KUInt \<Rightarrow> n \<in> set [1, 2, 4, 8]
      | KBool \<Rightarrow> n = 1
      | KObject \<Rightarrow> False
      | KVoid \<Rightarrow> False)"

definition np_dtype :: "string \<Rightarrow> error + dtype" where
  "np_dtype code =
     (case (if prefix ''<'' code \<or> prefix ''>'' code then tl code else code) of
        [k, d] \<Rightarrow>
          (case kind_of_char k of
             None \<Rightarrow> Inl TypeError
           | Some kd \<Rightarrow>
               if is_digit d \<and> valid_size kd (digit_val d)
               then Inr \<lparr>dt_kind = kd, dt_size = digit_val d\<rparr>
               else Inl TypeError)
      | _ \<Rightarrow> Inl TypeError)"

record table =
  columns :: "(string \<times> dtype) list"
  rows :: "string list list"

record ndarray =
  nd_dtype :: dtype
  nd_cols :: nat
  nd_rows :: "string list list"

text \<open>\<open>pd.DataFrame(data, columns=cols)\<close>: \<open>None\<close> gives the empty table with these
  columns, of dtype \<open>object\<close>; an array must have as many columns as there are names.\<close>

definition DataFrame :: "ndarray option \<Rightarrow> string list \<Rightarrow> error + table" where
  "DataFrame data cols =
     (case data of
        None \<Rightarrow> Inr \<lparr>columns = map (\<lambda>c. (c, object)) cols, rows = []\<rparr>
      | Some a \<Rightarrow>
          if nd_cols a = length cols
          then Inr \<lparr>columns = map (\<lambda>c. (c, nd_dtype a)) cols, rows = nd_rows a\<rparr>
          else Inl ValueError)"

text \<open>Integers and their bytes.\<close>

fun le_int :: "string \<Rightarrow> int" where
  "le_int [] = 0"
| "le_int (c # cs) = of_char c + 256 * le_int cs"

definition uint_of :: "endian \<Rightarrow> string \<Rightarrow> int" where
  "uint_of native b = (case native of Little \<Rightarrow> le_int b | Big \<Rightarrow> le_int (rev b))"

definition int_of :: "endian \<Rightarrow> string \<Rightarrow> int" where
  "int_of native b =
     (if 2 ^ (8 * length b) \<le> 2 * uint_of native b
      then uint_of native b - 2 ^ (8 * length b)
      else uint_of native b)"

fun le_bytes :: "nat \<Rightarrow> int \<Rightarrow> string" where
  "le_bytes 0 v = []"
| "le_bytes (Suc k) v = char_of (v mod 256) # le_bytes k (v div 256)"

definition int_bytes :: "endian \<Rightarrow> nat \<Rightarrow> int \<Rightarrow> string" where
  "int_bytes native n i =
     (case native of
        Little \<Rightarrow> le_bytes n (i mod 2 ^ (8 * n))
      | Big \<Rightarrow> rev (le_bytes n (i mod 2 ^ (8 * n))))"

text \<open>\<open>mesh.insert(loc=0, column="n_points", value=3)\<close>: a new first column holding
  the integer 3 in every row (the name is new: the columns are \<open>v1\<close>, \<open>v2\<close>, \<open>v3\<close>).\<close>

definition insert_first :: "endian \<Rightarrow> string \<Rightarrow> int \<Rightarrow> table \<Rightarrow> table" where
  "insert_first native col v t =
     \<lparr>columns = (col, int64) # columns t,
      rows = map (\<lambda>r. int_bytes native 8 v # r) (rows t)\<rparr>"

text \<open>\<open>df[col] = df[col].astype("u1")\<close> on an integer column: each value modulo 256,
  in one byte.\<close>

definition astype_u1 :: "endian \<Rightarrow> string \<Rightarrow> table \<Rightarrow> table" where
  "astype_u1 native col t =
     \<lparr>columns = map (\<lambda>cd. if fst cd = col then (col, uint8) else cd) (columns t),
      rows = map (\<lambda>r. map (\<lambda>cc. if fst (fst cc) = col
                                 then int_bytes native 1 (int_of native (snd cc))
                                 else snd cc)
                        (zip (columns t) r))
                 (rows t)\<rparr>"

section \<open>write_ply\<close>

text \<open>Lines 232-256.  \<open>str(df.dtypes[i])[0]\<close> is the first letter of the dtype's name.\<close>

definition property_formats :: "string \<rightharpoonup> string" where
  "property_formats = dict [(''f'', ''float''), (''u'', ''uchar''), (''i'', ''int'')]"

fun property_lines :: "(string \<times> dtype) list \<Rightarrow> error + string list" where
  "property_lines [] = Inr []"
| "property_lines (cd # cds) =
     bind_err (lookup property_formats (take 1 (dtype_name (snd cd)))) (\<lambda>f.
     bind_err (property_lines cds) (\<lambda>ls.
       Inr ((''property '' @ f @ '' '' @ fst cd) # ls)))"

definition describe_element :: "string \<Rightarrow> table \<Rightarrow> error + string list" where
  "describe_element nm df =
     (if nm = ''face''
      then Inr [''element '' @ nm @ '' '' @ str_nat (length (rows df)),
                ''property list uchar int vertex_indices'']
      else bind_err (property_lines (columns df)) (\<lambda>ls.
             Inr ((''element '' @ nm @ '' '' @ str_nat (length (rows df))) # ls)))"

text \<open>Lines 191-206: the header lines, and the mesh table as it is after line 203.
  The two tables are \<open>DataFrame\<close>s by now; the tests \<open>is not None\<close> are kept as written.\<close>

definition ply_header ::
  "endian \<Rightarrow> table option \<Rightarrow> table option \<Rightarrow> bool \<Rightarrow> error + (string list \<times> table option)" where
  "ply_header native pts msh as_text =
     bind_err (case pts of None \<Rightarrow> Inr [] | Some p \<Rightarrow> describe_element ''vertex'' p) (\<lambda>vs.
       (case msh of
          None \<Rightarrow>
            Inr ([''ply'',
                  if as_text then ''format ascii 1.0''
                  else ''format binary_'' @ byteorder_name native @ ''_endian 1.0'']
                 @ vs @ [''end_header''], None)
        | Some m \<Rightarrow>
            bind_err
              (describe_element ''face''
                 (astype_u1 native ''n_points'' (insert_first native ''n_points'' 3 m))) (\<lambda>fs.
              Inr ([''ply'',
                    if as_text then ''format ascii 1.0''
                    else ''format binary_'' @ byteorder_name native @ ''_endian 1.0'']
                   @ vs @ fs @ [''end_header''],
                   Some (astype_u1 native ''n_points'' (insert_first native ''n_points'' 3 m))))))"

text \<open>\<open>df.to_csv(filename, sep=" ", index=False, header=False, mode="a")\<close>: one line
  per row, the cells separated by one space.  Integers are written in decimal; how any
  other cell is written is the parameter \<open>show\<close>.\<close>

fun join :: "string \<Rightarrow> string list \<Rightarrow> string" where
  "join sep [] = []"
| "join sep [x] = x"
| "join sep (x # y # ys) = x @ sep @ join sep (y # ys)"

definition csv_cell :: "endian \<Rightarrow> (dtype \<Rightarrow> string \<Rightarrow> string) \<Rightarrow> dtype \<Rightarrow> string \<Rightarrow> string" where
  "csv_cell native show d c =
     (case dt_kind d of
        KInt \<Rightarrow> str_int (int_of native c)
      | KUInt \<Rightarrow> str_int (uint_of native c)
      | _ \<Rightarrow> show d c)"

definition to_csv :: "endian \<Rightarrow> (dtype \<Rightarrow> string \<Rightarrow> string) \<Rightarrow> table \<Rightarrow> string" where
  "to_csv native show t =
     concat (map (\<lambda>r. join '' '' (map (\<lambda>cc. csv_cell native show (snd (fst cc)) (snd cc))
                                       (zip (columns t) r)) @ ''\<newline>'')
                 (rows t))"

text \<open>\<open>df.to_records(index=False).tofile(f)\<close>: the records packed one after the
  other, each the bytes of its cells.  NumPy refuses to write a record with an
  \<open>object\<close> field in binary mode.\<close>

definition tofile :: "table \<Rightarrow> error + string" where
  "tofile t =
     (if list_ex (\<lambda>cd. dt_kind (snd cd) = KObject) (columns t) then Inl OSError
      else Inr (concat (map concat (rows t))))"

text \<open>
  Lines 163-229, for calls with \<open>colors=None\<close> (lines 166-168 are then skipped; no
  claim passes colors).  The result is the file the call leaves behind (none when the
  call raises before \<open>open\<close>), as path and content, and what the call returns or raises.
\<close>

definition write_ply ::
  "endian \<Rightarrow> (dtype \<Rightarrow> string \<Rightarrow> string) \<Rightarrow> string \<Rightarrow> ndarray option \<Rightarrow> ndarray option \<Rightarrow> bool
     \<Rightarrow> (string \<times> string) option \<times> (error + bool)" where
  "write_ply native show filename pts msh as_text =
     (case DataFrame pts [''x'', ''y'', ''z''] of
        Inl e \<Rightarrow> (None, Inl e)
      | Inr pdf \<Rightarrow>
     (case DataFrame msh [''v1'', ''v2'', ''v3''] of
        Inl e \<Rightarrow> (None, Inl e)
      | Inr mdf \<Rightarrow>
     (case ply_header native (Some pdf) (Some mdf) as_text of
        Inl e \<Rightarrow> (Some (ply_filename filename, []), Inl e)
      | Inr hm \<Rightarrow>
          if as_text then
            (Some (ply_filename filename,
                   concat (map (\<lambda>l. l @ ''\<newline>'') (fst hm))
                   @ to_csv native show pdf
                   @ (case snd hm of None \<Rightarrow> [] | Some m \<Rightarrow> to_csv native show m)),
             Inr True)
          else
            (case tofile pdf of
               Inl e \<Rightarrow>
                 (Some (ply_filename filename, concat (map (\<lambda>l. l @ ''\<newline>'') (fst hm))), Inl e)
             | Inr pb \<Rightarrow>
            (case (case snd hm of None \<Rightarrow> Inr [] | Some m \<Rightarrow> tofile m) of
               Inl e \<Rightarrow>
                 (Some (ply_filename filename,
                        concat (map (\<lambda>l. l @ ''\<newline>'') (fst hm)) @ pb), Inl e)
             | Inr mb \<Rightarrow>
                 (Some (ply_filename filename,
                        concat (map (\<lambda>l. l @ ''\<newline>'') (fst hm)) @ pb @ mb), Inr True))))))"

section \<open>read_ply: the payload\<close>

text \<open>\<open>np.dtype(fields)\<close> for a list of (name, code): every code must be a dtype and
  no name may occur twice.\<close>

fun np_fields :: "(string \<times> string) list \<Rightarrow> error + (string \<times> dtype) list" where
  "np_fields [] = Inr []"
| "np_fields (f # fs) =
     bind_err (np_dtype (snd f)) (\<lambda>d.
     bind_err (np_fields fs) (\<lambda>ds. Inr ((fst f, d) # ds)))"

definition np_struct :: "(string \<times> string) list \<Rightarrow> error + (string \<times> dtype) list" where
  "np_struct flds =
     bind_err (np_fields flds) (\<lambda>ds.
       if distinct (map fst flds) then Inr ds else Inl ValueError)"

fun chop :: "nat list \<Rightarrow> string \<Rightarrow> string list" where
  "chop [] b = []"
| "chop (n # ns) b = take n b # chop ns (drop n b)"

fun records :: "nat \<Rightarrow> nat list \<Rightarrow> string \<Rightarrow> string list list" where
  "records 0 sizes b = []"
| "records (Suc k) sizes b =
     chop sizes (take (sum_list sizes) b) # records k sizes (drop (sum_list sizes) b)"

text \<open>
  \<open>np.fromfile(f, dtype=fields, count=c)\<close> on a binary file at its current position,
  on a 64-bit platform.  The arguments are converted in order: the dtype, then the
  count, which must be an integer that fits a signed 64-bit word (\<open>None\<close> is a
  \<open>TypeError\<close>, an integer outside the range an \<open>OverflowError\<close>).  A record type
  without fields has size 0: nothing is read and the array has \<open>c\<close> empty records (a
  negative \<open>c\<close> is a \<open>ValueError\<close>).  Otherwise a negative \<open>c\<close> asks for all the whole
  records the file still holds, and the position moves past them; a non-negative \<open>c\<close>
  asks for \<open>c\<close> records: the array for them is allocated first (\<open>ValueError\<close> when
  the records take 2^63 bytes or more), and when the file holds fewer whole records
  the array has those, without an error, and the file is left at its end.  The result
  is the table, its cells in the file's byte order, and the rest of the file.  A count
  the platform has no memory for (\<open>MemoryError\<close>) is outside the model.
\<close>

definition item_size :: "(string \<times> dtype) list \<Rightarrow> nat" where
  "item_size cds = sum_list (map (\<lambda>cd. dt_size (snd cd)) cds)"

definition n_read :: "int \<Rightarrow> nat \<Rightarrow> string \<Rightarrow> nat" where
  "n_read c item ply =
     (if c < 0 then length ply div item else min (nat c) (length ply div item))"

definition np_fromfile ::
  "(string \<times> string) list \<Rightarrow> int option \<Rightarrow> string \<Rightarrow> error + (table \<times> string)" where
  "np_fromfile flds cnt ply =
     bind_err (np_struct flds) (\<lambda>cds.
       (case cnt of
          None \<Rightarrow> Inl TypeError
        | Some c \<Rightarrow>
            if c < - (2 ^ 63) \<or> 2 ^ 63 \<le> c then Inl OverflowError
            else if item_size cds = 0 then
              (if c < 0 then Inl ValueError
               else Inr (\<lparr>columns = cds, rows = replicate (nat c) []\<rparr>, ply))
            else if 2 ^ 63 \<le> c * int (item_size cds) then Inl ValueError
            else
              Inr (\<lparr>columns = cds,
                    rows = records (n_read c (item_size cds) ply)
                             (map (\<lambda>cd. dt_size (snd cd)) cds) ply\<rparr>,
                   if 0 \<le> c \<and> length ply div item_size cds < nat c then []
                   else drop (n_read c (item_size cds) ply * item_size cds) ply)))"

text \<open>\<open>pd.DataFrame(a)\<close> for the record array \<open>np.fromfile\<close> returns: one column per
  field.  An array whose record type has no fields is taken as a plain one-dimensional
  array: the table has one column, which pandas labels with the integer 0 (written
  \<open>''0''\<close> here; its dtype tells it from a field of that name), holding the empty
  records.\<close>

definition DataFrame_records :: "table \<Rightarrow> table" where
  "DataFrame_records a =
     (if columns a = [] then \<lparr>columns = [(''0'', void0)], rows = map (\<lambda>r. [[]]) (rows a)\<rparr>
      else a)"

text \<open>\<open>a.byteswap().newbyteorder()\<close>: the bytes of every cell reversed, the values as
  before, now in the platform's byte order.\<close>

definition byteswap :: "table \<Rightarrow> table" where
  "byteswap t = t\<lparr>rows := map (map rev) (rows t)\<rparr>"

definition to_native :: "endian \<Rightarrow> string \<Rightarrow> table \<Rightarrow> table" where
  "to_native native ext t = (if ext \<noteq> sys_byteorder native then byteswap t else t)"

text \<open>\<open>df.drop(col, axis=1, inplace=True)\<close>: \<open>KeyError\<close> when there is no such column.\<close>

definition drop_column :: "string \<Rightarrow> table \<Rightarrow> error + table" where
  "drop_column col t =
     (if col \<in> set (map fst (columns t)) then
        Inr \<lparr>columns = filter (\<lambda>cd. fst cd \<noteq> col) (columns t),
             rows = map (\<lambda>r. map snd (filter (\<lambda>cc. fst (fst cc) \<noteq> col) (zip (columns t) r)))
                        (rows t)\<rparr>
      else Inl (KeyError col))"

text \<open>
  The ASCII branch (lines 107-144) hands the payload to \<open>pd.read_csv\<close> and casts the
  columns with \<open>astype\<close>.  Both are parameters: \<open>read_csv\<close> gets the file and the
  arguments of the call, \<open>astype\<close> the table and the dtype codes of its columns in order.
\<close>

datatype usecols = ByName "string list" | ByIndex "nat list"

record csv_args =
  skiprows :: int
  skipfooter :: int
  cols :: usecols
  names :: "string list"

record ply_data =
  d_points :: table
  d_mesh :: "table option"

definition read_ascii ::
  "(string \<Rightarrow> csv_args \<Rightarrow> error + table) \<Rightarrow> (table \<Rightarrow> string list \<Rightarrow> error + table)
     \<Rightarrow> string \<Rightarrow> parsed \<Rightarrow> error + ply_data" where
  "read_ascii read_csv astype file p =
     bind_err (read_csv file
                 \<lparr>skiprows = int (count (p_header p)),
                  skipfooter = (case mesh_size (p_header p) of None \<Rightarrow> 0 | Some m \<Rightarrow> m),
                  cols = ByName (map fst (dtypes (p_header p) ''vertex'')),
                  names = map fst (dtypes (p_header p) ''vertex'')\<rparr>) (\<lambda>t.
     bind_err (astype t (map snd (dtypes (p_header p) ''vertex''))) (\<lambda>pts.
       (case mesh_size (p_header p) of
          None \<Rightarrow> Inr \<lparr>d_points = pts, d_mesh = None\<rparr>
        | Some m \<Rightarrow>
            (case points_size (p_header p) of
               None \<Rightarrow> Inl TypeError
             | Some n \<Rightarrow>
                 bind_err (read_csv file
                             \<lparr>skiprows = int (count (p_header p)) + n,
                              skipfooter = 0,
                              cols = ByIndex [1, 2, 3],
                              names = tl (map fst (dtypes (p_header p) ''face''))\<rparr>) (\<lambda>u.
                 bind_err (astype u (tl (map snd (dtypes (p_header p) ''face'')))) (\<lambda>msh.
                   Inr \<lparr>d_points = pts, d_mesh = Some msh\<rparr>))))))"

text \<open>Lines 146-158: the binary branch, on the file from \<open>end_header\<close> on.\<close>

definition read_binary :: "endian \<Rightarrow> string \<Rightarrow> parsed \<Rightarrow> error + ply_data" where
  "read_binary native file p =
     bind_err (np_fromfile (dtypes (p_header p) ''vertex'') (points_size (p_header p))
                 (drop (p_end_header p) file)) (\<lambda>pr.
       (case mesh_size (p_header p) of
          None \<Rightarrow>
            Inr \<lparr>d_points = DataFrame_records (to_native native (p_ext p) (fst pr)),
                 d_mesh = None\<rparr>
        | Some m \<Rightarrow>
            bind_err (np_fromfile (dtypes (p_header p) ''face'') (Some m) (snd pr)) (\<lambda>mr.
            bind_err (drop_column ''n_points''
                        (DataFrame_records (to_native native (p_ext p) (fst mr)))) (\<lambda>msh.
              Inr \<lparr>d_points = DataFrame_records (to_native native (p_ext p) (fst pr)),
                   d_mesh = Some msh\<rparr>))))"

text \<open>Lines 36-160.\<close>

definition read_ply ::
  "(string \<Rightarrow> csv_args \<Rightarrow> error + table) \<Rightarrow> (table \<Rightarrow> string list \<Rightarrow> error + table)
     \<Rightarrow> endian \<Rightarrow> string \<Rightarrow> error + ply_data" where
  "read_ply read_csv astype native file =
     bind_err (read_header file) (\<lambda>p.
       if p_fmt p = ''ascii'' then read_ascii read_csv astype file p
       else read_binary native file p)"

section \<open>write_obj\<close>

text \<open>
  The index arrays are NumPy arrays of 64-bit integers, M rows of three; the caller
  and the function hold references to them.  The heap maps an address to the array
  stored there; \<open>next_addr\<close> is the first address not yet in use.  Coordinates are of
  an arbitrary type \<open>'f\<close>: \<open>"%f"\<close> and the range test on the texture coordinates are
  parameters.
\<close>

type_synonym tri = "64 word \<times> 64 word \<times> 64 word"

record heap =
  arrays :: "nat \<Rightarrow> tri list"
  next_addr :: nat

text \<open>\<open>np.copy(a)\<close>: a new array with the contents of \<open>a\<close>.\<close>

definition np_copy :: "heap \<Rightarrow> nat \<Rightarrow> heap \<times> nat" where
  "np_copy h a =
     (h\<lparr>arrays := (arrays h)(next_addr h := arrays h a), next_addr := Suc (next_addr h)\<rparr>,
      next_addr h)"

text \<open>\<open>a += 1\<close>: every element of the array at \<open>a\<close> is replaced, in place.\<close>

definition plus1 :: "tri \<Rightarrow> tri" where
  "plus1 r = (fst r + 1, fst (snd r) + 1, snd (snd r) + 1)"

definition iadd1 :: "heap \<Rightarrow> nat \<Rightarrow> heap" where
  "iadd1 h a = h\<lparr>arrays := (arrays h)(a := map plus1 (arrays h a))\<rparr>"

text \<open>\<open>"%d" % w\<close> for a 64-bit integer.\<close>

definition fmt_d :: "64 word \<Rightarrow> string" where
  "fmt_d w = str_int (sint w)"

definition v_line :: "('f \<Rightarrow> string) \<Rightarrow> 'f \<times> 'f \<times> 'f \<Rightarrow> string" where
  "v_line fmt_f p =
     ''v '' @ fmt_f (fst p) @ '' '' @ fmt_f (fst (snd p)) @ '' '' @ fmt_f (snd (snd p))
     @ ''\<newline>''"

definition vt_line :: "('f \<Rightarrow> string) \<Rightarrow> 'f \<times> 'f \<Rightarrow> string" where
  "vt_line fmt_f p = ''vt '' @ fmt_f (fst p) @ '' '' @ fmt_f (snd p) @ ''\<newline>''"

definition f_line :: "tri \<times> tri \<Rightarrow> string" where
  "f_line vt =
     ''f '' @ fmt_d (fst (fst vt)) @ ''/'' @ fmt_d (fst (snd vt)) @ ''/'' @ fmt_d (fst (snd vt))
     @ '' '' @ fmt_d (fst (snd (fst vt))) @ ''/'' @ fmt_d (fst (snd (snd vt)))
     @ ''/'' @ fmt_d (fst (snd (snd vt)))
     @ '' '' @ fmt_d (snd (snd (fst vt))) @ ''/'' @ fmt_d (snd (snd (snd vt)))
     @ ''/'' @ fmt_d (snd (snd (snd vt)))
     @ ''\<newline>''"

record obj_result =
  o_heap :: heap
  o_stdout :: "string list"
  o_file :: "(string \<times> string) option"
  o_raised :: "error option"

text \<open>
  Lines 259-290.  \<open>np.amax\<close> of an empty array raises \<open>ValueError\<close>; on a non-empty
  array \<open>out_of_range vt_arr\<close> stands for
  \<open>np.amax(vt_arr) > 1 or np.amin(vt_arr) < 0\<close>.  \<open>tri_v_arr\<close> and \<open>tri_t_arr\<close> are the
  addresses the caller passes; lines 271-272 rebind the two locals to fresh copies.
\<close>

definition write_obj ::
  "('f \<Rightarrow> string) \<Rightarrow> (('f \<times> 'f) list \<Rightarrow> bool) \<Rightarrow> heap \<Rightarrow> string
     \<Rightarrow> ('f \<times> 'f \<times> 'f) list \<Rightarrow> ('f \<times> 'f) list \<Rightarrow> nat \<Rightarrow> nat \<Rightarrow> obj_result" where
  "write_obj fmt_f out_of_range h obj_path v_arr vt_arr tri_v_arr tri_t_arr =
     (case np_copy h tri_v_arr of (h1, tv) \<Rightarrow>
     (case np_copy h1 tri_t_arr of (h2, tt) \<Rightarrow>
        if vt_arr = [] then
          \<lparr>o_heap = h2, o_stdout = [], o_file = None, o_raised = Some ValueError\<rparr>
        else
          \<lparr>o_heap = iadd1 (iadd1 h2 tv) tt,
           o_stdout = (if out_of_range vt_arr
                       then [''Error: the uv values should be ranged between 0 and 1'']
                       else []),
           o_file = Some (obj_path,
             ''mtllib test.mtl\<newline>''
             @ concat (map (v_line fmt_f) v_arr)
             @ concat (map (vt_line fmt_f) vt_arr)
             @ concat (map f_line (zip (arrays (iadd1 (iadd1 h2 tv) tt) tv)
                                       (arrays (iadd1 (iadd1 h2 tv) tt) tt)))),
           o_raised = None\<rparr>))"

section \<open>read_obj\<close>

text \<open>
  \<open>open(path, "r").readlines()\<close>: the file is read in text mode.  Its bytes are
  decoded with the locale's encoding, errors strict, all of them before the first line
  is looked at: \<open>codec\<close> is that encoding, from the bytes of the file to its text (kept
  as UTF-8 bytes, as every \<open>str\<close> here), \<open>None\<close> where the bytes are not text of the
  encoding and Python raises \<open>UnicodeDecodeError\<close>; \<open>utf_8\<close> is the codec of a UTF-8
  locale.  Then universal newlines: a carriage return followed by a line feed, and a
  lone carriage return, are read as one line feed.  The lines are the pieces of the
  text, each with its line feed, the last one possibly without.
\<close>

definition utf_8 :: "string \<Rightarrow> string option" where
  "utf_8 b = (if utf8 b then Some b else None)"

fun universal_newlines :: "string \<Rightarrow> string" where
  "universal_newlines [] = []"
| "universal_newlines [c] = [if c = CHR 0x0D then CHR ''\<newline>'' else c]"
| "universal_newlines (c # d # cs) =
     (if c = CHR 0x0D then
        (if d = CHR ''\<newline>'' then CHR ''\<newline>'' # universal_newlines cs
         else CHR ''\<newline>'' # universal_newlines (d # cs))
      else c # universal_newlines (d # cs))"

fun lines_from :: "string \<Rightarrow> string \<Rightarrow> string list" where
  "lines_from cur [] = (if cur = [] then [] else [cur])"
| "lines_from cur (c # cs) =
     (if c = CHR ''\<newline>'' then (cur @ [c]) # lines_from [] cs else lines_from (cur @ [c]) cs)"

definition readlines :: "(string \<Rightarrow> string option) \<Rightarrow> string \<Rightarrow> error + string list" where
  "readlines codec b =
     (case codec b of
        None \<Rightarrow> Inl UnicodeDecodeError
      | Some s \<Rightarrow> Inr (lines_from [] (universal_newlines s)))"

text \<open>\<open>float(tok)\<close> is a parameter: \<open>None\<close> where Python raises \<open>ValueError\<close>.\<close>

definition py_float :: "(string \<Rightarrow> 'f option) \<Rightarrow> string \<Rightarrow> error + 'f" where
  "py_float float tok = (case float tok of None \<Rightarrow> Inl ValueError | Some x \<Rightarrow> Inr x)"

text \<open>Lines 299-300, on a line that starts with \<open>v \<close>.\<close>

definition vertex :: "(string \<Rightarrow> 'f option) \<Rightarrow> string \<Rightarrow> error + 'f list" where
  "vertex float ln =
     bind_err (index (tl (split_sp ln)) 0) (\<lambda>t0.
     bind_err (py_float float t0) (\<lambda>x.
     bind_err (index (tl (split_sp ln)) 1) (\<lambda>t1.
     bind_err (py_float float t1) (\<lambda>y.
     bind_err (index (tl (split_sp ln)) 2) (\<lambda>t2.
     bind_err (py_float float t2) (\<lambda>z.
       Inr [x, y, z]))))))"

text \<open>Lines 297-300: the loop over the lines, \<open>vertices\<close> being the list built so far.\<close>

fun collect :: "(string \<Rightarrow> 'f option) \<Rightarrow> 'f list list \<Rightarrow> string list \<Rightarrow> error + 'f list list" where
  "collect float vertices [] = Inr vertices"
| "collect float vertices (ln # lns) =
     (if prefix ''v '' ln
      then bind_err (vertex float ln) (\<lambda>v. collect float (vertices @ [v]) lns)
      else collect float vertices lns)"

text \<open>\<open>np.array(vertices)\<close> for a list of rows of three: shape (N, 3), but the empty
  list gives the empty one-dimensional array, of shape (0,).\<close>

record 'f array =
  shape :: "nat list"
  items :: "'f list list"

definition np_array :: "'f list list \<Rightarrow> 'f array" where
  "np_array vs = \<lparr>shape = (if vs = [] then [0] else [length vs, 3]), items = vs\<rparr>"

text \<open>Lines 293-301, on the bytes of the file at \<open>obj_path\<close>.\<close>

definition read_obj ::
  "(string \<Rightarrow> string option) \<Rightarrow> (string \<Rightarrow> 'f option) \<Rightarrow> string \<Rightarrow> error + 'f array" where
  "read_obj codec float b =
     bind_err (readlines codec b) (\<lambda>lns.
     bind_err (collect float [] lns) (\<lambda>vs. Inr (np_array vs)))"

text \<open>A parser for the examples: on a run of decimal digits, with or without a line
  feed after it, it reads the number \<open>float\<close> reads; it rejects the empty token, as
  \<open>float\<close> does.  (\<open>float\<close> reads more than this.)\<close>

definition float_sample :: "string \<Rightarrow> nat option" where
  "float_sample tok =
     int_digits False 0
       (if tok \<noteq> [] \<and> last tok = CHR ''\<newline>'' then butlast tok else tok)"

section \<open>Inputs and views used in the examples\<close>

text \<open>
  What \<open>np.array([[0., 0., 0.], [1., 0., 0.], [0., 1., 0.]])\<close> and
  \<open>np.array([[0, 1, 2]])\<close> are on a 64-bit little-endian platform: \<open>float64\<close> and
  \<open>int64\<close> arrays (1.0 is the eight bytes 00 00 00 00 00 00 F0 3F).
\<close>

definition P_default :: ndarray where
  "P_default =
     \<lparr>nd_dtype = float64, nd_cols = 3,
      nd_rows =
        [[replicate 8 (CHR 0x00), replicate 8 (CHR 0x00), replicate 8 (CHR 0x00)],
         [replicate 6 (CHR 0x00) @ [CHR 0xF0, CHR 0x3F], replicate 8 (CHR 0x00),
          replicate 8 (CHR 0x00)],
         [replicate 8 (CHR 0x00), replicate 6 (CHR 0x00) @ [CHR 0xF0, CHR 0x3F],
          replicate 8 (CHR 0x00)]]\<rparr>"

definition F_default :: ndarray where
  "F_default =
     \<lparr>nd_dtype = int64, nd_cols = 3,
      nd_rows = [[int_bytes Little 8 0, int_bytes Little 8 1, int_bytes Little 8 2]]\<rparr>"

text \<open>A one-row \<open>float32\<close> array: (1.0, 2.0, 3.0).\<close>

definition P_single :: ndarray where
  "P_single =
     \<lparr>nd_dtype = float32, nd_cols = 3,
      nd_rows = [[[CHR 0x00, CHR 0x00, CHR 0x80, CHR 0x3F],
                  [CHR 0x00, CHR 0x00, CHR 0x00, CHR 0x40],
                  [CHR 0x00, CHR 0x00, CHR 0x40, CHR 0x40]]]\<rparr>"

text \<open>The mesh of a result as column names and integers.\<close>

definition mesh_ints :: "endian \<Rightarrow> ply_data \<Rightarrow> (string list \<times> int list list) option" where
  "mesh_ints native d =
     map_option (\<lambda>t. (map fst (columns t), map (map (int_of native)) (rows t))) (d_mesh d)"

text \<open>Stand-ins for the two pandas parameters where the ASCII branch is not taken.\<close>

definition no_csv :: "string \<Rightarrow> csv_args \<Rightarrow> error + table" where
  "no_csv file args = Inl OSError"

definition no_astype :: "table \<Rightarrow> string list \<Rightarrow> error + table" where
  "no_astype t codes = Inl OSError"

text \<open>A heap with the index arrays \<open>[[0, 1, 2]]\<close> at address 0 and \<open>[[2, 1, 0]]\<close> at
  address 1.\<close>

definition heap_sample :: heap where
  "heap_sample = \<lparr>arrays = (\<lambda>a. if a = 0 then [(0, 1, 2)] else if a = 1 then [(2, 1, 0)] else []),
                   next_addr = 2\<rparr>"

text \<open>The same with an empty texture-index array, \<open>np.zeros((0, 3), int)\<close>, at
  address 1.\<close>

definition heap_no_tex :: heap where
  "heap_no_tex = \<lparr>arrays = (\<lambda>a. if a = 0 then [(0, 1, 2)] else []), next_addr = 2\<rparr>"

text \<open>An OBJ file with two vertex lines among other lines.\<close>

definition obj_sample :: string where
  "obj_sample = ''mtllib test.mtl\<newline>v 1 2 3\<newline>vt 0 1\<newline>v 4 5 6\<newline>f 1/1/1 2/1/1 1/1/1\<newline>''"

text \<open>An OBJ file whose comment line holds the byte FF, which is not UTF-8 text;
  its second line is a vertex line.\<close>

definition undecodable_sample :: string where
  "undecodable_sample = [CHR ''#'', CHR '' '', CHR 0xFF, CHR ''\<newline>''] @ ''v 1 2 3\<newline>''"


text \<open>A binary PLY file that ends after its last property line: no \<open>end_header\<close>, no
  payload.\<close>

definition truncated_sample :: string where
  "truncated_sample =
     ''ply\<newline>format binary_little_endian 1.0\<newline>element vertex 0\<newline>property float x\<newline>''"


text \<open>An ASCII PLY file with a property of the unknown type \<open>bogus\<close>, and a binary
  one with a property of the unknown type \<open>element_t\<close>, named \<open>3\<close>.\<close>

definition bogus_sample :: string where
  "bogus_sample =
     ''ply\<newline>format ascii 1.0\<newline>element vertex 1\<newline>property float x\<newline>property bogus y\<newline>end_header\<newline>1 2\<newline>''"

definition element_t_sample :: string where
  "element_t_sample =
     ''ply\<newline>format binary_little_endian 1.0\<newline>element vertex 0\<newline>property float x\<newline>property element_t 3\<newline>end_header\<newline>''"


text \<open>A one-row \<open>int32\<close> mesh, \<open>[[0, 0, 0]]\<close>, and the file
  \<open>write_ply("m", P_single, F_single)\<close> leaves on a little-endian platform.\<close>

definition F_single :: ndarray where
  "F_single =
     \<lparr>nd_dtype = int32, nd_cols = 3,
      nd_rows = [[replicate 4 (CHR 0x00), replicate 4 (CHR 0x00), replicate 4 (CHR 0x00)]]\<rparr>"



text \<open>An ASCII file with one vertex and one face, and stand-ins for the two pandas
  parameters that return a table with the requested names and no rows.\<close>

definition ascii_sample :: string where
  "ascii_sample =
     ''ply\<newline>format ascii 1.0\<newline>element vertex 1\<newline>property float x\<newline>element face 1\<newline>property list uchar int vertex_indices\<newline>end_header\<newline>0.5\<newline>3 0 0 0\<newline>''"

definition csv_names_only :: "string \<Rightarrow> csv_args \<Rightarrow> error + table" where
  "csv_names_only file args = Inr \<lparr>columns = map (\<lambda>n. (n, float64)) (names args), rows = []\<rparr>"

definition astype_id :: "table \<Rightarrow> string list \<Rightarrow> error + table" where
  "astype_id t codes = Inr t"

text \<open>A binary file with a \<open>uchar\<close> property \<open>red\<close> of the vertex element and a
  face element whose list property has the count type and the index type \<open>uchar\<close>;
  one vertex, red 255, and one face, count 3 and indices 0, 1, 2.  And a binary file
  with a \<open>uchar\<close> property named \<open>element_id\<close>.\<close>

definition uchar_sample :: string where
  "uchar_sample =
     ''ply\<newline>format binary_little_endian 1.0\<newline>element vertex 1\<newline>property uchar red\<newline>element face 1\<newline>property list uchar uchar vertex_indices\<newline>end_header\<newline>''
     @ [CHR 0xFF, CHR 0x03, CHR 0x00, CHR 0x01, CHR 0x02]"

definition element_id_sample :: string where
  "element_id_sample =
     ''ply\<newline>format binary_little_endian 1.0\<newline>element vertex 1\<newline>property uchar element_id\<newline>end_header\<newline>''
     @ [CHR 0x00]"

text \<open>The header write_ply writes in binary mode for \<open>n\<close> points and \<open>m\<close> faces
  (lines 191-217), and the locals of read_ply after the header loop has read it.\<close>

definition written_text :: "endian \<Rightarrow> nat \<Rightarrow> nat \<Rightarrow> string" where
  "written_text native n m =
     ''ply\<newline>'' @ ''format binary_'' @ byteorder_name native @ ''_endian 1.0\<newline>'' @
     ''element vertex '' @ str_nat n @ ''\<newline>'' @
     ''property float x\<newline>'' @ ''property float y\<newline>'' @ ''property float z\<newline>'' @
     ''element face '' @ str_nat m @ ''\<newline>'' @
     ''property list uchar int vertex_indices\<newline>'' @ ''end_header\<newline>''"

definition written_header :: "string \<Rightarrow> nat \<Rightarrow> nat \<Rightarrow> header" where
  "written_header ext n m =
     \<lparr>line = Bytes ''end_header\<newline>'',
      dtypes = (\<lambda>k. [])(''vertex'' := [(''x'', ext @ ''f4''), (''y'', ext @ ''f4''), (''z'', ext @ ''f4'')],
                         ''face'' := [(''n_points'', ext @ ''u1''), (''v1'', ext @ ''i4''),
                                      (''v2'', ext @ ''i4''), (''v3'', ext @ ''i4'')]),
      count = 9, points_size = Some (int n), mesh_size = Some (int m), name = Some ''face''\<rparr>"

section \<open>Properties\<close>

subsection \<open>The output path of write_ply\<close>

text \<open>
  C6.  The claim: a path that does not end in \<open>.ply\<close> gets the suffix \<open>.ply\<close>, a path
  that ends in \<open>.ply\<close> is used unchanged.  The code tests the ending \<open>ply\<close>, without the
  dot, and appends \<open>.ply\<close>, with it: the path \<open>supply\<close> does not end in \<open>.ply\<close> and is
  used unchanged, so the file written has no \<open>.ply\<close> extension.
\<close>

theorem ply_filename_no_dot:
  "\<not> endswith ''supply'' ''.ply'' \<and> ply_filename ''supply'' = ''supply''"
  by (simp add: ply_filename_def endswith_def suffix_def)

subsection \<open>The camera constants\<close>

lemma read_globals_pure: "read_globals ns xs = (map ns xs, ns)"
  by (induction xs) (simp_all add: read_global_def)

text \<open>
  C9.  After the module has run, its namespace binds \<open>cam_height_off_ground\<close> to 5,
  \<open>feet_height_off_ground\<close> to 0.4 and \<open>hori_dist_cam_feet\<close> to 5; each of the three
  names is the target of exactly one statement of the module; and any sequence of
  reads returns the bound values and leaves the namespace as the module left it.  The
  operations of ply.py take no namespace: they have no access to these globals.
\<close>

theorem camera_constants_fixed:
  "setup_single_camera ''cam_height_off_ground'' = Some (PyInt 5)
   \<and> setup_single_camera ''feet_height_off_ground'' = Some (PyFloat 4 (- 1))
   \<and> setup_single_camera ''hori_dist_cam_feet'' = Some (PyInt 5)
   \<and> map target setup_single_camera_source =
       [''cam_height_off_ground'', ''feet_height_off_ground'', ''hori_dist_cam_feet'']
   \<and> read_globals setup_single_camera xs = (map setup_single_camera xs, setup_single_camera)"
  by (simp add: read_globals_pure setup_single_camera_def setup_single_camera_source_def)

subsection \<open>The type table of read_ply\<close>

lemma ply_dtypes_unfold:
  "ply_dtypes k =
     (if k = ''double'' then Some ''f8'' else if k = ''float64'' then Some ''f8''
      else if k = ''float'' then Some ''f4'' else if k = ''float32'' then Some ''f4''
      else if k = ''uint'' then Some ''u4'' else if k = ''uint32'' then Some ''u4''
      else if k = ''int'' then Some ''i4'' else if k = ''int32'' then Some ''i4''
      else if k = ''ushort'' then Some ''u2'' else if k = ''uint16'' then Some ''u2''
      else if k = ''short'' then Some ''i2'' else if k = ''int16'' then Some ''i2''
      else if k = ''uchar'' then Some ''u1'' else if k = ''uint8'' then Some ''u1''
      else if k = ''char'' then Some ''i1'' else if k = ''int8'' then Some ''i1''
      else None)"
  by (simp add: ply_dtypes_def dict_def)

lemma ply_dtypes_not_b1: "ply_dtypes k \<noteq> Some ''b1''"
  by (simp add: ply_dtypes_unfold)

lemma lookup_ply_dtypes_not_b1:
  assumes "lookup ply_dtypes t = Inr d"
  shows "d \<noteq> ''b1'' \<and> ext @ d \<noteq> ''b1'' \<and> d \<noteq> ext @ ''b1''"
proof -
  from assms have d: "ply_dtypes t = Some d" by (auto simp: lookup_def split: option.splits)
  then have n: "d \<noteq> ''b1''" using ply_dtypes_not_b1 [of t] by auto
  from d have l: "length d = 2" by (auto simp: ply_dtypes_unfold split: if_splits)
  have "ext @ d \<noteq> ''b1''"
  proof
    assume e: "ext @ d = ''b1''"
    then have "length (ext @ d) = 2" by simp
    with l have "ext = []" by simp
    with e n show False by simp
  qed
  moreover have "d \<noteq> ext @ ''b1''"
  proof
    assume e: "d = ext @ ''b1''"
    then have "length d = length ext + 2" by simp
    with l have "ext = []" by simp
    with e n show False by simp
  qed
  ultimately show ?thesis using n by simp
qed

lemma dtypes_append_dtype:
  "dtypes (append_dtype h nm x) k = (if k = nm then dtypes h k @ [x] else dtypes h k)"
  by (simp add: append_dtype_def)

lemma element_line_dtypes: "element_line h ts = Inr h' \<Longrightarrow> dtypes h' = dtypes h"
  by (auto simp: element_line_def bind_err_def split: sum.splits if_splits)

subsection \<open>write_ply and read_ply on concrete calls\<close>

text \<open>
  C1.  The claim: writing a points array and a mesh array in binary mode and reading
  the file back gives the two arrays again.  Here the call is
  \<open>write_ply("mesh", P, F)\<close> with \<open>P = np.array([[0., 0., 0.], [1., 0., 0.], [0., 1., 0.]])\<close>
  and \<open>F = np.array([[0, 1, 2]])\<close> on a little-endian platform.  The write succeeds, the
  file is \<open>mesh.ply\<close>, and reading it gives the mesh \<open>[[0, 0, 0]]\<close>: the header says
  \<open>float\<close> and \<open>int\<close> (four bytes each) whatever the width of the cells, the payload
  holds the eight-byte cells, and the reader cuts four-byte cells out of them.
\<close>

theorem write_read_binary_default_arrays:
  "map (map (int_of Little)) (nd_rows F_default) = [[0, 1, 2]]
   \<and> (case write_ply Little shw ''mesh'' (Some P_default) (Some F_default) False of
        (Some (path, file), res) \<Rightarrow>
          Some (path, res, map_sum id (mesh_ints Little) (read_ply no_csv no_astype Little file))
      | (None, res) \<Rightarrow> None)
     = Some (''mesh.ply'', Inr True, Inr (Some ([''v1'', ''v2'', ''v3''], [[0, 0, 0]])))"
  by code_simp

text \<open>
  C5.  The claim: without a mesh the file has no face element.  Here the call is
  \<open>write_ply("out", P)\<close> with a one-row \<open>float32\<close> array, in binary mode and in ASCII
  mode: in both the file holds the lines \<open>element face 0\<close> and
  \<open>property list uchar int vertex_indices\<close>.  Line 165 has turned \<open>None\<close> into an empty
  table, so the test \<open>mesh is not None\<close> of line 200 never fails.
\<close>

theorem write_ply_no_mesh_declares_face:
  "fst (write_ply Little shw ''out'' (Some P_single) None False)
     = Some (''out.ply'',
         ''ply\<newline>format binary_little_endian 1.0\<newline>element vertex 1\<newline>property float x\<newline>property float y\<newline>property float z\<newline>element face 0\<newline>property list uchar int vertex_indices\<newline>end_header\<newline>''
         @ [CHR 0x00, CHR 0x00, CHR 0x80, CHR 0x3F, CHR 0x00, CHR 0x00, CHR 0x00, CHR 0x40,
            CHR 0x00, CHR 0x00, CHR 0x40, CHR 0x40])
   \<and> write_ply Little (\<lambda>d c. ''?'') ''out'' (Some P_single) None True
     = (Some (''out.ply'',
          ''ply\<newline>format ascii 1.0\<newline>element vertex 1\<newline>property float x\<newline>property float y\<newline>property float z\<newline>element face 0\<newline>property list uchar int vertex_indices\<newline>end_header\<newline>? ? ?\<newline>''),
        Inr True)"
  by code_simp

subsection \<open>write_obj\<close>

lemma fmt_d_one: "fmt_d (0 + 1) = ''1''"
  by code_simp

text \<open>
  C7, as the code has it.  The index arrays are held at two addresses the caller
  owns.  Whatever the call does, every array the caller could reach before the call,
  the two index arrays among them, is afterwards what it was.  With an empty array of
  texture coordinates the call raises \<open>ValueError\<close> (from \<open>np.amax\<close>) before the file is
  opened.  Otherwise it raises nothing and the file holds the \<open>mtllib\<close> line, the \<open>v\<close>
  lines, the \<open>vt\<close> lines and then the face lines: one per pair of rows of the two index
  arrays, as many as the shorter array has rows, in order, the \<open>i\<close>-th built from the
  \<open>i\<close>-th rows with 1 added to every index; and a row whose first, second or third
  vertex index is 0 gives a face line with \<open>1\<close> in that slot.
\<close>

theorem write_obj_shifts_copies:
  assumes "tri_v_arr < next_addr h" and "tri_t_arr < next_addr h"
  shows "(\<forall>a. a < next_addr h \<longrightarrow>
          arrays (o_heap (write_obj fmt_f out_of_range h obj_path v_arr vt_arr tri_v_arr tri_t_arr)) a
            = arrays h a)
    \<and> arrays (o_heap (write_obj fmt_f out_of_range h obj_path v_arr vt_arr tri_v_arr tri_t_arr))
          tri_v_arr = arrays h tri_v_arr
    \<and> arrays (o_heap (write_obj fmt_f out_of_range h obj_path v_arr vt_arr tri_v_arr tri_t_arr))
          tri_t_arr = arrays h tri_t_arr
    \<and> (vt_arr = [] \<longrightarrow>
          o_raised (write_obj fmt_f out_of_range h obj_path v_arr vt_arr tri_v_arr tri_t_arr)
            = Some ValueError
          \<and> o_file (write_obj fmt_f out_of_range h obj_path v_arr vt_arr tri_v_arr tri_t_arr) = None)
    \<and> (vt_arr \<noteq> [] \<longrightarrow>
          o_raised (write_obj fmt_f out_of_range h obj_path v_arr vt_arr tri_v_arr tri_t_arr) = None
          \<and> o_file (write_obj fmt_f out_of_range h obj_path v_arr vt_arr tri_v_arr tri_t_arr) =
              Some (obj_path,
                ''mtllib test.mtl\<newline>''
                @ concat (map (v_line fmt_f) v_arr)
                @ concat (map (vt_line fmt_f) vt_arr)
                @ concat (map f_line (zip (map plus1 (arrays h tri_v_arr))
                                          (map plus1 (arrays h tri_t_arr)))))
          \<and> length (map f_line (zip (map plus1 (arrays h tri_v_arr)) (map plus1 (arrays h tri_t_arr))))
              = min (length (arrays h tri_v_arr)) (length (arrays h tri_t_arr))
          \<and> (\<forall>i. i < length (arrays h tri_v_arr) \<and> i < length (arrays h tri_t_arr) \<longrightarrow>
                map f_line (zip (map plus1 (arrays h tri_v_arr)) (map plus1 (arrays h tri_t_arr))) ! i
                  = f_line (plus1 (arrays h tri_v_arr ! i), plus1 (arrays h tri_t_arr ! i))))
    \<and> f_line (plus1 (0, v2, v3), plus1 (t1, t2, t3)) =
        ''f 1/'' @ fmt_d (t1 + 1) @ ''/'' @ fmt_d (t1 + 1)
        @ '' '' @ fmt_d (v2 + 1) @ ''/'' @ fmt_d (t2 + 1) @ ''/'' @ fmt_d (t2 + 1)
        @ '' '' @ fmt_d (v3 + 1) @ ''/'' @ fmt_d (t3 + 1) @ ''/'' @ fmt_d (t3 + 1) @ ''\<newline>''
    \<and> f_line (plus1 (v1, 0, v3), plus1 (t1, t2, t3)) =
        ''f '' @ fmt_d (v1 + 1) @ ''/'' @ fmt_d (t1 + 1) @ ''/'' @ fmt_d (t1 + 1)
        @ '' 1/'' @ fmt_d (t2 + 1) @ ''/'' @ fmt_d (t2 + 1)
        @ '' '' @ fmt_d (v3 + 1) @ ''/'' @ fmt_d (t3 + 1) @ ''/'' @ fmt_d (t3 + 1) @ ''\<newline>''
    \<and> f_line (plus1 (v1, v2, 0), plus1 (t1, t2, t3)) =
        ''f '' @ fmt_d (v1 + 1) @ ''/'' @ fmt_d (t1 + 1) @ ''/'' @ fmt_d (t1 + 1)
        @ '' '' @ fmt_d (v2 + 1) @ ''/'' @ fmt_d (t2 + 1) @ ''/'' @ fmt_d (t2 + 1)
        @ '' 1/'' @ fmt_d (t3 + 1) @ ''/'' @ fmt_d (t3 + 1) @ ''\<newline>''"
proof (intro conjI impI allI)
  let ?r = "write_obj fmt_f out_of_range h obj_path v_arr vt_arr tri_v_arr tri_t_arr"
  fix a
  assume "a < next_addr h"
  then show "arrays (o_heap ?r) a = arrays h a"
    by (simp add: write_obj_def np_copy_def iadd1_def)
next
  let ?r = "write_obj fmt_f out_of_range h obj_path v_arr vt_arr tri_v_arr tri_t_arr"
  from assms show "arrays (o_heap ?r) tri_v_arr = arrays h tri_v_arr"
    by (simp add: write_obj_def np_copy_def iadd1_def)
  from assms show "arrays (o_heap ?r) tri_t_arr = arrays h tri_t_arr"
    by (simp add: write_obj_def np_copy_def iadd1_def)
  show "o_raised ?r = Some ValueError" if "vt_arr = []"
    using that by (simp add: write_obj_def np_copy_def)
  show "o_file ?r = None" if "vt_arr = []"
    using that by (simp add: write_obj_def np_copy_def)
  show "o_raised ?r = None" if "vt_arr \<noteq> []"
    using that by (simp add: write_obj_def np_copy_def)
  from assms show "o_file ?r =
        Some (obj_path,
          ''mtllib test.mtl\<newline>''
          @ concat (map (v_line fmt_f) v_arr)
          @ concat (map (vt_line fmt_f) vt_arr)
          @ concat (map f_line (zip (map plus1 (arrays h tri_v_arr)) (map plus1 (arrays h tri_t_arr)))))"
    if "vt_arr \<noteq> []"
    using that by (simp add: write_obj_def np_copy_def iadd1_def)
  show "length (map f_line (zip (map plus1 (arrays h tri_v_arr)) (map plus1 (arrays h tri_t_arr))))
      = min (length (arrays h tri_v_arr)) (length (arrays h tri_t_arr))"
    by simp
  show "map f_line (zip (map plus1 (arrays h tri_v_arr)) (map plus1 (arrays h tri_t_arr))) ! i
      = f_line (plus1 (arrays h tri_v_arr ! i), plus1 (arrays h tri_t_arr ! i))"
    if "i < length (arrays h tri_v_arr) \<and> i < length (arrays h tri_t_arr)" for i
    using that by simp
  show "f_line (plus1 (0, v2, v3), plus1 (t1, t2, t3)) =
        ''f 1/'' @ fmt_d (t1 + 1) @ ''/'' @ fmt_d (t1 + 1)
        @ '' '' @ fmt_d (v2 + 1) @ ''/'' @ fmt_d (t2 + 1) @ ''/'' @ fmt_d (t2 + 1)
        @ '' '' @ fmt_d (v3 + 1) @ ''/'' @ fmt_d (t3 + 1) @ ''/'' @ fmt_d (t3 + 1) @ ''\<newline>''"
    using fmt_d_one by (simp add: f_line_def plus1_def)
  show "f_line (plus1 (v1, 0, v3), plus1 (t1, t2, t3)) =
        ''f '' @ fmt_d (v1 + 1) @ ''/'' @ fmt_d (t1 + 1) @ ''/'' @ fmt_d (t1 + 1)
        @ '' 1/'' @ fmt_d (t2 + 1) @ ''/'' @ fmt_d (t2 + 1)
        @ '' '' @ fmt_d (v3 + 1) @ ''/'' @ fmt_d (t3 + 1) @ ''/'' @ fmt_d (t3 + 1) @ ''\<newline>''"
    using fmt_d_one by (simp add: f_line_def plus1_def)
  show "f_line (plus1 (v1, v2, 0), plus1 (t1, t2, t3)) =
        ''f '' @ fmt_d (v1 + 1) @ ''/'' @ fmt_d (t1 + 1) @ ''/'' @ fmt_d (t1 + 1)
        @ '' '' @ fmt_d (v2 + 1) @ ''/'' @ fmt_d (t2 + 1) @ ''/'' @ fmt_d (t2 + 1)
        @ '' 1/'' @ fmt_d (t3 + 1) @ ''/'' @ fmt_d (t3 + 1) @ ''\<newline>''"
    using fmt_d_one by (simp add: f_line_def plus1_def)
qed

theorem write_obj_shifts_copies_witness:
  "(0::nat) < next_addr heap_sample \<and> (1::nat) < next_addr heap_sample
   \<and> arrays heap_sample 0 = [(0, 1, 2)] \<and> arrays heap_sample 1 = [(2, 1, 0)]
   \<and> [(0::nat, 1::nat)] \<noteq> []
   \<and> o_raised (write_obj (\<lambda>x. str_nat x @ ''.000000'') (\<lambda>vt. False) heap_sample ''a.obj''
              [(0, 0, 0), (1, 0, 0), (0, 1, 0)] [(0, 1)] 0 1) = None
   \<and> o_file (write_obj (\<lambda>x. str_nat x @ ''.000000'') (\<lambda>vt. False) heap_sample ''a.obj''
              [(0, 0, 0), (1, 0, 0), (0, 1, 0)] [(0, 1)] 0 1)
      = Some (''a.obj'',
          ''mtllib test.mtl\<newline>v 0.000000 0.000000 0.000000\<newline>v 1.000000 0.000000 0.000000\<newline>v 0.000000 1.000000 0.000000\<newline>vt 0.000000 1.000000\<newline>f 1/3/3 2/2/2 3/1/1\<newline>'')
   \<and> map f_line (zip (map plus1 (arrays heap_sample 0)) (map plus1 (arrays heap_sample 1))) ! 0
      = ''f 1/3/3 2/2/2 3/1/1\<newline>''
   \<and> arrays (o_heap (write_obj (\<lambda>x. str_nat x @ ''.000000'') (\<lambda>vt. False) heap_sample ''a.obj''
              [(0, 0, 0), (1, 0, 0), (0, 1, 0)] [(0, 1)] 0 1)) 0 = [(0, 1, 2)]
   \<and> arrays (o_heap (write_obj (\<lambda>x. str_nat x @ ''.000000'') (\<lambda>vt. False) heap_sample ''a.obj''
              [(0, 0, 0), (1, 0, 0), (0, 1, 0)] [(0, 1)] 0 1)) 1 = [(2, 1, 0)]
   \<and> o_raised (write_obj (\<lambda>x. str_nat x @ ''.000000'') (\<lambda>vt. False) heap_sample ''a.obj''
              [(0, 0, 0), (1, 0, 0), (0, 1, 0)] [] 0 1) = Some ValueError
   \<and> arrays (o_heap (write_obj (\<lambda>x. str_nat x @ ''.000000'') (\<lambda>vt. False) heap_sample ''a.obj''
              [(0, 0, 0), (1, 0, 0), (0, 1, 0)] [] 0 1)) 0 = [(0, 1, 2)]"
proof -
  let ?r = "write_obj (\<lambda>x. str_nat x @ ''.000000'') (\<lambda>vt. False) heap_sample ''a.obj''
              [(0, 0, 0), (1, 0, 0), (0, 1, 0)] [(0::nat, 1::nat)] 0 1"
  let ?e = "write_obj (\<lambda>x. str_nat x @ ''.000000'') (\<lambda>vt. False) heap_sample ''a.obj''
              [(0, 0, 0), (1, 0, 0), (0, 1, 0)] ([] :: (nat \<times> nat) list) 0 1"
  have h0: "(0::nat) < next_addr heap_sample" and h1: "(1::nat) < next_addr heap_sample"
    and h2: "[(0::nat, 1::nat)] \<noteq> []"
    and a0: "arrays heap_sample 0 = [(0, 1, 2)]" and a1: "arrays heap_sample 1 = [(2, 1, 0)]"
    by (simp_all add: heap_sample_def)
  note t = write_obj_shifts_copies [OF h0 h1, of "\<lambda>x. str_nat x @ ''.000000''" "\<lambda>vt. False"
      "''a.obj''" "[(0, 0, 0), (1, 0, 0), (0, 1, 0)]" "[(0, 1)]"]
  note u = write_obj_shifts_copies [OF h0 h1, of "\<lambda>x. str_nat x @ ''.000000''" "\<lambda>vt. False"
      "''a.obj''" "[(0, 0, 0), (1, 0, 0), (0, 1, 0)]" "[]"]
  from t h2 have r: "o_raised ?r = None" by blast
  from t have fr: "\<forall>a. a < next_addr heap_sample \<longrightarrow> arrays (o_heap ?r) a = arrays heap_sample a"
    by (rule conjunct1)
  from fr h0 a0 have r0: "arrays (o_heap ?r) 0 = [(0, 1, 2)]" by simp
  from fr h1 a1 have r1: "arrays (o_heap ?r) 1 = [(2, 1, 0)]" by simp
  from t h2 have "\<forall>i. i < length (arrays heap_sample 0) \<and> i < length (arrays heap_sample 1) \<longrightarrow>
      map f_line (zip (map plus1 (arrays heap_sample 0)) (map plus1 (arrays heap_sample 1))) ! i
        = f_line (plus1 (arrays heap_sample 0 ! i), plus1 (arrays heap_sample 1 ! i))"
    by blast
  with a0 a1 have "map f_line (zip (map plus1 (arrays heap_sample 0)) (map plus1 (arrays heap_sample 1))) ! 0
      = f_line (plus1 (0, 1, 2), plus1 (2, 1, 0))" by simp
  moreover have "f_line (plus1 (0, 1, 2), plus1 (2, 1, 0)) = ''f 1/3/3 2/2/2 3/1/1\<newline>''"
    by code_simp
  ultimately have l0: "map f_line (zip (map plus1 (arrays heap_sample 0))
      (map plus1 (arrays heap_sample 1))) ! 0 = ''f 1/3/3 2/2/2 3/1/1\<newline>''" by simp
  have f: "o_file ?r = Some (''a.obj'',
          ''mtllib test.mtl\<newline>v 0.000000 0.000000 0.000000\<newline>v 1.000000 0.000000 0.000000\<newline>v 0.000000 1.000000 0.000000\<newline>vt 0.000000 1.000000\<newline>f 1/3/3 2/2/2 3/1/1\<newline>'')"
    by code_simp
  from u have e: "o_raised ?e = Some ValueError" by blast
  from u have "\<forall>a. a < next_addr heap_sample \<longrightarrow> arrays (o_heap ?e) a = arrays heap_sample a"
    by (rule conjunct1)
  with h0 a0 have e0: "arrays (o_heap ?e) 0 = [(0, 1, 2)]" by simp
  from h0 h1 a0 a1 h2 r f l0 r0 r1 e e0 show ?thesis by (intro conjI)
qed

text \<open>
  C7, as stated, fails.  The vertex-index array \<open>[[0, 1, 2]]\<close> contains the index 0,
  and yet no face line is written: with an empty array of texture coordinates the call
  raises \<open>ValueError\<close> and writes no file, and with an empty texture-index array \<open>zip\<close>
  pairs no rows and the file ends after the \<open>vt\<close> lines.
\<close>

theorem write_obj_no_face_line:
  "arrays heap_sample 0 = [(0, 1, 2)]
   \<and> o_raised (write_obj (\<lambda>x. str_nat x @ ''.000000'') (\<lambda>vt. False) heap_sample ''a.obj''
              [(0, 0, 0)] ([] :: (nat \<times> nat) list) 0 1) = Some ValueError
   \<and> o_file (write_obj (\<lambda>x. str_nat x @ ''.000000'') (\<lambda>vt. False) heap_sample ''a.obj''
              [(0, 0, 0)] ([] :: (nat \<times> nat) list) 0 1) = None
   \<and> arrays heap_no_tex 0 = [(0, 1, 2)] \<and> arrays heap_no_tex 1 = []
   \<and> o_raised (write_obj (\<lambda>x. str_nat x @ ''.000000'') (\<lambda>vt. False) heap_no_tex ''a.obj''
              [(0, 0, 0)] [(0, 1)] 0 1) = None
   \<and> o_file (write_obj (\<lambda>x. str_nat x @ ''.000000'') (\<lambda>vt. False) heap_no_tex ''a.obj''
              [(0, 0, 0)] [(0, 1)] 0 1)
      = Some (''a.obj'', ''mtllib test.mtl\<newline>v 0.000000 0.000000 0.000000\<newline>vt 0.000000 1.000000\<newline>'')"
  by code_simp


subsection \<open>read_obj\<close>

lemma vertex_three_floats:
  assumes "3 \<le> length (tl (split_sp ln))"
    and "\<forall>tok \<in> set (take 3 (tl (split_sp ln))). float tok \<noteq> None"
  shows "vertex float ln = Inr (map (\<lambda>tok. the (float tok)) (take 3 (tl (split_sp ln))))"
proof -
  from assms(1) obtain a b c r where t: "tl (split_sp ln) = a # b # c # r"
    by (metis Suc_le_length_iff numeral_3_eq_3)
  with assms(2) obtain x y z where "float a = Some x" "float b = Some y" "float c = Some z"
    by auto
  with t show ?thesis by (simp add: vertex_def bind_err_def index_def py_float_def)
qed

lemma vertex_raises:
  assumes "\<not> (3 \<le> length (tl (split_sp ln))
             \<and> (\<forall>tok \<in> set (take 3 (tl (split_sp ln))). float tok \<noteq> None))"
  shows "vertex float ln = Inl IndexError \<or> vertex float ln = Inl ValueError"
proof (cases "vertex float ln")
  case (Inl e)
  then show ?thesis
    by (auto simp: vertex_def bind_err_def index_def py_float_def
             split: sum.splits if_splits option.splits)
next
  case (Inr v)
  then have l: "3 \<le> length (tl (split_sp ln))"
    by (auto simp: vertex_def bind_err_def index_def split: sum.splits if_splits)
  then obtain a b c r where t: "tl (split_sp ln) = a # b # c # r"
    by (metis Suc_le_length_iff numeral_3_eq_3)
  with Inr have "\<forall>tok \<in> set (take 3 (tl (split_sp ln))). float tok \<noteq> None"
    by (auto simp: vertex_def bind_err_def index_def py_float_def split: option.splits)
  with l assms show ?thesis by simp
qed

lemma collect_three_floats:
  assumes "\<forall>ln \<in> set lns. prefix ''v '' ln \<longrightarrow>
             3 \<le> length (tl (split_sp ln))
             \<and> (\<forall>tok \<in> set (take 3 (tl (split_sp ln))). float tok \<noteq> None)"
  shows "collect float acc lns =
           Inr (acc @ map (\<lambda>ln. map (\<lambda>tok. the (float tok)) (take 3 (tl (split_sp ln))))
                          (filter (prefix ''v '') lns))"
  using assms
proof (induction lns arbitrary: acc)
  case Nil
  then show ?case by simp
next
  case (Cons ln lns)
  from Cons.prems have r: "\<forall>ln \<in> set lns. prefix ''v '' ln \<longrightarrow>
             3 \<le> length (tl (split_sp ln))
             \<and> (\<forall>tok \<in> set (take 3 (tl (split_sp ln))). float tok \<noteq> None)" by simp
  show ?case
  proof (cases "prefix ''v '' ln")
    case True
    with Cons.prems have "vertex float ln
        = Inr (map (\<lambda>tok. the (float tok)) (take 3 (tl (split_sp ln))))"
      by (intro vertex_three_floats) simp_all
    with True Cons.IH [OF r] show ?thesis by (simp add: bind_err_def)
  next
    case False
    with Cons.IH [OF r] show ?thesis by simp
  qed
qed

lemma collect_raises:
  assumes "\<exists>ln \<in> set lns. prefix ''v '' ln
             \<and> \<not> (3 \<le> length (tl (split_sp ln))
                   \<and> (\<forall>tok \<in> set (take 3 (tl (split_sp ln))). float tok \<noteq> None))"
  shows "collect float acc lns = Inl IndexError \<or> collect float acc lns = Inl ValueError"
  using assms
proof (induction lns arbitrary: acc)
  case Nil
  then show ?case by simp
next
  case (Cons ln lns)
  show ?case
  proof (cases "prefix ''v '' ln")
    case False
    with Cons.prems have "\<exists>ln \<in> set lns. prefix ''v '' ln
             \<and> \<not> (3 \<le> length (tl (split_sp ln))
                   \<and> (\<forall>tok \<in> set (take 3 (tl (split_sp ln))). float tok \<noteq> None))" by auto
    from Cons.IH [OF this, of acc] False show ?thesis by simp
  next
    case True
    show ?thesis
    proof (cases "3 \<le> length (tl (split_sp ln))
                   \<and> (\<forall>tok \<in> set (take 3 (tl (split_sp ln))). float tok \<noteq> None)")
      case False
      from vertex_raises [OF this] True show ?thesis by (auto simp: bind_err_def)
    next
      case g: True
      then have v: "vertex float ln
          = Inr (map (\<lambda>tok. the (float tok)) (take 3 (tl (split_sp ln))))"
        by (intro vertex_three_floats) simp_all
      from g Cons.prems have "\<exists>ln \<in> set lns. prefix ''v '' ln
             \<and> \<not> (3 \<le> length (tl (split_sp ln))
                   \<and> (\<forall>tok \<in> set (take 3 (tl (split_sp ln))). float tok \<noteq> None))" by auto
      from Cons.IH [OF this] True v show ?thesis by (simp add: bind_err_def)
    qed
  qed
qed

text \<open>
  C8, as the code has it.  The file is read in text mode: when the locale's encoding
  does not decode its bytes, read_obj raises \<open>UnicodeDecodeError\<close>.  When it does, and
  every line of the text that starts with \<open>v \<close> has, after the tag, at least three
  pieces between single spaces of which \<open>float\<close> reads the first three, read_obj
  returns the array with exactly one row per such line, in the order of the file, each
  row the values of the first three pieces of its line; its shape is (N, 3) for N > 0
  rows and (0,) for none.  The result is a function of the lines that start with \<open>v \<close>
  alone: every other line contributes nothing.  And when some line that starts with
  \<open>v \<close> has fewer than three pieces after the tag, or \<open>float\<close> rejects one of the first
  three, read_obj raises \<open>IndexError\<close> or \<open>ValueError\<close>.
\<close>

theorem read_obj_vertices:
  "(codec b = None \<longrightarrow> read_obj codec float b = Inl UnicodeDecodeError)
   \<and> (codec b = Some s
       \<and> (\<forall>ln \<in> set (lines_from [] (universal_newlines s)). prefix ''v '' ln \<longrightarrow>
             3 \<le> length (tl (split_sp ln))
             \<and> (\<forall>tok \<in> set (take 3 (tl (split_sp ln))). float tok \<noteq> None))
       \<longrightarrow> read_obj codec float b
             = Inr (np_array (map (\<lambda>ln. map (\<lambda>tok. the (float tok)) (take 3 (tl (split_sp ln))))
                                  (filter (prefix ''v '') (lines_from [] (universal_newlines s)))))
           \<and> items (np_array (map (\<lambda>ln. map (\<lambda>tok. the (float tok)) (take 3 (tl (split_sp ln))))
                                   (filter (prefix ''v '') (lines_from [] (universal_newlines s)))))
             = map (\<lambda>ln. map (\<lambda>tok. the (float tok)) (take 3 (tl (split_sp ln))))
                   (filter (prefix ''v '') (lines_from [] (universal_newlines s)))
           \<and> shape (np_array (map (\<lambda>ln. map (\<lambda>tok. the (float tok)) (take 3 (tl (split_sp ln))))
                                   (filter (prefix ''v '') (lines_from [] (universal_newlines s)))))
             = (if filter (prefix ''v '') (lines_from [] (universal_newlines s)) = [] then [0]
                else [length (filter (prefix ''v '') (lines_from [] (universal_newlines s))), 3]))
   \<and> (codec b = Some s
       \<and> (\<exists>ln \<in> set (lines_from [] (universal_newlines s)). prefix ''v '' ln
             \<and> \<not> (3 \<le> length (tl (split_sp ln))
                   \<and> (\<forall>tok \<in> set (take 3 (tl (split_sp ln))). float tok \<noteq> None)))
       \<longrightarrow> read_obj codec float b = Inl IndexError \<or> read_obj codec float b = Inl ValueError)"
proof (intro conjI impI)
  assume "codec b = None"
  then show "read_obj codec float b = Inl UnicodeDecodeError"
    by (simp add: read_obj_def readlines_def bind_err_def)
next
  let ?lns = "lines_from [] (universal_newlines s)"
  let ?vs = "map (\<lambda>ln. map (\<lambda>tok. the (float tok)) (take 3 (tl (split_sp ln))))
               (filter (prefix ''v '') ?lns)"
  assume a: "codec b = Some s
       \<and> (\<forall>ln \<in> set ?lns. prefix ''v '' ln \<longrightarrow>
             3 \<le> length (tl (split_sp ln))
             \<and> (\<forall>tok \<in> set (take 3 (tl (split_sp ln))). float tok \<noteq> None))"
  then have "collect float [] ?lns = Inr ([] @ ?vs)" by (intro collect_three_floats) simp
  with a show "read_obj codec float b = Inr (np_array ?vs)"
    by (simp add: read_obj_def readlines_def bind_err_def)
  show "items (np_array ?vs) = ?vs" by (simp add: np_array_def)
  show "shape (np_array ?vs)
      = (if filter (prefix ''v '') ?lns = [] then [0]
         else [length (filter (prefix ''v '') ?lns), 3])"
    by (simp add: np_array_def)
next
  let ?lns = "lines_from [] (universal_newlines s)"
  assume a: "codec b = Some s
       \<and> (\<exists>ln \<in> set ?lns. prefix ''v '' ln
             \<and> \<not> (3 \<le> length (tl (split_sp ln))
                   \<and> (\<forall>tok \<in> set (take 3 (tl (split_sp ln))). float tok \<noteq> None)))"
  then have "collect float [] ?lns = Inl IndexError \<or> collect float [] ?lns = Inl ValueError"
    by (intro collect_raises) simp
  with a show "read_obj codec float b = Inl IndexError \<or> read_obj codec float b = Inl ValueError"
    by (auto simp: read_obj_def readlines_def bind_err_def)
qed

theorem read_obj_vertices_witness:
  "utf_8 obj_sample = Some obj_sample
   \<and> lines_from [] (universal_newlines obj_sample) =
       [''mtllib test.mtl\<newline>'', ''v 1 2 3\<newline>'', ''vt 0 1\<newline>'', ''v 4 5 6\<newline>'',
        ''f 1/1/1 2/1/1 1/1/1\<newline>'']
   \<and> map float_sample (tl (split_sp ''v 1 2 3\<newline>'')) = [Some 1, Some 2, Some 3]
   \<and> map float_sample (tl (split_sp ''v 4 5 6\<newline>'')) = [Some 4, Some 5, Some 6]
   \<and> read_obj utf_8 float_sample obj_sample = Inr \<lparr>shape = [2, 3], items = [[1, 2, 3], [4, 5, 6]]\<rparr>
   \<and> utf_8 undecodable_sample = None
   \<and> read_obj utf_8 float_sample undecodable_sample = Inl UnicodeDecodeError
   \<and> utf_8 ''v 1 2\<newline>'' = Some ''v 1 2\<newline>''
   \<and> lines_from [] (universal_newlines ''v 1 2\<newline>'') = [''v 1 2\<newline>'']
   \<and> length (tl (split_sp ''v 1 2\<newline>'')) = 2
   \<and> (read_obj utf_8 float_sample ''v 1 2\<newline>'' = Inl IndexError
       \<or> read_obj utf_8 float_sample ''v 1 2\<newline>'' = Inl ValueError)"
proof -
  let ?lns = "lines_from [] (universal_newlines obj_sample)"
  have c: "utf_8 obj_sample = Some obj_sample" by code_simp
  have r: "?lns =
     [''mtllib test.mtl\<newline>'', ''v 1 2 3\<newline>'', ''vt 0 1\<newline>'', ''v 4 5 6\<newline>'',
      ''f 1/1/1 2/1/1 1/1/1\<newline>'']"
    by code_simp
  have v1: "map float_sample (tl (split_sp ''v 1 2 3\<newline>'')) = [Some 1, Some 2, Some 3]"
    by code_simp
  have v2: "map float_sample (tl (split_sp ''v 4 5 6\<newline>'')) = [Some 4, Some 5, Some 6]"
    by code_simp
  have g1: "3 \<le> length (tl (split_sp ''v 1 2 3\<newline>''))
      \<and> (\<forall>tok \<in> set (take 3 (tl (split_sp ''v 1 2 3\<newline>''))). float_sample tok \<noteq> None)"
    by code_simp
  have g2: "3 \<le> length (tl (split_sp ''v 4 5 6\<newline>''))
      \<and> (\<forall>tok \<in> set (take 3 (tl (split_sp ''v 4 5 6\<newline>''))). float_sample tok \<noteq> None)"
    by code_simp
  have h: "utf_8 obj_sample = Some obj_sample
       \<and> (\<forall>ln \<in> set ?lns. prefix ''v '' ln \<longrightarrow>
             3 \<le> length (tl (split_sp ln))
             \<and> (\<forall>tok \<in> set (take 3 (tl (split_sp ln))). float_sample tok \<noteq> None))"
    using c g1 g2 by (simp add: r)
  note t = read_obj_vertices [of utf_8 _ float_sample]
  from t [of obj_sample obj_sample, THEN conjunct2, THEN conjunct1, rule_format, OF h]
  have "read_obj utf_8 float_sample obj_sample
      = Inr (np_array (map (\<lambda>ln. map (\<lambda>tok. the (float_sample tok)) (take 3 (tl (split_sp ln))))
                           (filter (prefix ''v '') ?lns)))"
    by (rule conjunct1)
  moreover have "np_array (map (\<lambda>ln. map (\<lambda>tok. the (float_sample tok)) (take 3 (tl (split_sp ln))))
                           (filter (prefix ''v '') ?lns))
      = \<lparr>shape = [2, 3], items = [[1, 2, 3], [4, 5, 6]]\<rparr>"
    by code_simp
  ultimately have e: "read_obj utf_8 float_sample obj_sample
      = Inr \<lparr>shape = [2, 3], items = [[1, 2, 3], [4, 5, 6]]\<rparr>" by simp
  have n: "utf_8 undecodable_sample = None" by code_simp
  from t [of undecodable_sample, THEN conjunct1, rule_format, OF n]
  have u: "read_obj utf_8 float_sample undecodable_sample = Inl UnicodeDecodeError" .
  have c2: "utf_8 ''v 1 2\<newline>'' = Some ''v 1 2\<newline>''" by code_simp
  have r2: "lines_from [] (universal_newlines ''v 1 2\<newline>'') = [''v 1 2\<newline>'']" by code_simp
  have l2: "length (tl (split_sp ''v 1 2\<newline>'')) = 2" by code_simp
  have h2: "utf_8 ''v 1 2\<newline>'' = Some ''v 1 2\<newline>''
       \<and> (\<exists>ln \<in> set (lines_from [] (universal_newlines ''v 1 2\<newline>'')). prefix ''v '' ln
             \<and> \<not> (3 \<le> length (tl (split_sp ln))
                   \<and> (\<forall>tok \<in> set (take 3 (tl (split_sp ln))). float_sample tok \<noteq> None)))"
    using c2 l2 by (simp add: r2)
  from t [of "''v 1 2\<newline>''" "''v 1 2\<newline>''", THEN conjunct2, THEN conjunct2, rule_format, OF h2]
  have b: "read_obj utf_8 float_sample ''v 1 2\<newline>'' = Inl IndexError
       \<or> read_obj utf_8 float_sample ''v 1 2\<newline>'' = Inl ValueError" .
  from c r v1 v2 e n u c2 r2 l2 b show ?thesis by (intro conjI)
qed

text \<open>
  C8, as stated, fails: it promises an array of shape N x 3 for every file.  A vertex
  line with two coordinates raises \<open>IndexError\<close>; a file without vertex lines gives an
  array of shape (0,), not (0, 3); and a file whose bytes are not UTF-8 text raises
  \<open>UnicodeDecodeError\<close> in a UTF-8 locale, vertex line or not.
\<close>

theorem read_obj_not_total:
  "read_obj utf_8 float_sample ''v 1 2\<newline>'' = Inl IndexError
   \<and> read_obj utf_8 float_sample ''vt 0 1\<newline>'' = Inr \<lparr>shape = [0], items = []\<rparr>
   \<and> read_obj utf_8 float_sample undecodable_sample = Inl UnicodeDecodeError"
  by code_simp


subsection \<open>read_ply: a header without end_header\<close>

lemma bytes_in_sublist: "bytes_in n h = sublist n h"
  by (induction h) (simp_all add: sublist_Cons_right)

lemma readline_split: "readline ply = (l, rest) \<Longrightarrow> ply = l @ rest"
  by (induction ply arbitrary: l rest) (auto split: if_splits prod.splits)

lemma readline_empty: "readline ply = ([], rest) \<Longrightarrow> ply = []"
  by (cases ply) (auto split: if_splits prod.splits)

lemma readline_append:
  "CHR ''\<newline>'' \<in> set ply \<Longrightarrow> readline (ply @ e) = (fst (readline ply), snd (readline ply) @ e)"
  by (induction ply) (auto split: prod.splits)

lemma readline_rest_complete:
  "ply \<noteq> [] \<Longrightarrow> last ply = CHR ''\<newline>'' \<Longrightarrow>
     snd (readline ply) = [] \<or> last (snd (readline ply)) = CHR ''\<newline>''"
  by (induction ply) (auto split: prod.splits if_splits)

lemma split_from_sublist: "t \<in> set (split_from tok s) \<Longrightarrow> sublist t (tok @ s)"
proof (induction s arbitrary: tok)
  case Nil
  then show ?case by (auto split: if_splits)
next
  case (Cons c cs)
  show ?case
  proof (cases "is_space c")
    case True
    with Cons.prems have "t = tok \<or> t \<in> set (split_from [] cs)" by (auto split: if_splits)
    then show ?thesis
    proof
      assume "t = tok"
      then have "tok @ c # cs = [] @ t @ (c # cs)" by simp
      then show ?thesis unfolding sublist_def by blast
    next
      assume "t \<in> set (split_from [] cs)"
      from Cons.IH [OF this] have "sublist t cs" by simp
      then obtain ps ss where "cs = ps @ t @ ss" by (auto simp: sublist_def)
      then have "tok @ c # cs = (tok @ c # ps) @ t @ ss" by simp
      then show ?thesis unfolding sublist_def by blast
    qed
  next
    case False
    with Cons.prems have "t \<in> set (split_from (tok @ [c]) cs)" by simp
    from Cons.IH [OF this] show ?thesis by simp
  qed
qed

lemma token_in_line: "t \<in> set (split_ws l) \<Longrightarrow> bytes_in t l"
  using split_from_sublist [of t "[]" l] by (simp add: split_ws_def bytes_in_sublist)


lemma header_body_eof_eq:
  "header_body fmt ext h [] = Inr (h\<lparr>line := Bytes [], count := count h + 1\<rparr>)"
  by (simp add: header_body_def bind_err_def)

lemma header_body_end:
  "header_body fmt ext h ''end_header\<newline>'' =
     Inr (h\<lparr>line := Bytes ''end_header\<newline>'', count := count h + 1\<rparr>)"
  by (simp add: header_body_def bind_err_def)

lemma header_loop_stop: "\<not> loop_test (line h) \<Longrightarrow> header_loop fmt ext h ply = Inr (h, ply)"
  by (simp add: header_loop.simps [of fmt ext h ply])

lemma header_loop_turn:
  "loop_test (line h) \<Longrightarrow> readline ply = (l, rest) \<Longrightarrow>
     header_loop fmt ext h ply =
       (case header_body fmt ext h l of Inl e \<Rightarrow> Inl e | Inr h' \<Rightarrow> header_loop fmt ext h' rest)"
  by (simp add: header_loop.simps [of fmt ext h ply])

lemma header_loop_append:
  assumes "ply = [] \<or> last ply = CHR ''\<newline>''"
  shows "map_sum id (\<lambda>r. (dtypes (fst r), count (fst r), points_size (fst r), mesh_size (fst r)))
           (header_loop fmt ext h (ply @ ''end_header\<newline>''))
       = map_sum id (\<lambda>r. (dtypes (fst r), count (fst r), points_size (fst r), mesh_size (fst r)))
           (header_loop fmt ext h ply)"
  using assms
proof (induction fmt ext h ply rule: header_loop.induct)
  case (1 fmt ext h ply)
  show ?case
  proof (cases "loop_test (line h)")
    case False
    then show ?thesis by (simp add: header_loop_stop)
  next
    case t: True
    show ?thesis
    proof (cases "ply = []")
      case True
      have a: "header_loop fmt ext h [] = Inr (h\<lparr>line := Bytes [], count := count h + 1\<rparr>, [])"
        using t by (simp add: header_loop_turn [OF t, of "[]" "[]" "[]"] header_body_eof_eq header_loop_stop)
      have b: "header_loop fmt ext h ''end_header\<newline>'' =
          Inr (h\<lparr>line := Bytes ''end_header\<newline>'', count := count h + 1\<rparr>, [])"
        using t by (simp add: header_loop_turn [OF t, of "''end_header\<newline>''" "''end_header\<newline>''" "[]"]
            header_body_end header_loop_stop)
      from True a b show ?thesis by simp
    next
      case False
      with "1.prems" have nl: "last ply = CHR ''\<newline>''" by simp
      with False have mem: "CHR ''\<newline>'' \<in> set ply" by (metis last_in_set)
      obtain l rest where r: "readline ply = (l, rest)" by (cases "readline ply")
      from readline_append [OF mem, of "''end_header\<newline>''"] r
      have r2: "readline (ply @ ''end_header\<newline>'') = (l, rest @ ''end_header\<newline>'')" by simp
      from readline_rest_complete [OF False nl] r
      have c: "rest = [] \<or> last rest = CHR ''\<newline>''" by simp
      show ?thesis
      proof (cases "header_body fmt ext h l")
        case (Inl e)
        then show ?thesis
          by (simp add: header_loop_turn [OF t r] header_loop_turn [OF t r2])
      next
        case (Inr h')
        from "1.IH" [OF t r [symmetric] Inr c] Inr show ?thesis
          by (simp add: header_loop_turn [OF t r] header_loop_turn [OF t r2])
      qed
    qed
  qed
qed

lemma header_loop_to_eof:
  assumes "\<not> bytes_in ''end_header'' ply" and "loop_test (line h)"
    and "header_loop fmt ext h ply = Inr (h', rest)"
  shows "rest = []"
  using assms
proof (induction fmt ext h ply rule: header_loop.induct)
  case (1 fmt ext h ply)
  obtain l r where r: "readline ply = (l, r)" by (cases "readline ply")
  then have ply: "ply = l @ r" by (rule readline_split)
  from "1.prems"(3) obtain h1 where b: "header_body fmt ext h l = Inr h1"
    and lp: "header_loop fmt ext h1 r = Inr (h', rest)"
    by (auto simp: header_loop_turn [OF "1.prems"(2) r] split: sum.splits)
  from "1.prems"(1) ply have nl: "\<not> bytes_in ''end_header'' l" and nr: "\<not> bytes_in ''end_header'' r"
    by (auto simp: bytes_in_sublist sublist_append)
  show ?case
  proof (cases "loop_test (line h1)")
    case True
    from "1.IH" [OF "1.prems"(2) r [symmetric] b nr True lp] show ?thesis .
  next
    case False
    with lp have rest: "rest = r" by (simp add: header_loop_stop)
    from b have "line h1 = Bytes l \<or> line h1 = Tokens (split_ws l)"
      by (auto simp: header_body_def bind_err_def element_line_def property_line_def append_dtype_def
               split: sum.splits if_splits)
    then have "l = []"
    proof
      assume "line h1 = Bytes l"
      with False nl show ?thesis by simp
    next
      assume "line h1 = Tokens (split_ws l)"
      with False have "''end_header'' \<in> set (split_ws l)" by simp
      then have "bytes_in ''end_header'' l" by (rule token_in_line)
      with nl show ?thesis by simp
    qed
    with r have "ply = []" by (simp add: readline_empty)
    with r rest show ?thesis by simp
  qed
qed


lemma read_header_append:
  assumes "file = [] \<or> last file = CHR ''\<newline>''"
  shows "scan_view (read_header (file @ ''end_header\<newline>'')) = scan_view (read_header file)"
proof (cases "file = []")
  case True
  then show ?thesis
    by (simp add: read_header_def read_format_def bind_err_def scan_view_def)
next
  case False
  with assms have nl: "last file = CHR ''\<newline>''" by simp
  with False have mem: "CHR ''\<newline>'' \<in> set file" by (metis last_in_set)
  obtain l1 ply1 where r1: "readline file = (l1, ply1)" by (cases "readline file")
  from readline_append [OF mem, of "''end_header\<newline>''"] r1
  have r1': "readline (file @ ''end_header\<newline>'') = (l1, ply1 @ ''end_header\<newline>'')" by simp
  from readline_rest_complete [OF False nl] r1
  have c1: "ply1 = [] \<or> last ply1 = CHR ''\<newline>''" by simp
  show ?thesis
  proof (cases "ply1 = []")
    case True
    with r1 r1' show ?thesis
      by (simp add: read_header_def read_format_def bind_err_def scan_view_def index_def
            split_ws_def is_space_def)
  next
    case ne: False
    with c1 have nl1: "last ply1 = CHR ''\<newline>''" by simp
    with ne have mem1: "CHR ''\<newline>'' \<in> set ply1" by (metis last_in_set)
    obtain l2 ply2 where r2: "readline ply1 = (l2, ply2)" by (cases "readline ply1")
    from readline_append [OF mem1, of "''end_header\<newline>''"] r2
    have r2': "readline (ply1 @ ''end_header\<newline>'') = (l2, ply2 @ ''end_header\<newline>'')" by simp
    from readline_rest_complete [OF ne nl1] r2
    have c2: "ply2 = [] \<or> last ply2 = CHR ''\<newline>''" by simp
    have f: "read_format (file @ ''end_header\<newline>'') =
        map_sum id (\<lambda>f. (fst f, fst (snd f), snd (snd f) @ ''end_header\<newline>'')) (read_format file)"
      using r1 r1' r2 r2'
      by (simp add: read_format_def bind_err_def split: sum.splits)
    show ?thesis
    proof (cases "read_format file")
      case (Inl e)
      with f show ?thesis by (simp add: read_header_def bind_err_def scan_view_def)
    next
      case (Inr t)
      obtain fmt ext p2 where t: "t = (fmt, ext, p2)" by (cases t)
      from Inr t r1 r2 have "p2 = ply2"
        by (auto simp: read_format_def bind_err_def split: sum.splits if_splits)
      with c2 have "p2 = [] \<or> last p2 = CHR ''\<newline>''" by simp
      from header_loop_append [OF this, of fmt ext header_init] Inr t f show ?thesis
        by (cases "header_loop fmt ext header_init p2";
            cases "header_loop fmt ext header_init (p2 @ ''end_header\<newline>'')")
           (simp_all add: read_header_def bind_err_def scan_view_def)
    qed
  qed
qed

lemma read_header_offset:
  assumes "\<not> bytes_in ''end_header'' file" and "read_header file = Inr p"
  shows "p_end_header p = length file"
proof -
  from assms(2) obtain fmt ext p2 h rest where f: "read_format file = Inr (fmt, ext, p2)"
    and l: "header_loop fmt ext header_init p2 = Inr (h, rest)"
    and e: "p_end_header p = length file - length rest"
    by (auto simp: read_header_def bind_err_def split: sum.splits)
  obtain l1 ply1 where r1: "readline file = (l1, ply1)" by (cases "readline file")
  obtain l2 ply2 where r2: "readline ply1 = (l2, ply2)" by (cases "readline ply1")
  from f r1 r2 have "p2 = ply2"
    by (auto simp: read_format_def bind_err_def split: sum.splits if_splits)
  with readline_split [OF r1] readline_split [OF r2] have "file = l1 @ l2 @ p2" by simp
  with assms(1) have "\<not> bytes_in ''end_header'' p2"
    by (auto simp: bytes_in_sublist sublist_append)
  from header_loop_to_eof [OF this _ l] have "rest = []" by (simp add: header_init_def)
  with e show ?thesis by simp
qed

text \<open>
  C3, as the code has it.  The loop also stops at the first empty read, and nothing
  is raised there.  A file whose lines are all complete is scanned exactly as the same
  file with an \<open>end_header\<close> line added at its end: the same error if a line raises,
  otherwise the same format, byte-order mark, field lists, line count and element
  sizes.  And when no line of the file contains \<open>end_header\<close> and the header stage
  returns, the payload offset \<open>end_header\<close> is the length of the file.
\<close>

theorem truncated_header_reads_as_terminated:
  "(file = [] \<or> last file = CHR ''\<newline>'' \<longrightarrow>
      scan_view (read_header (file @ ''end_header\<newline>'')) = scan_view (read_header file))
   \<and> (\<not> bytes_in ''end_header'' file \<and> read_header file = Inr p \<longrightarrow> p_end_header p = length file)"
  using read_header_append read_header_offset by blast


theorem truncated_header_reads_as_terminated_witness:
  "last truncated_sample = CHR ''\<newline>''
   \<and> scan_view (read_header (truncated_sample @ ''end_header\<newline>''))
       = scan_view (read_header truncated_sample)
   \<and> \<not> bytes_in ''end_header'' truncated_sample
   \<and> (\<exists>p. read_header truncated_sample = Inr p \<and> p_end_header p = length truncated_sample)
   \<and> map_sum id p_end_header (read_header truncated_sample) = Inr 70"
proof -
  have h1: "last truncated_sample = CHR ''\<newline>''" by code_simp
  have h2: "\<not> bytes_in ''end_header'' truncated_sample" by code_simp
  have e: "map_sum id p_end_header (read_header truncated_sample) = Inr 70" by code_simp
  then obtain p where p: "read_header truncated_sample = Inr p"
    by (cases "read_header truncated_sample") simp_all
  note t = truncated_header_reads_as_terminated [of truncated_sample p]
  from t h1 have v: "scan_view (read_header (truncated_sample @ ''end_header\<newline>''))
       = scan_view (read_header truncated_sample)" by blast
  from t h2 p have "p_end_header p = length truncated_sample" by blast
  with p have "\<exists>p. read_header truncated_sample = Inr p \<and> p_end_header p = length truncated_sample"
    by blast
  with h1 h2 v e show ?thesis by blast
qed

text \<open>
  C3, as stated, fails: the file below reaches its end before any \<open>end_header\<close>, and
  read_ply returns a result for it (a points table with the column \<open>x\<close> and no rows).
\<close>

theorem truncated_header_is_read:
  "\<not> bytes_in ''end_header'' truncated_sample
   \<and> read_ply no_csv no_astype Little truncated_sample
       = Inr \<lparr>d_points = \<lparr>columns = [(''x'', float32)], rows = []\<rparr>, d_mesh = None\<rparr>"
  by code_simp

subsection \<open>read_ply: rejected headers\<close>

lemma turns_loop:
  "turns n fmt ext h ply = Some (h', ply') \<Longrightarrow>
     header_loop fmt ext h ply = header_loop fmt ext h' ply'"
proof (induction n arbitrary: h ply)
  case 0
  then show ?case by simp
next
  case (Suc n)
  from Suc.prems have t: "loop_test (line h)" by (simp split: if_splits)
  obtain l rest where r: "readline ply = (l, rest)" by (cases "readline ply")
  from Suc.prems t r obtain h1 where b: "header_body fmt ext h l = Inr h1"
    and n: "turns n fmt ext h1 rest = Some (h', ply')"
    by (auto split: sum.splits)
  from Suc.IH [OF n] b show ?case by (simp add: header_loop_turn [OF t r])
qed

lemma property_scalar_unknown:
  assumes "''list'' \<notin> set ts" and "ply_dtypes (ts ! 1) = None"
  shows "\<exists>e. property_line fmt ext h ts = Inl e"
    and "name h = Some nm \<Longrightarrow> 2 < length ts \<Longrightarrow> utf8 (ts ! 2) \<Longrightarrow>
           property_line fmt ext h ts = Inl (KeyError (ts ! 1))"
  using assms
  by (auto simp: property_line_def bind_err_def get_name_def index_def decode_def lookup_def
           split: sum.splits option.splits)

lemma property_list_unknown:
  assumes "''list'' \<in> set ts"
    and "ply_dtypes (ts ! 2) = None \<or> ply_dtypes (ts ! 3) = None"
  shows "\<exists>e. property_line fmt ext h ts = Inl e"
  using assms
  by (auto simp: property_line_def bind_err_def get_name_def index_def lookup_def
           split: sum.splits option.splits)


lemma header_loop_raises:
  assumes "loop_test (line h)" and "readline ply = (l, rest)" and "header_body fmt ext h l = Inl e"
  shows "header_loop fmt ext h ply = Inl e"
  using assms by (simp add: header_loop_turn)

lemma read_ply_header_error: "read_header file = Inl e \<Longrightarrow> read_ply rc at native file = Inl e"
  by (simp add: read_ply_def bind_err_def)

lemma read_header_raises:
  assumes "read_format file = Inr (fmt, ext, ply2)"
    and "turns n fmt ext header_init ply2 = Some (h, ply)"
    and "loop_test (line h)" and "readline ply = (l, rest)"
    and "header_body fmt ext h l = Inl e"
  shows "read_header file = Inl e"
  using assms turns_loop [OF assms(2)] header_loop_raises [OF assms(3,4,5)]
  by (simp add: read_header_def bind_err_def)

text \<open>
  C4, as the code has it.  A file whose first line does not contain \<open>ply\<close> is rejected
  with \<open>ValueError\<close>.  And when the header loop, after some turns that did not raise,
  reads a line that contains \<open>property\<close> and not \<open>element\<close>, and a type token of that
  line is not in the type table (the second token of a scalar property, the third or
  fourth of a list property), the header stage raises and read_ply with it; for a
  scalar property with a name, after an element line, the error is \<open>KeyError\<close> on the
  type token.
\<close>

theorem read_ply_rejects:
  "(\<not> bytes_in ''ply'' (fst (readline file)) \<longrightarrow> read_ply rc at native file = Inl ValueError)
   \<and> (read_format file = Inr (fmt, ext, ply2)
       \<and> turns n fmt ext header_init ply2 = Some (h, ply)
       \<and> loop_test (line h) \<and> readline ply = (l, rest)
       \<and> \<not> bytes_in ''element'' l \<and> bytes_in ''property'' l
       \<and> (''list'' \<notin> set (split_ws l) \<and> 1 < length (split_ws l)
              \<and> ply_dtypes (split_ws l ! 1) = None
           \<or> ''list'' \<in> set (split_ws l) \<and> 2 < length (split_ws l)
              \<and> ply_dtypes (split_ws l ! 2) = None
           \<or> ''list'' \<in> set (split_ws l) \<and> 3 < length (split_ws l)
              \<and> ply_dtypes (split_ws l ! 3) = None)
       \<longrightarrow> (\<exists>e. read_header file = Inl e \<and> read_ply rc at native file = Inl e))
   \<and> (read_format file = Inr (fmt, ext, ply2)
       \<and> turns n fmt ext header_init ply2 = Some (h, ply)
       \<and> loop_test (line h) \<and> readline ply = (l, rest)
       \<and> \<not> bytes_in ''element'' l \<and> bytes_in ''property'' l
       \<and> ''list'' \<notin> set (split_ws l) \<and> 2 < length (split_ws l)
       \<and> ply_dtypes (split_ws l ! 1) = None
       \<and> name h = Some nm \<and> utf8 (split_ws l ! 2)
       \<longrightarrow> read_ply rc at native file = Inl (KeyError (split_ws l ! 1)))"
proof (intro conjI impI)
  assume "\<not> bytes_in ''ply'' (fst (readline file))"
  then have "read_header file = Inl ValueError"
    by (cases "readline file") (simp add: read_header_def read_format_def bind_err_def)
  then show "read_ply rc at native file = Inl ValueError" by (rule read_ply_header_error)
next
  assume a: "read_format file = Inr (fmt, ext, ply2)
       \<and> turns n fmt ext header_init ply2 = Some (h, ply)
       \<and> loop_test (line h) \<and> readline ply = (l, rest)
       \<and> \<not> bytes_in ''element'' l \<and> bytes_in ''property'' l
       \<and> (''list'' \<notin> set (split_ws l) \<and> 1 < length (split_ws l)
              \<and> ply_dtypes (split_ws l ! 1) = None
           \<or> ''list'' \<in> set (split_ws l) \<and> 2 < length (split_ws l)
              \<and> ply_dtypes (split_ws l ! 2) = None
           \<or> ''list'' \<in> set (split_ws l) \<and> 3 < length (split_ws l)
              \<and> ply_dtypes (split_ws l ! 3) = None)"
  then have "\<exists>e. property_line fmt ext (h\<lparr>line := Tokens (split_ws l)\<rparr>) (split_ws l) = Inl e"
    using property_scalar_unknown(1) property_list_unknown by blast
  with a obtain e where "header_body fmt ext h l = Inl e"
    by (auto simp: header_body_def bind_err_def)
  with a have "read_header file = Inl e" using read_header_raises by blast
  then show "\<exists>e. read_header file = Inl e \<and> read_ply rc at native file = Inl e"
    using read_ply_header_error by blast
next
  assume a: "read_format file = Inr (fmt, ext, ply2)
       \<and> turns n fmt ext header_init ply2 = Some (h, ply)
       \<and> loop_test (line h) \<and> readline ply = (l, rest)
       \<and> \<not> bytes_in ''element'' l \<and> bytes_in ''property'' l
       \<and> ''list'' \<notin> set (split_ws l) \<and> 2 < length (split_ws l)
       \<and> ply_dtypes (split_ws l ! 1) = None
       \<and> name h = Some nm \<and> utf8 (split_ws l ! 2)"
  then have "property_line fmt ext (h\<lparr>line := Tokens (split_ws l)\<rparr>) (split_ws l)
      = Inl (KeyError (split_ws l ! 1))"
    using property_scalar_unknown(2) [of "split_ws l" "h\<lparr>line := Tokens (split_ws l)\<rparr>" nm fmt ext]
    by simp
  with a have "header_body fmt ext h l = Inl (KeyError (split_ws l ! 1))"
    by (auto simp: header_body_def bind_err_def)
  with a have "read_header file = Inl (KeyError (split_ws l ! 1))" using read_header_raises by blast
  then show "read_ply rc at native file = Inl (KeyError (split_ws l ! 1))"
    by (rule read_ply_header_error)
qed

theorem read_ply_rejects_witness:
  "read_format bogus_sample =
     Inr (''ascii'', [], ''element vertex 1\<newline>property float x\<newline>property bogus y\<newline>end_header\<newline>1 2\<newline>'')
   \<and> map_option (\<lambda>r. (loop_test (line (fst r)), name (fst r), snd r))
        (turns 2 ''ascii'' [] header_init
           ''element vertex 1\<newline>property float x\<newline>property bogus y\<newline>end_header\<newline>1 2\<newline>'')
      = Some (True, Some ''vertex'', ''property bogus y\<newline>end_header\<newline>1 2\<newline>'')
   \<and> readline ''property bogus y\<newline>end_header\<newline>1 2\<newline>''
      = (''property bogus y\<newline>'', ''end_header\<newline>1 2\<newline>'')
   \<and> split_ws ''property bogus y\<newline>'' = [''property'', ''bogus'', ''y'']
   \<and> ply_dtypes ''bogus'' = None
   \<and> read_ply no_csv no_astype Little bogus_sample = Inl (KeyError ''bogus'')"
proof -
  let ?p2 = "''element vertex 1\<newline>property float x\<newline>property bogus y\<newline>end_header\<newline>1 2\<newline>''"
  let ?p = "''property bogus y\<newline>end_header\<newline>1 2\<newline>''"
  let ?l = "''property bogus y\<newline>''"
  have f: "read_format bogus_sample = Inr (''ascii'', [], ?p2)" by code_simp
  have t: "map_option (\<lambda>r. (loop_test (line (fst r)), name (fst r), snd r))
        (turns 2 ''ascii'' [] header_init ?p2) = Some (True, Some ''vertex'', ?p)"
    by code_simp
  then obtain h where h: "turns 2 ''ascii'' [] header_init ?p2 = Some (h, ?p)"
    and lt: "loop_test (line h)" and nm: "name h = Some ''vertex''"
    by auto
  have r: "readline ?p = (?l, ''end_header\<newline>1 2\<newline>'')" by code_simp
  have s: "split_ws ?l = [''property'', ''bogus'', ''y'']" by code_simp
  have d: "ply_dtypes ''bogus'' = None" by (simp add: ply_dtypes_unfold)
  have b: "\<not> bytes_in ''element'' ?l \<and> bytes_in ''property'' ?l" by code_simp
  have u: "utf8 ''y''" by code_simp
  from read_ply_rejects [of bogus_sample no_csv no_astype Little "''ascii''" "[]" ?p2 2 h ?p ?l
      "''end_header\<newline>1 2\<newline>''" "''vertex''"] f h lt r s d b u nm
  have "read_ply no_csv no_astype Little bogus_sample = Inl (KeyError ''bogus'')" by simp
  with f t r s d show ?thesis by blast
qed

text \<open>
  C4, as stated, fails.  A line that contains \<open>element\<close> is taken for an element
  declaration before \<open>property\<close> is looked for: the line \<open>property element_t 3\<close>, a
  property named \<open>3\<close> of the unknown type \<open>element_t\<close>, is read as the element
  \<open>element_t\<close> of 3 rows, and read_ply returns.
\<close>

theorem unknown_type_is_read:
  "bytes_in ''ply'' (fst (readline element_t_sample))
   \<and> ply_dtypes ''element_t'' = None
   \<and> read_ply no_csv no_astype Little element_t_sample
       = Inr \<lparr>d_points = \<lparr>columns = [(''x'', float32)], rows = []\<rparr>, d_mesh = None\<rparr>"
proof -
  have "ply_dtypes ''element_t'' = None" by (simp add: ply_dtypes_unfold)
  moreover have "bytes_in ''ply'' (fst (readline element_t_sample))" by code_simp
  moreover have "read_ply no_csv no_astype Little element_t_sample
       = Inr \<lparr>d_points = \<lparr>columns = [(''x'', float32)], rows = []\<rparr>, d_mesh = None\<rparr>"
    by code_simp
  ultimately show ?thesis by blast
qed

subsection \<open>The count field of a face\<close>

lemma n_points_byte: "int_bytes native 1 (int_of native (int_bytes native 8 3)) = [CHR 0x03]"
proof (cases native)
  case Little
  have "int_bytes Little 1 (int_of Little (int_bytes Little 8 3)) = [CHR 0x03]" by code_simp
  with Little show ?thesis by simp
next
  case Big
  have "int_bytes Big 1 (int_of Big (int_bytes Big 8 3)) = [CHR 0x03]" by code_simp
  with Big show ?thesis by simp
qed


lemma zip_keep:
  assumes "col \<notin> set (map fst cs)" and "length r = length cs"
  shows "map (\<lambda>cc. if fst (fst cc) = col then f (snd cc) else snd cc) (zip cs r) = r"
  using assms
proof (induction cs arbitrary: r)
  case Nil
  then show ?case by simp
next
  case (Cons c cs)
  then obtain x xs where "r = x # xs" by (cases r) auto
  with Cons show ?case by auto
qed

lemma mesh_with_n_points:
  assumes "''n_points'' \<notin> set (map fst (columns m))"
    and "list_all (\<lambda>r. length r = length (columns m)) (rows m)"
  shows "astype_u1 native ''n_points'' (insert_first native ''n_points'' 3 m)
       = \<lparr>columns = (''n_points'', uint8) # columns m,
          rows = map (\<lambda>r. [CHR 0x03] # r) (rows m)\<rparr>"
proof -
  have c: "map (\<lambda>cd. if fst cd = ''n_points'' then (''n_points'', uint8) else cd) (columns m)
      = columns m"
    using assms(1) by (intro map_idI) force
  have r: "map (\<lambda>cc. if fst (fst cc) = ''n_points''
                      then int_bytes native 1 (int_of native (snd cc)) else snd cc)
             (zip (columns m) r) = r" if "r \<in> set (rows m)" for r
    using that assms by (intro zip_keep) (auto simp: list_all_iff)
  show ?thesis
    using assms(1) by (simp add: astype_u1_def insert_first_def n_points_byte [unfolded One_nat_def] c r
          cong: map_cong)
qed


lemma DataFrame_array:
  "nd_cols a = length cs \<Longrightarrow>
     DataFrame (Some a) cs = Inr \<lparr>columns = map (\<lambda>c. (c, nd_dtype a)) cs, rows = nd_rows a\<rparr>"
  by (simp add: DataFrame_def)

lemma float_property:
  "dt_kind d = KFloat \<Longrightarrow> lookup property_formats (take (Suc 0) (dtype_name d)) = Inr ''float''"
  by (simp add: dtype_name_def lookup_def property_formats_def dict_def)

lemma write_ply_binary:
  assumes "nd_cols P = 3" and "dt_kind (nd_dtype P) = KFloat"
    and "nd_cols F = 3" and "list_all (\<lambda>r. length r = 3) (nd_rows F)"
    and "dt_kind (nd_dtype F) \<noteq> KObject"
  shows "write_ply native shw filename (Some P) (Some F) False =
     (Some (ply_filename filename,
        concat (map (\<lambda>l. l @ ''\<newline>'')
          [''ply'', ''format binary_'' @ byteorder_name native @ ''_endian 1.0'',
           ''element vertex '' @ str_nat (length (nd_rows P)),
           ''property float x'', ''property float y'', ''property float z'',
           ''element face '' @ str_nat (length (nd_rows F)),
           ''property list uchar int vertex_indices'', ''end_header''])
        @ concat (map concat (nd_rows P))
        @ concat (map (\<lambda>r. CHR 0x03 # concat r) (nd_rows F))),
      Inr True)"
proof -
  let ?p = "\<lparr>columns = [(''x'', nd_dtype P), (''y'', nd_dtype P), (''z'', nd_dtype P)],
             rows = nd_rows P\<rparr>"
  let ?m = "\<lparr>columns = [(''v1'', nd_dtype F), (''v2'', nd_dtype F), (''v3'', nd_dtype F)],
             rows = nd_rows F\<rparr>"
  let ?m' = "\<lparr>columns = [(''n_points'', uint8), (''v1'', nd_dtype F), (''v2'', nd_dtype F),
                          (''v3'', nd_dtype F)],
              rows = map (\<lambda>r. [CHR 0x03] # r) (nd_rows F)\<rparr>"
  have m: "astype_u1 native ''n_points'' (insert_first native ''n_points'' 3 ?m) = ?m'"
    using assms(4) mesh_with_n_points [of ?m native] by (simp add: numeral_3_eq_3)
  have v: "describe_element ''vertex'' ?p =
      Inr [''element vertex '' @ str_nat (length (nd_rows P)),
           ''property float x'', ''property float y'', ''property float z'']"
    using assms(2)
    by (simp add: describe_element_def bind_err_def float_property)
  have fc: "describe_element ''face'' ?m'
      = Inr [''element face '' @ str_nat (length (nd_rows F)),
             ''property list uchar int vertex_indices'']"
    by (simp add: describe_element_def)
  have h: "ply_header native (Some ?p) (Some ?m) False =
      Inr ([''ply'', ''format binary_'' @ byteorder_name native @ ''_endian 1.0'',
            ''element vertex '' @ str_nat (length (nd_rows P)),
            ''property float x'', ''property float y'', ''property float z'',
            ''element face '' @ str_nat (length (nd_rows F)),
            ''property list uchar int vertex_indices'', ''end_header''],
           Some ?m')"
    by (simp add: ply_header_def v m bind_err_def fc)
  have tp: "tofile ?p = Inr (concat (map concat (nd_rows P)))"
    using assms(2) by (simp add: tofile_def)
  have tm: "tofile ?m' = Inr (concat (map (\<lambda>r. CHR 0x03 # concat r) (nd_rows F)))"
    using assms(5) by (simp add: tofile_def uint8_def comp_def)
  have dp: "DataFrame (Some P) [''x'', ''y'', ''z''] = Inr ?p"
    using assms(1) by (simp add: DataFrame_array)
  have dm: "DataFrame (Some F) [''v1'', ''v2'', ''v3''] = Inr ?m"
    using assms(3) by (simp add: DataFrame_array)
  show ?thesis
    by (simp add: write_ply_def dp dm h tp tm)
qed





lemma to_native_columns: "columns (to_native native ext t) = columns t"
  by (simp add: to_native_def byteswap_def)


lemma np_dtype_size: "np_dtype code = Inr d \<Longrightarrow> 0 < dt_size d"
  by (auto simp: np_dtype_def valid_size_def
           split: list.splits option.splits if_splits kind.splits)

lemma np_fields_sizes: "np_fields flds = Inr cds \<Longrightarrow> list_all (\<lambda>cd. 0 < dt_size (snd cd)) cds"
  by (induction flds arbitrary: cds)
     (auto simp: bind_err_def dest: np_dtype_size split: sum.splits)

lemma item_size_zero:
  assumes "np_struct flds = Inr cds" and "item_size cds = 0"
  shows "cds = []"
proof (cases cds)
  case Nil
  then show ?thesis .
next
  case (Cons cd rest)
  from assms(1) have "np_fields flds = Inr cds"
    by (auto simp: np_struct_def bind_err_def split: sum.splits if_splits)
  from np_fields_sizes [OF this] Cons have "0 < dt_size (snd cd)" by simp
  with assms(2) Cons show ?thesis by (simp add: item_size_def)
qed

lemma length_chop: "length (chop sizes b) = length sizes"
  by (induction sizes arbitrary: b) simp_all

lemma records_lengths: "list_all (\<lambda>r. length r = length sizes) (records n sizes b)"
  by (induction n arbitrary: b) (simp_all add: length_chop)

lemma np_fromfile_table:
  assumes "np_fromfile flds cnt ply = Inr (tbl, rest)"
  shows "np_struct flds = Inr (columns tbl)"
    and "list_all (\<lambda>r. length r = length (columns tbl)) (rows tbl)"
proof -
  from assms obtain cds c where s: "np_struct flds = Inr cds" and c: "cnt = Some c"
    by (auto simp: np_fromfile_def bind_err_def split: sum.splits option.splits)
  show "np_struct flds = Inr (columns tbl)"
    using assms s c by (auto simp: np_fromfile_def bind_err_def split: if_splits)
  show "list_all (\<lambda>r. length r = length (columns tbl)) (rows tbl)"
  proof (cases "item_size cds = 0")
    case True
    with s have "cds = []" by (rule item_size_zero)
    with assms s c True show ?thesis
      by (auto simp: np_fromfile_def bind_err_def list_all_iff split: if_splits)
  next
    case False
    with assms s c have "columns tbl = cds"
      and "rows tbl = records (n_read c (item_size cds) ply) (map (\<lambda>cd. dt_size (snd cd)) cds) ply"
      by (auto simp: np_fromfile_def bind_err_def split: if_splits)
    then show ?thesis
      using records_lengths [of "map (\<lambda>cd. dt_size (snd cd)) cds" "n_read c (item_size cds) ply" ply]
      by simp
  qed
qed

lemma to_native_rows:
  "list_all (\<lambda>r. length r = n) (rows t) \<Longrightarrow> list_all (\<lambda>r. length r = n) (rows (to_native native ext t))"
  by (simp add: to_native_def byteswap_def list_all_iff)

lemma filter_zip_length:
  "length r = length cs \<Longrightarrow>
     length (filter (\<lambda>cc. fst (fst cc) \<noteq> n) (zip cs r)) = length (filter (\<lambda>c. fst c \<noteq> n) cs)"
proof (induction cs arbitrary: r)
  case Nil
  then show ?case by simp
next
  case (Cons c cs)
  then obtain x xs where "r = x # xs" by (cases r) auto
  with Cons show ?case by simp
qed

lemma read_binary_mesh:
  assumes "read_binary native file p = Inr d" and "d_mesh d = Some t"
  shows "\<exists>pr mr m. mesh_size (p_header p) = Some m
      \<and> np_fromfile (dtypes (p_header p) ''vertex'') (points_size (p_header p))
            (drop (p_end_header p) file) = Inr pr
      \<and> np_fromfile (dtypes (p_header p) ''face'') (Some m) (snd pr) = Inr mr
      \<and> ''n_points'' \<in> set (map fst (columns (fst mr)))
      \<and> drop_column ''n_points'' (to_native native (p_ext p) (fst mr)) = Inr t"
proof -
  from assms obtain pr m mr where m: "mesh_size (p_header p) = Some m"
    and pr: "np_fromfile (dtypes (p_header p) ''vertex'') (points_size (p_header p))
            (drop (p_end_header p) file) = Inr pr"
    and mr: "np_fromfile (dtypes (p_header p) ''face'') (Some m) (snd pr) = Inr mr"
    and t: "drop_column ''n_points'' (DataFrame_records (to_native native (p_ext p) (fst mr))) = Inr t"
    by (auto simp: read_binary_def bind_err_def split: sum.splits option.splits)
  have ne: "columns (fst mr) \<noteq> []"
  proof
    assume "columns (fst mr) = []"
    then have "columns (DataFrame_records (to_native native (p_ext p) (fst mr))) = [(''0'', void0)]"
      by (simp add: DataFrame_records_def to_native_columns)
    with t show False by (simp add: drop_column_def)
  qed
  then have df: "DataFrame_records (to_native native (p_ext p) (fst mr)) = to_native native (p_ext p) (fst mr)"
    by (simp add: DataFrame_records_def to_native_columns)
  from t df have n: "''n_points'' \<in> set (map fst (columns (fst mr)))"
    by (auto simp: drop_column_def to_native_columns split: if_splits)
  from t df have "drop_column ''n_points'' (to_native native (p_ext p) (fst mr)) = Inr t" by simp
  with m pr mr n show ?thesis by blast
qed

lemma read_binary_mesh_table:
  assumes "read_binary native file p = Inr d" and "d_mesh d = Some t"
  shows "\<exists>cds. np_struct (dtypes (p_header p) ''face'') = Inr cds
           \<and> ''n_points'' \<in> set (map fst cds)
           \<and> columns t = filter (\<lambda>cd. fst cd \<noteq> ''n_points'') cds"
    and "list_all (\<lambda>r. length r = length (columns t)) (rows t)"
proof -
  from read_binary_mesh [OF assms] obtain pr mr m where a: "mesh_size (p_header p) = Some m
      \<and> np_fromfile (dtypes (p_header p) ''vertex'') (points_size (p_header p))
            (drop (p_end_header p) file) = Inr pr
      \<and> np_fromfile (dtypes (p_header p) ''face'') (Some m) (snd pr) = Inr mr
      \<and> ''n_points'' \<in> set (map fst (columns (fst mr)))
      \<and> drop_column ''n_points'' (to_native native (p_ext p) (fst mr)) = Inr t"
    by (elim exE)
  then have mr: "np_fromfile (dtypes (p_header p) ''face'') (Some m) (snd pr) = Inr mr"
    and n: "''n_points'' \<in> set (map fst (columns (fst mr)))"
    and t: "drop_column ''n_points'' (to_native native (p_ext p) (fst mr)) = Inr t"
    by simp_all
  from mr have mr': "np_fromfile (dtypes (p_header p) ''face'') (Some m) (snd pr) = Inr (fst mr, snd mr)"
    by simp
  note s = np_fromfile_table(1) [OF mr'] and l = np_fromfile_table(2) [OF mr']
  from t n have c: "columns t = filter (\<lambda>cd. fst cd \<noteq> ''n_points'') (columns (fst mr))"
    by (auto simp: drop_column_def to_native_columns split: if_splits)
  from s n c show "\<exists>cds. np_struct (dtypes (p_header p) ''face'') = Inr cds
           \<and> ''n_points'' \<in> set (map fst cds)
           \<and> columns t = filter (\<lambda>cd. fst cd \<noteq> ''n_points'') cds" by blast
  from t have r: "rows t = map (\<lambda>r. map snd (filter (\<lambda>cc. fst (fst cc) \<noteq> ''n_points'')
                                    (zip (columns (fst mr)) r)))
                         (rows (to_native native (p_ext p) (fst mr)))"
    by (auto simp: drop_column_def to_native_columns split: if_splits)
  from to_native_rows [OF l] have "\<forall>r \<in> set (rows (to_native native (p_ext p) (fst mr))).
      length r = length (columns (fst mr))" by (simp add: list_all_iff)
  then show "list_all (\<lambda>r. length r = length (columns t)) (rows t)"
    by (simp add: r c list_all_iff filter_zip_length)
qed







subsection \<open>uchar on the read path\<close>

lemma header_loop_invariant:
  assumes "\<And>h l h'. Q h \<Longrightarrow> header_body fmt ext h l = Inr h' \<Longrightarrow> Q h'"
  shows "Q h \<Longrightarrow> header_loop fmt ext h ply = Inr (h', rest) \<Longrightarrow> Q h'"
proof (induction "length ply" arbitrary: h ply rule: less_induct)
  case less
  show ?case
  proof (cases "loop_test (line h)")
    case False
    with less.prems show ?thesis by (simp add: header_loop_stop)
  next
    case True
    obtain l r where r: "readline ply = (l, r)" by (cases "readline ply")
    from less.prems(2) True r obtain h1 where b: "header_body fmt ext h l = Inr h1"
      and n: "header_loop fmt ext h1 r = Inr (h', rest)"
      by (auto simp: header_loop_turn [OF True r] split: sum.splits)
    from assms [OF less.prems(1) b] have q: "Q h1" .
    show ?thesis
    proof (cases ply)
      case Nil
      with r have "l = []" by simp
      with b have "line h1 = Bytes []" by (simp add: header_body_eof)
      then have "\<not> loop_test (line h1)" by simp
      with n have "h' = h1" by (simp add: header_loop_stop)
      with q show ?thesis by simp
    next
      case (Cons c cs)
      have "length (snd (readline ply)) \<le> length ply - 1" by (rule readline_shorter)
      with r Cons have "length r < length ply" by simp
      from less.hyps [OF this q n] show ?thesis .
    qed
  qed
qed

lemma header_body_grows:
  "header_body fmt ext h l = Inr h' \<Longrightarrow> set (dtypes h k) \<subseteq> set (dtypes h' k)"
  by (auto simp: header_body_def element_line_def property_line_def bind_err_def
                 append_dtype_def
           split: if_splits sum.splits)

lemma header_loop_grows:
  assumes "header_loop fmt ext h ply = Inr (h', rest)"
  shows "set (dtypes h k) \<subseteq> set (dtypes h' k)"
proof -
  have "set (dtypes h k) \<subseteq> set (dtypes h' k)"
  proof (rule header_loop_invariant [where Q = "\<lambda>g. set (dtypes h k) \<subseteq> set (dtypes g k)",
        OF _ _ assms])
    show "set (dtypes h k) \<subseteq> set (dtypes g' k)"
      if "set (dtypes h k) \<subseteq> set (dtypes g k)" and "header_body fmt ext g l = Inr g'" for g l g'
      using that header_body_grows [of fmt ext g l g' k] by blast
    show "set (dtypes h k) \<subseteq> set (dtypes h k)" by simp
  qed
  then show ?thesis .
qed

lemma property_line_fields:
  assumes "property_line fmt ext h ts = Inr h'" and "x \<in> set (dtypes h' k)"
  shows "x \<in> set (dtypes h k)
         \<or> (\<exists>t c. ply_dtypes t = Some c \<and> snd x = (if fmt = ''ascii'' then c else ext @ c))"
proof (cases "''list'' \<in> set ts")
  case True
  with assms(1) obtain nm t2 d0 t3 d1 where l: "ply_dtypes t2 = Some d0" "ply_dtypes t3 = Some d1"
    and h': "h' = foldl (\<lambda>h' x. append_dtype h' nm x) h
                 (if fmt = ''ascii''
                  then [(''n_points'', d0), (''v1'', d1), (''v2'', d1), (''v3'', d1)]
                  else [(''n_points'', ext @ d0), (''v1'', ext @ d1),
                        (''v2'', ext @ d1), (''v3'', ext @ d1)])"
    by (auto simp: property_line_def bind_err_def lookup_def split: sum.splits option.splits)
  from assms(2) h' have "x \<in> set (dtypes h k)
      \<or> snd x = (if fmt = ''ascii'' then d0 else ext @ d0)
      \<or> snd x = (if fmt = ''ascii'' then d1 else ext @ d1)"
    by (auto simp: dtypes_append_dtype split: if_splits)
  with l show ?thesis by blast
next
  case False
  with assms(1) obtain nm pn t1 c where l: "ply_dtypes t1 = Some c"
    and h': "h' = append_dtype h nm (pn, if fmt = ''ascii'' then c else ext @ c)"
    by (auto simp: property_line_def bind_err_def lookup_def split: sum.splits option.splits)
  from assms(2) h' have "x \<in> set (dtypes h k) \<or> snd x = (if fmt = ''ascii'' then c else ext @ c)"
    by (auto simp: dtypes_append_dtype split: if_splits)
  with l show ?thesis by blast
qed

lemma header_body_fields:
  assumes "header_body fmt ext h l = Inr h'" and "x \<in> set (dtypes h' k)"
  shows "x \<in> set (dtypes h k)
         \<or> (\<exists>t c. ply_dtypes t = Some c \<and> snd x = (if fmt = ''ascii'' then c else ext @ c))"
proof -
  consider (e) "bytes_in ''element'' l" | (p) "\<not> bytes_in ''element'' l" "bytes_in ''property'' l"
    | (n) "\<not> bytes_in ''element'' l" "\<not> bytes_in ''property'' l" by blast
  then show ?thesis
  proof cases
    case e
    with assms(1) obtain h1 where "element_line (h\<lparr>line := Tokens (split_ws l)\<rparr>) (split_ws l) = Inr h1"
      and "h' = h1\<lparr>count := count h1 + 1\<rparr>"
      by (auto simp: header_body_def bind_err_def split: sum.splits)
    then have "dtypes h' = dtypes h" by (auto dest: element_line_dtypes)
    with assms(2) show ?thesis by simp
  next
    case p
    with assms(1) obtain h1 where h1: "property_line fmt ext (h\<lparr>line := Tokens (split_ws l)\<rparr>) (split_ws l) = Inr h1"
      and "h' = h1\<lparr>count := count h1 + 1\<rparr>"
      by (auto simp: header_body_def bind_err_def split: sum.splits)
    with assms(2) have "x \<in> set (dtypes h1 k)" by simp
    from property_line_fields [OF h1 this] show ?thesis by simp
  next
    case n
    with assms show ?thesis by (auto simp: header_body_def bind_err_def)
  qed
qed

lemma header_loop_fields:
  assumes "header_loop fmt ext header_init ply = Inr (h', rest)" and "x \<in> set (dtypes h' k)"
  shows "\<exists>t c. ply_dtypes t = Some c \<and> snd x = (if fmt = ''ascii'' then c else ext @ c)"
proof -
  have "\<forall>k. \<forall>x \<in> set (dtypes h' k).
      \<exists>t c. ply_dtypes t = Some c \<and> snd x = (if fmt = ''ascii'' then c else ext @ c)"
  proof (rule header_loop_invariant [where Q = "\<lambda>g. \<forall>k. \<forall>x \<in> set (dtypes g k).
        \<exists>t c. ply_dtypes t = Some c \<and> snd x = (if fmt = ''ascii'' then c else ext @ c)",
        OF _ _ assms(1)])
    show "\<forall>k. \<forall>x \<in> set (dtypes g' k).
        \<exists>t c. ply_dtypes t = Some c \<and> snd x = (if fmt = ''ascii'' then c else ext @ c)"
      if "\<forall>k. \<forall>x \<in> set (dtypes g k).
        \<exists>t c. ply_dtypes t = Some c \<and> snd x = (if fmt = ''ascii'' then c else ext @ c)"
        and "header_body fmt ext g l = Inr g'" for g l g'
      using that header_body_fields [of fmt ext g l g'] by blast
    show "\<forall>k. \<forall>x \<in> set (dtypes header_init k).
        \<exists>t c. ply_dtypes t = Some c \<and> snd x = (if fmt = ''ascii'' then c else ext @ c)"
      by (simp add: header_init_def)
  qed
  with assms(2) show ?thesis by blast
qed

lemma read_header_parts:
  assumes "read_header file = Inr p"
  shows "\<exists>ply2 rest. read_format file = Inr (p_fmt p, p_ext p, ply2)
           \<and> header_loop (p_fmt p) (p_ext p) header_init ply2 = Inr (p_header p, rest)"
  using assms by (auto simp: read_header_def bind_err_def split: sum.splits)

lemma read_format_ext:
  assumes "read_format file = Inr (fmt, ext, ply2)"
  shows "fmt = ''ascii'' \<and> ext = [] \<or> fmt \<noteq> ''ascii'' \<and> (ext = ''<'' \<or> ext = ''>'')"
  using assms
  by (auto simp: read_format_def bind_err_def lookup_def valid_formats_def dict_def
           split: prod.splits if_splits sum.splits option.splits)

lemma read_header_fields:
  assumes "read_header file = Inr p" and "x \<in> set (dtypes (p_header p) k)"
  shows "\<exists>t c. ply_dtypes t = Some c \<and> snd x = (if p_fmt p = ''ascii'' then c else p_ext p @ c)"
proof -
  from read_header_parts [OF assms(1)] obtain ply2 rest where
    "header_loop (p_fmt p) (p_ext p) header_init ply2 = Inr (p_header p, rest)" by blast
  from header_loop_fields [OF this assms(2)] show ?thesis .
qed

lemma read_header_not_b1:
  assumes "read_header file = Inr p" and "x \<in> set (dtypes (p_header p) k)"
  shows "snd x \<noteq> ''b1'' \<and> snd x \<noteq> p_ext p @ ''b1''"
proof -
  from read_header_fields [OF assms] obtain t c where c: "ply_dtypes t = Some c"
    and x: "snd x = (if p_fmt p = ''ascii'' then c else p_ext p @ c)" by blast
  from c have "lookup ply_dtypes t = Inr c" by (simp add: lookup_def)
  from lookup_ply_dtypes_not_b1 [OF this, of "p_ext p"] have n: "c \<noteq> ''b1''"
    "p_ext p @ c \<noteq> ''b1''" by simp_all
  from read_header_parts [OF assms(1)] obtain ply2 where
    "read_format file = Inr (p_fmt p, p_ext p, ply2)" by blast
  from read_format_ext [OF this] have "p_fmt p = ''ascii'' \<longrightarrow> p_ext p = []" by auto
  with x n show ?thesis by auto
qed

lemma np_dtype_u1: "ext = ''<'' \<or> ext = ''>'' \<Longrightarrow> np_dtype (ext @ ''u1'') = Inr uint8"
proof -
  have "np_dtype ''<u1'' = Inr uint8" by code_simp
  moreover have "np_dtype ''>u1'' = Inr uint8" by code_simp
  moreover assume "ext = ''<'' \<or> ext = ''>''"
  ultimately show ?thesis by auto
qed

lemma np_dtype_not_bool:
  assumes "ply_dtypes t = Some c" and "ext = ''<'' \<or> ext = ''>''"
    and "np_dtype (ext @ c) = Inr dt"
  shows "dt_kind dt \<noteq> KBool"
proof -
  from assms(1) obtain k d where c: "c = [k, d]" and k: "k \<noteq> CHR ''b''"
    by (auto simp: ply_dtypes_unfold split: if_splits)
  from assms(2,3) c have "kind_of_char k = Some (dt_kind dt)"
    by (auto simp: np_dtype_def split: option.splits if_splits)
  with k show ?thesis by (auto simp: kind_of_char_def split: if_splits)
qed

lemma np_fields_member:
  assumes "np_fields flds = Inr cds"
  shows "(pn, code) \<in> set flds \<Longrightarrow> \<exists>dt. np_dtype code = Inr dt \<and> (pn, dt) \<in> set cds"
    and "(pn, dt) \<in> set cds \<Longrightarrow> \<exists>code. (pn, code) \<in> set flds \<and> np_dtype code = Inr dt"
  using assms
  by (induction flds arbitrary: cds; fastforce simp: bind_err_def split: sum.splits)+

lemma np_struct_fields: "np_struct flds = Inr cds \<Longrightarrow> np_fields flds = Inr cds"
  by (auto simp: np_struct_def bind_err_def split: sum.splits if_splits)

lemma read_binary_points:
  assumes "read_binary native file p = Inr d"
  shows "\<exists>pr. np_fromfile (dtypes (p_header p) ''vertex'') (points_size (p_header p))
                 (drop (p_end_header p) file) = Inr pr
           \<and> d_points d = DataFrame_records (to_native native (p_ext p) (fst pr))"
  using assms
  by (auto simp: read_binary_def bind_err_def split: sum.splits option.splits)

lemma read_binary_points_columns:
  assumes "read_binary native file p = Inr d"
  shows "\<exists>cds. np_struct (dtypes (p_header p) ''vertex'') = Inr cds
           \<and> columns (d_points d) = (if cds = [] then [(''0'', void0)] else cds)"
proof -
  from read_binary_points [OF assms] obtain pr where
    pr: "np_fromfile (dtypes (p_header p) ''vertex'') (points_size (p_header p))
                 (drop (p_end_header p) file) = Inr (fst pr, snd pr)"
    and d: "d_points d = DataFrame_records (to_native native (p_ext p) (fst pr))" by auto
  from np_fromfile_table(1) [OF pr] d show ?thesis
    by (auto simp: DataFrame_records_def to_native_columns)
qed

lemma turns_snoc:
  assumes "turns n fmt ext h0 ply0 = Some (h, ply)" and "loop_test (line h)"
    and "readline ply = (l, rest)" and "header_body fmt ext h l = Inr h1"
  shows "turns (Suc n) fmt ext h0 ply0 = Some (h1, rest)"
  using assms
proof (induction n arbitrary: h0 ply0)
  case 0
  then show ?case by simp
next
  case (Suc n)
  from Suc.prems(1) have t: "loop_test (line h0)" by (simp split: if_splits)
  obtain l0 r0 where r: "readline ply0 = (l0, r0)" by (cases "readline ply0")
  from Suc.prems(1) t r obtain g where b: "header_body fmt ext h0 l0 = Inr g"
    and n: "turns n fmt ext g r0 = Some (h, ply)"
    by (auto split: sum.splits)
  from Suc.IH [OF n Suc.prems(2,3,4)] have "turns (Suc n) fmt ext g r0 = Some (h1, rest)" .
  with t r b show ?case by (simp del: turns.simps(2) add: turns.simps(2) [of "Suc n"])
qed

lemma recorded_field:
  assumes "read_format file = Inr (fmt, ext, ply2)"
    and "turns n fmt ext header_init ply2 = Some (h, ply)"
    and "loop_test (line h)" and "readline ply = (l, rest)"
    and "header_body fmt ext h l = Inr h1" and "x \<in> set (dtypes h1 k)"
    and "read_header file = Inr p"
  shows "x \<in> set (dtypes (p_header p) k)"
proof -
  from assms(1,7) obtain r where "header_loop fmt ext header_init ply2 = Inr (p_header p, r)"
    by (auto simp: read_header_def bind_err_def split: sum.splits)
  with turns_loop [OF assms(2)] have "header_loop fmt ext h ply = Inr (p_header p, r)" by simp
  with assms(5) have "header_loop fmt ext h1 rest = Inr (p_header p, r)"
    by (simp add: header_loop_turn [OF assms(3,4)])
  from header_loop_grows [OF this, of k] assms(6) show ?thesis by blast
qed

lemma header_body_uchar_scalar:
  assumes "\<not> bytes_in ''element'' l" and "bytes_in ''property'' l"
    and "''list'' \<notin> set (split_ws l)" and "2 < length (split_ws l)"
    and "split_ws l ! 1 = ''uchar''" and "name h = Some nm" and "utf8 (split_ws l ! 2)"
  shows "header_body fmt ext h l =
     Inr ((append_dtype (h\<lparr>line := Tokens (split_ws l)\<rparr>) nm
             (split_ws l ! 2, if fmt = ''ascii'' then ''u1'' else ext @ ''u1''))
          \<lparr>count := count h + 1\<rparr>)"
  using assms
  by (simp add: header_body_def property_line_def bind_err_def get_name_def index_def
        decode_def lookup_def ply_dtypes_unfold append_dtype_def)

lemma header_body_list_property:
  assumes "\<not> bytes_in ''element'' l" and "bytes_in ''property'' l"
    and "''list'' \<in> set (split_ws l)" and "3 < length (split_ws l)"
    and "name h = Some nm"
    and "ply_dtypes (split_ws l ! 2) = Some d0" and "ply_dtypes (split_ws l ! 3) = Some d1"
  shows "header_body fmt ext h l =
     Inr ((foldl (\<lambda>h' x. append_dtype h' nm x) (h\<lparr>line := Tokens (split_ws l)\<rparr>)
             (if fmt = ''ascii''
              then [(''n_points'', d0), (''v1'', d1), (''v2'', d1), (''v3'', d1)]
              else [(''n_points'', ext @ d0), (''v1'', ext @ d1),
                    (''v2'', ext @ d1), (''v3'', ext @ d1)]))
          \<lparr>count := count h + 1\<rparr>)"
  using assms
  by (simp add: header_body_def property_line_def bind_err_def get_name_def index_def
        lookup_def append_dtype_def)


text \<open>
  C10, as the code has it.  In the type table \<open>uchar\<close> is looked up as \<open>u1\<close> and no key
  gives \<open>b1\<close>: the later pair for \<open>uchar\<close> replaced the earlier one.  When the header
  loop of read_ply, after some turns that did not raise, reads a line that contains
  \<open>property\<close> and not \<open>element\<close>, after an element line, then: a scalar property (no
  token of the line is \<open>list\<close>) of type
  \<open>uchar\<close> whose name is its third token and decodes is recorded for the current element
  under that name with the code \<open>u1\<close> (after the byte-order mark in a binary file); a
  list property whose count type is \<open>uchar\<close> gives the field \<open>n_points\<close> the code \<open>u1\<close>,
  and one whose index type is \<open>uchar\<close> gives \<open>v1\<close>, \<open>v2\<close> and \<open>v3\<close> the code \<open>u1\<close>; the
  field is there when the header stage returns.  No field the header stage returns has
  the code \<open>b1\<close>, bare or after the mark.  A binary read returns every \<open>u1\<close> field of
  the vertex element as a \<open>uint8\<close> column of the points table and every \<open>u1\<close> field of
  the face element other than \<open>n_points\<close> as a \<open>uint8\<close> column of the mesh table, and no
  column of either table is boolean.  An ASCII read casts the points columns with the
  codes of the header.
\<close>

theorem uchar_reads_as_u1:
  "ply_dtypes ''uchar'' = Some ''u1''
   \<and> ply_dtypes k \<noteq> Some ''b1''
   \<and> (read_format file = Inr (fmt, ext, ply2)
       \<and> turns n fmt ext header_init ply2 = Some (h, ply)
       \<and> loop_test (line h) \<and> readline ply = (l, rest)
       \<and> \<not> bytes_in ''element'' l \<and> bytes_in ''property'' l
       \<and> ''list'' \<notin> set (split_ws l) \<and> 2 < length (split_ws l)
       \<and> split_ws l ! 1 = ''uchar'' \<and> name h = Some nm \<and> utf8 (split_ws l ! 2)
       \<longrightarrow> (\<exists>h1. turns (Suc n) fmt ext header_init ply2 = Some (h1, rest)
              \<and> dtypes h1 nm = dtypes h nm
                  @ [(split_ws l ! 2, if fmt = ''ascii'' then ''u1'' else ext @ ''u1'')])
           \<and> (\<forall>p. read_header file = Inr p \<longrightarrow>
                (split_ws l ! 2, if fmt = ''ascii'' then ''u1'' else ext @ ''u1'')
                  \<in> set (dtypes (p_header p) nm)))
   \<and> (read_format file = Inr (fmt, ext, ply2)
       \<and> turns n fmt ext header_init ply2 = Some (h, ply)
       \<and> loop_test (line h) \<and> readline ply = (l, rest)
       \<and> \<not> bytes_in ''element'' l \<and> bytes_in ''property'' l
       \<and> ''list'' \<in> set (split_ws l) \<and> 3 < length (split_ws l) \<and> name h = Some nm
       \<and> ply_dtypes (split_ws l ! 2) = Some d0 \<and> ply_dtypes (split_ws l ! 3) = Some d1
       \<and> read_header file = Inr p
       \<longrightarrow> (split_ws l ! 2 = ''uchar'' \<longrightarrow>
              (''n_points'', if fmt = ''ascii'' then ''u1'' else ext @ ''u1'')
                \<in> set (dtypes (p_header p) nm))
           \<and> (split_ws l ! 3 = ''uchar'' \<longrightarrow>
              (''v1'', if fmt = ''ascii'' then ''u1'' else ext @ ''u1'') \<in> set (dtypes (p_header p) nm)
              \<and> (''v2'', if fmt = ''ascii'' then ''u1'' else ext @ ''u1'') \<in> set (dtypes (p_header p) nm)
              \<and> (''v3'', if fmt = ''ascii'' then ''u1'' else ext @ ''u1'') \<in> set (dtypes (p_header p) nm)))
   \<and> (read_header file = Inr p \<and> x \<in> set (dtypes (p_header p) el)
       \<longrightarrow> snd x \<noteq> ''b1'' \<and> snd x \<noteq> p_ext p @ ''b1'')
   \<and> (read_header file = Inr p \<and> p_fmt p \<noteq> ''ascii'' \<and> read_ply rc ast native file = Inr d
       \<longrightarrow> (\<forall>pn. (pn, p_ext p @ ''u1'') \<in> set (dtypes (p_header p) ''vertex'')
                \<longrightarrow> (pn, uint8) \<in> set (columns (d_points d)))
           \<and> (\<forall>pn t. d_mesh d = Some t \<and> pn \<noteq> ''n_points''
                  \<and> (pn, p_ext p @ ''u1'') \<in> set (dtypes (p_header p) ''face'')
                \<longrightarrow> (pn, uint8) \<in> set (columns t))
           \<and> (\<forall>cd \<in> set (columns (d_points d)). dt_kind (snd cd) \<noteq> KBool)
           \<and> (\<forall>t. d_mesh d = Some t \<longrightarrow> (\<forall>cd \<in> set (columns t). dt_kind (snd cd) \<noteq> KBool)))
   \<and> (read_header file = Inr p \<and> p_fmt p = ''ascii'' \<and> read_ply rc ast native file = Inr d
       \<longrightarrow> (\<exists>u. rc file \<lparr>skiprows = int (count (p_header p)),
                          skipfooter = (case mesh_size (p_header p) of None \<Rightarrow> 0 | Some m \<Rightarrow> m),
                          cols = ByName (map fst (dtypes (p_header p) ''vertex'')),
                          names = map fst (dtypes (p_header p) ''vertex'')\<rparr> = Inr u
                \<and> ast u (map snd (dtypes (p_header p) ''vertex'')) = Inr (d_points d)))"
proof (intro conjI impI)
  show "ply_dtypes ''uchar'' = Some ''u1''" by (simp add: ply_dtypes_unfold)
  show "ply_dtypes k \<noteq> Some ''b1''" by (rule ply_dtypes_not_b1)
next
  let ?f = "(split_ws l ! 2, if fmt = ''ascii'' then ''u1'' else ext @ ''u1'')"
  let ?h1 = "(append_dtype (h\<lparr>line := Tokens (split_ws l)\<rparr>) nm ?f)\<lparr>count := count h + 1\<rparr>"
  assume a: "read_format file = Inr (fmt, ext, ply2)
       \<and> turns n fmt ext header_init ply2 = Some (h, ply)
       \<and> loop_test (line h) \<and> readline ply = (l, rest)
       \<and> \<not> bytes_in ''element'' l \<and> bytes_in ''property'' l
       \<and> ''list'' \<notin> set (split_ws l) \<and> 2 < length (split_ws l)
       \<and> split_ws l ! 1 = ''uchar'' \<and> name h = Some nm \<and> utf8 (split_ws l ! 2)"
  then have b: "header_body fmt ext h l = Inr ?h1" by (intro header_body_uchar_scalar) simp_all
  from a have f: "read_format file = Inr (fmt, ext, ply2)"
    and t: "turns n fmt ext header_init ply2 = Some (h, ply)"
    and lt: "loop_test (line h)" and r: "readline ply = (l, rest)" by simp_all
  have d: "dtypes ?h1 nm = dtypes h nm @ [?f]" by (simp add: append_dtype_def)
  from turns_snoc [OF t lt r b] d
  show "\<exists>h1. turns (Suc n) fmt ext header_init ply2 = Some (h1, rest)
          \<and> dtypes h1 nm = dtypes h nm @ [?f]" by blast
  from d have m: "?f \<in> set (dtypes ?h1 nm)" by simp
  show "\<forall>p. read_header file = Inr p \<longrightarrow> ?f \<in> set (dtypes (p_header p) nm)"
    using recorded_field [OF f t lt r b m] by blast
next
  let ?u = "if fmt = ''ascii'' then ''u1'' else ext @ ''u1''"
  let ?fs = "if fmt = ''ascii''
              then [(''n_points'', d0), (''v1'', d1), (''v2'', d1), (''v3'', d1)]
              else [(''n_points'', ext @ d0), (''v1'', ext @ d1),
                    (''v2'', ext @ d1), (''v3'', ext @ d1)]"
  let ?h1 = "(foldl (\<lambda>h' x. append_dtype h' nm x) (h\<lparr>line := Tokens (split_ws l)\<rparr>) ?fs)
          \<lparr>count := count h + 1\<rparr>"
  assume a: "read_format file = Inr (fmt, ext, ply2)
       \<and> turns n fmt ext header_init ply2 = Some (h, ply)
       \<and> loop_test (line h) \<and> readline ply = (l, rest)
       \<and> \<not> bytes_in ''element'' l \<and> bytes_in ''property'' l
       \<and> ''list'' \<in> set (split_ws l) \<and> 3 < length (split_ws l) \<and> name h = Some nm
       \<and> ply_dtypes (split_ws l ! 2) = Some d0 \<and> ply_dtypes (split_ws l ! 3) = Some d1
       \<and> read_header file = Inr p"
  then have b: "header_body fmt ext h l = Inr ?h1" by (intro header_body_list_property) simp_all
  from a have f: "read_format file = Inr (fmt, ext, ply2)"
    and t: "turns n fmt ext header_init ply2 = Some (h, ply)"
    and lt: "loop_test (line h)" and r: "readline ply = (l, rest)"
    and p: "read_header file = Inr p"
    and d0: "ply_dtypes (split_ws l ! 2) = Some d0" and d1: "ply_dtypes (split_ws l ! 3) = Some d1"
    by simp_all
  have m: "set ?fs \<subseteq> set (dtypes ?h1 nm)" by (simp add: append_dtype_def)
  have g: "y \<in> set (dtypes (p_header p) nm)" if "y \<in> set ?fs" for y
    using recorded_field [OF f t lt r b _ p, of y nm] that m by blast
  show "(''n_points'', ?u) \<in> set (dtypes (p_header p) nm)" if "split_ws l ! 2 = ''uchar''"
  proof -
    from that d0 have "d0 = ''u1''" by (simp add: ply_dtypes_unfold)
    then have "(''n_points'', ?u) \<in> set ?fs" by simp
    then show ?thesis by (rule g)
  qed
  assume i: "split_ws l ! 3 = ''uchar''"
  with d1 have e: "d1 = ''u1''" by (simp add: ply_dtypes_unfold)
  from e have "(''v1'', ?u) \<in> set ?fs" by simp
  then show "(''v1'', ?u) \<in> set (dtypes (p_header p) nm)" by (rule g)
  from e have "(''v2'', ?u) \<in> set ?fs" by simp
  then show "(''v2'', ?u) \<in> set (dtypes (p_header p) nm)" by (rule g)
  from e have "(''v3'', ?u) \<in> set ?fs" by simp
  then show "(''v3'', ?u) \<in> set (dtypes (p_header p) nm)" by (rule g)
next
  assume a: "read_header file = Inr p \<and> x \<in> set (dtypes (p_header p) el)"
  then have "snd x \<noteq> ''b1'' \<and> snd x \<noteq> p_ext p @ ''b1''"
    using read_header_not_b1 [of "file" p x el] by simp
  then show "snd x \<noteq> ''b1''" and "snd x \<noteq> p_ext p @ ''b1''" by simp_all
next
  assume a: "read_header file = Inr p \<and> p_fmt p \<noteq> ''ascii'' \<and> read_ply rc ast native file = Inr d"
  then have p: "read_header file = Inr p" and na: "p_fmt p \<noteq> ''ascii''"
    and b: "read_binary native file p = Inr d"
    by (auto simp: read_ply_def bind_err_def)
  from read_header_parts [OF p] obtain ply2 where "read_format file = Inr (p_fmt p, p_ext p, ply2)"
    by blast
  from read_format_ext [OF this] na have ext: "p_ext p = ''<'' \<or> p_ext p = ''>''" by simp
  from read_binary_points_columns [OF b] obtain vs where
    vs: "np_struct (dtypes (p_header p) ''vertex'') = Inr vs"
    and vc: "columns (d_points d) = (if vs = [] then [(''0'', void0)] else vs)" by blast
  note vf = np_struct_fields [OF vs]
  show "\<forall>pn. (pn, p_ext p @ ''u1'') \<in> set (dtypes (p_header p) ''vertex'')
          \<longrightarrow> (pn, uint8) \<in> set (columns (d_points d))"
  proof (intro allI impI)
    fix pn
    assume "(pn, p_ext p @ ''u1'') \<in> set (dtypes (p_header p) ''vertex'')"
    from np_fields_member(1) [OF vf this] np_dtype_u1 [OF ext]
    have "(pn, uint8) \<in> set vs" by auto
    with vc show "(pn, uint8) \<in> set (columns (d_points d))" by auto
  qed
  show "\<forall>pn t. d_mesh d = Some t \<and> pn \<noteq> ''n_points''
          \<and> (pn, p_ext p @ ''u1'') \<in> set (dtypes (p_header p) ''face'')
        \<longrightarrow> (pn, uint8) \<in> set (columns t)"
  proof (intro allI impI)
    fix pn t
    assume c: "d_mesh d = Some t \<and> pn \<noteq> ''n_points''
          \<and> (pn, p_ext p @ ''u1'') \<in> set (dtypes (p_header p) ''face'')"
    then have t: "d_mesh d = Some t" by simp
    from read_binary_mesh_table(1) [OF b t] obtain fs where
      fs: "np_struct (dtypes (p_header p) ''face'') = Inr fs"
      and fc: "columns t = filter (\<lambda>cd. fst cd \<noteq> ''n_points'') fs" by blast
    from c have "(pn, p_ext p @ ''u1'') \<in> set (dtypes (p_header p) ''face'')" by simp
    from np_fields_member(1) [OF np_struct_fields [OF fs] this] np_dtype_u1 [OF ext]
    have "(pn, uint8) \<in> set fs" by auto
    with c fc show "(pn, uint8) \<in> set (columns t)" by simp
  qed
  have nb: "dt_kind (snd cd) \<noteq> KBool"
    if "np_struct (dtypes (p_header p) el) = Inr cs" and "cd \<in> set cs" for el cs cd
  proof -
    from that(2) have "(fst cd, snd cd) \<in> set cs" by simp
    from np_fields_member(2) [OF np_struct_fields [OF that(1)] this] obtain code where
      m: "(fst cd, code) \<in> set (dtypes (p_header p) el)" and c: "np_dtype code = Inr (snd cd)"
      by blast
    from read_header_fields [OF p m] na obtain tk c0 where "ply_dtypes tk = Some c0"
      "code = p_ext p @ c0" by auto
    with c np_dtype_not_bool [OF _ ext, of tk c0 "snd cd"] show ?thesis by simp
  qed
  show "\<forall>cd \<in> set (columns (d_points d)). dt_kind (snd cd) \<noteq> KBool"
    using vc nb [OF vs] by (auto simp: void0_def)
  show "\<forall>t. d_mesh d = Some t \<longrightarrow> (\<forall>cd \<in> set (columns t). dt_kind (snd cd) \<noteq> KBool)"
  proof (intro allI impI ballI)
    fix t cd
    assume t: "d_mesh d = Some t" and cd: "cd \<in> set (columns t)"
    from read_binary_mesh_table(1) [OF b t] obtain fs where
      fs: "np_struct (dtypes (p_header p) ''face'') = Inr fs"
      and fc: "columns t = filter (\<lambda>cd. fst cd \<noteq> ''n_points'') fs" by blast
    from cd fc have "cd \<in> set fs" by simp
    from nb [OF fs this] show "dt_kind (snd cd) \<noteq> KBool" .
  qed
next
  assume a: "read_header file = Inr p \<and> p_fmt p = ''ascii'' \<and> read_ply rc ast native file = Inr d"
  then have "read_ascii rc ast file p = Inr d" by (auto simp: read_ply_def bind_err_def)
  then show "\<exists>u. rc file \<lparr>skiprows = int (count (p_header p)),
                          skipfooter = (case mesh_size (p_header p) of None \<Rightarrow> 0 | Some m \<Rightarrow> m),
                          cols = ByName (map fst (dtypes (p_header p) ''vertex'')),
                          names = map fst (dtypes (p_header p) ''vertex'')\<rparr> = Inr u
                \<and> ast u (map snd (dtypes (p_header p) ''vertex'')) = Inr (d_points d)"
    by (auto simp: read_ascii_def bind_err_def split: sum.splits option.splits)
qed


theorem uchar_reads_as_u1_witness:
  "ply_dtypes ''uchar'' = Some ''u1''
   \<and> read_format uchar_sample =
       Inr (''binary_little_endian'', ''<'',
            ''element vertex 1\<newline>property uchar red\<newline>element face 1\<newline>property list uchar uchar vertex_indices\<newline>end_header\<newline>''
            @ [CHR 0xFF, CHR 0x03, CHR 0x00, CHR 0x01, CHR 0x02])
   \<and> (\<exists>p. read_header uchar_sample = Inr p
         \<and> (''red'', ''<u1'') \<in> set (dtypes (p_header p) ''vertex'')
         \<and> (''n_points'', ''<u1'') \<in> set (dtypes (p_header p) ''face'')
         \<and> (''v1'', ''<u1'') \<in> set (dtypes (p_header p) ''face'')
         \<and> (''v2'', ''<u1'') \<in> set (dtypes (p_header p) ''face'')
         \<and> (''v3'', ''<u1'') \<in> set (dtypes (p_header p) ''face'')
         \<and> ''<u1'' \<noteq> ''b1'' \<and> ''<u1'' \<noteq> p_ext p @ ''b1'')
   \<and> (\<exists>d t. read_ply no_csv no_astype Little uchar_sample = Inr d \<and> d_mesh d = Some t
         \<and> (''red'', uint8) \<in> set (columns (d_points d))
         \<and> (''v1'', uint8) \<in> set (columns t))
   \<and> read_ply no_csv no_astype Little uchar_sample
       = Inr \<lparr>d_points = \<lparr>columns = [(''red'', uint8)], rows = [[[CHR 0xFF]]]\<rparr>,
              d_mesh = Some \<lparr>columns = [(''v1'', uint8), (''v2'', uint8), (''v3'', uint8)],
                              rows = [[[CHR 0x00], [CHR 0x01], [CHR 0x02]]]\<rparr>\<rparr>
   \<and> (\<exists>p d u. read_header ascii_sample = Inr p
         \<and> read_ply csv_names_only astype_id Little ascii_sample = Inr d
         \<and> csv_names_only ascii_sample
              \<lparr>skiprows = int (count (p_header p)),
               skipfooter = (case mesh_size (p_header p) of None \<Rightarrow> 0 | Some m \<Rightarrow> m),
               cols = ByName (map fst (dtypes (p_header p) ''vertex'')),
               names = map fst (dtypes (p_header p) ''vertex'')\<rparr> = Inr u
         \<and> astype_id u (map snd (dtypes (p_header p) ''vertex'')) = Inr (d_points d))"
proof -
  let ?pay = "[CHR 0xFF, CHR 0x03, CHR 0x00, CHR 0x01, CHR 0x02]"
  let ?p2 = "''element vertex 1\<newline>property uchar red\<newline>element face 1\<newline>property list uchar uchar vertex_indices\<newline>end_header\<newline>'' @ ?pay"
  let ?q1 = "''property uchar red\<newline>element face 1\<newline>property list uchar uchar vertex_indices\<newline>end_header\<newline>'' @ ?pay"
  let ?l1 = "''property uchar red\<newline>''"
  let ?r1 = "''element face 1\<newline>property list uchar uchar vertex_indices\<newline>end_header\<newline>'' @ ?pay"
  let ?q3 = "''property list uchar uchar vertex_indices\<newline>end_header\<newline>'' @ ?pay"
  let ?l3 = "''property list uchar uchar vertex_indices\<newline>''"
  let ?r3 = "''end_header\<newline>'' @ ?pay"
  let ?fmt = "''binary_little_endian''"
  note T = uchar_reads_as_u1
  have c1: "ply_dtypes ''uchar'' = Some ''u1''" by (rule T [THEN conjunct1])
  have f: "read_format uchar_sample = Inr (?fmt, ''<'', ?p2)" by code_simp
  have "map_sum id (\<lambda>p. p_fmt p) (read_header uchar_sample) = Inr ?fmt" by code_simp
  then obtain p where p: "read_header uchar_sample = Inr p" and pf: "p_fmt p = ?fmt"
    by (cases "read_header uchar_sample") auto
  from p f have pe: "p_ext p = ''<''" by (auto simp: read_header_def bind_err_def split: sum.splits)
  \<comment> \<open>the scalar property\<close>
  have "map_option (\<lambda>r. (loop_test (line (fst r)), name (fst r), snd r))
          (turns 1 ?fmt ''<'' header_init ?p2) = Some (True, Some ''vertex'', ?q1)"
    by code_simp
  then obtain h where h: "turns 1 ?fmt ''<'' header_init ?p2 = Some (h, ?q1)"
    and lt: "loop_test (line h)" and nm: "name h = Some ''vertex''"
    by auto
  have r: "readline ?q1 = (?l1, ?r1)" by code_simp
  have b: "\<not> bytes_in ''element'' ?l1 \<and> bytes_in ''property'' ?l1" by code_simp
  have s: "split_ws ?l1 = [''property'', ''uchar'', ''red'']" by code_simp
  have u: "utf8 ''red''" by code_simp
  from f h lt r b s u nm have a: "read_format uchar_sample = Inr (?fmt, ''<'', ?p2)
       \<and> turns 1 ?fmt ''<'' header_init ?p2 = Some (h, ?q1)
       \<and> loop_test (line h) \<and> readline ?q1 = (?l1, ?r1)
       \<and> \<not> bytes_in ''element'' ?l1 \<and> bytes_in ''property'' ?l1
       \<and> ''list'' \<notin> set (split_ws ?l1) \<and> 2 < length (split_ws ?l1)
       \<and> split_ws ?l1 ! 1 = ''uchar'' \<and> name h = Some ''vertex'' \<and> utf8 (split_ws ?l1 ! 2)"
    by simp
  from T [of _ uchar_sample ?fmt "''<''" ?p2 1 h ?q1 ?l1 ?r1 "''vertex''",
      THEN conjunct2, THEN conjunct2, THEN conjunct1, rule_format, OF a, THEN conjunct2,
      rule_format, OF p]
  have red: "(''red'', ''<u1'') \<in> set (dtypes (p_header p) ''vertex'')" by (simp add: s)
  \<comment> \<open>the list property\<close>
  have "map_option (\<lambda>r. (loop_test (line (fst r)), name (fst r), snd r))
          (turns 3 ?fmt ''<'' header_init ?p2) = Some (True, Some ''face'', ?q3)"
    by code_simp
  then obtain g where g: "turns 3 ?fmt ''<'' header_init ?p2 = Some (g, ?q3)"
    and lg: "loop_test (line g)" and ng: "name g = Some ''face''"
    by auto
  have r3: "readline ?q3 = (?l3, ?r3)" by code_simp
  have b3: "\<not> bytes_in ''element'' ?l3 \<and> bytes_in ''property'' ?l3" by code_simp
  have s3: "split_ws ?l3 = [''property'', ''list'', ''uchar'', ''uchar'', ''vertex_indices'']"
    by code_simp
  from f g lg r3 b3 s3 ng p c1 have a3: "read_format uchar_sample = Inr (?fmt, ''<'', ?p2)
       \<and> turns 3 ?fmt ''<'' header_init ?p2 = Some (g, ?q3)
       \<and> loop_test (line g) \<and> readline ?q3 = (?l3, ?r3)
       \<and> \<not> bytes_in ''element'' ?l3 \<and> bytes_in ''property'' ?l3
       \<and> ''list'' \<in> set (split_ws ?l3) \<and> 3 < length (split_ws ?l3) \<and> name g = Some ''face''
       \<and> ply_dtypes (split_ws ?l3 ! 2) = Some ''u1'' \<and> ply_dtypes (split_ws ?l3 ! 3) = Some ''u1''
       \<and> read_header uchar_sample = Inr p"
    by simp
  from T [of _ uchar_sample ?fmt "''<''" ?p2 3 g ?q3 ?l3 ?r3 "''face''" "''u1''" "''u1''" p,
      THEN conjunct2, THEN conjunct2, THEN conjunct2, THEN conjunct1, rule_format, OF a3]
  have lst: "(''n_points'', ''<u1'') \<in> set (dtypes (p_header p) ''face'')
      \<and> (''v1'', ''<u1'') \<in> set (dtypes (p_header p) ''face'')
      \<and> (''v2'', ''<u1'') \<in> set (dtypes (p_header p) ''face'')
      \<and> (''v3'', ''<u1'') \<in> set (dtypes (p_header p) ''face'')"
    by (simp add: s3)
  \<comment> \<open>never b1\<close>
  from p red have "read_header uchar_sample = Inr p
      \<and> (''red'', ''<u1'') \<in> set (dtypes (p_header p) ''vertex'')" by simp
  from T [of _ uchar_sample _ _ _ _ _ _ _ _ _ _ _ p "(''red'', ''<u1'')" "''vertex''",
      THEN conjunct2, THEN conjunct2, THEN conjunct2, THEN conjunct2, THEN conjunct1,
      rule_format, OF this]
  have nb: "''<u1'' \<noteq> ''b1'' \<and> ''<u1'' \<noteq> p_ext p @ ''b1''" by simp
  have c3: "\<exists>p. read_header uchar_sample = Inr p
         \<and> (''red'', ''<u1'') \<in> set (dtypes (p_header p) ''vertex'')
         \<and> (''n_points'', ''<u1'') \<in> set (dtypes (p_header p) ''face'')
         \<and> (''v1'', ''<u1'') \<in> set (dtypes (p_header p) ''face'')
         \<and> (''v2'', ''<u1'') \<in> set (dtypes (p_header p) ''face'')
         \<and> (''v3'', ''<u1'') \<in> set (dtypes (p_header p) ''face'')
         \<and> ''<u1'' \<noteq> ''b1'' \<and> ''<u1'' \<noteq> p_ext p @ ''b1''"
    using p red lst nb by (intro exI [of _ p]) simp
  \<comment> \<open>the binary read\<close>
  have e: "read_ply no_csv no_astype Little uchar_sample
       = Inr \<lparr>d_points = \<lparr>columns = [(''red'', uint8)], rows = [[[CHR 0xFF]]]\<rparr>,
              d_mesh = Some \<lparr>columns = [(''v1'', uint8), (''v2'', uint8), (''v3'', uint8)],
                              rows = [[[CHR 0x00], [CHR 0x01], [CHR 0x02]]]\<rparr>\<rparr>"
    by code_simp
  then obtain d t where d: "read_ply no_csv no_astype Little uchar_sample = Inr d"
    and t: "d_mesh d = Some t" by simp
  from p pf d have "read_header uchar_sample = Inr p \<and> p_fmt p \<noteq> ''ascii''
      \<and> read_ply no_csv no_astype Little uchar_sample = Inr d" by simp
  note B = T [of _ uchar_sample _ _ _ _ _ _ _ _ _ _ _ p _ _ no_csv no_astype Little d,
      THEN conjunct2, THEN conjunct2, THEN conjunct2, THEN conjunct2, THEN conjunct2,
      THEN conjunct1, rule_format, OF this]
  from B red pe have k1: "(''red'', uint8) \<in> set (columns (d_points d))" by simp
  from B t lst pe have k2: "(''v1'', uint8) \<in> set (columns t)" by simp
  have c4: "\<exists>d t. read_ply no_csv no_astype Little uchar_sample = Inr d \<and> d_mesh d = Some t
         \<and> (''red'', uint8) \<in> set (columns (d_points d))
         \<and> (''v1'', uint8) \<in> set (columns t)"
    by (rule exI [of _ d], rule exI [of _ t]) (intro conjI d t k1 k2)
  \<comment> \<open>the ASCII read\<close>
  have "map_sum id (\<lambda>p. p_fmt p) (read_header ascii_sample) = Inr ''ascii''" by code_simp
  then obtain q where q: "read_header ascii_sample = Inr q" and qf: "p_fmt q = ''ascii''"
    by (cases "read_header ascii_sample") auto
  have "map_sum id (\<lambda>d. ()) (read_ply csv_names_only astype_id Little ascii_sample) = Inr ()"
    by code_simp
  then obtain da where da: "read_ply csv_names_only astype_id Little ascii_sample = Inr da"
    by (cases "read_ply csv_names_only astype_id Little ascii_sample") auto
  from q qf da have "read_header ascii_sample = Inr q \<and> p_fmt q = ''ascii''
      \<and> read_ply csv_names_only astype_id Little ascii_sample = Inr da" by simp
  from T [of _ ascii_sample _ _ _ _ _ _ _ _ _ _ _ q _ _ csv_names_only astype_id Little da,
      THEN conjunct2, THEN conjunct2, THEN conjunct2, THEN conjunct2, THEN conjunct2,
      THEN conjunct2, rule_format, OF this]
  obtain ua where ua: "csv_names_only ascii_sample
              \<lparr>skiprows = int (count (p_header q)),
               skipfooter = (case mesh_size (p_header q) of None \<Rightarrow> 0 | Some m \<Rightarrow> m),
               cols = ByName (map fst (dtypes (p_header q) ''vertex'')),
               names = map fst (dtypes (p_header q) ''vertex'')\<rparr> = Inr ua
         \<and> astype_id ua (map snd (dtypes (p_header q) ''vertex'')) = Inr (d_points da)"
    by (elim exE)
  have c6: "\<exists>p d u. read_header ascii_sample = Inr p
         \<and> read_ply csv_names_only astype_id Little ascii_sample = Inr d
         \<and> csv_names_only ascii_sample
              \<lparr>skiprows = int (count (p_header p)),
               skipfooter = (case mesh_size (p_header p) of None \<Rightarrow> 0 | Some m \<Rightarrow> m),
               cols = ByName (map fst (dtypes (p_header p) ''vertex'')),
               names = map fst (dtypes (p_header p) ''vertex'')\<rparr> = Inr u
         \<and> astype_id u (map snd (dtypes (p_header p) ''vertex'')) = Inr (d_points d)"
    by (rule exI [of _ q], rule exI [of _ da], rule exI [of _ ua]) (intro conjI q da ua [THEN conjunct1] ua [THEN conjunct2])
  from c1 f c3 c4 e c6 show ?thesis by (intro conjI)
qed

text \<open>
  C10, as stated, fails: not every property declared with the type \<open>uchar\<close> is parsed.
  The line \<open>property uchar element_id\<close> contains \<open>element\<close> and is taken for an element
  declaration, where \<open>int(b"element_id")\<close> raises \<open>ValueError\<close>; a \<open>uchar\<close> property
  before any element line raises \<open>UnboundLocalError\<close>, one without a name \<open>IndexError\<close>,
  one whose name is not UTF-8 \<open>UnicodeDecodeError\<close>, and one named \<open>list\<close> is taken for a
  list property, whose count type \<open>list\<close> is not in the table (\<open>KeyError\<close>).
\<close>

theorem uchar_property_not_parsed:
  "read_ply no_csv no_astype Little element_id_sample = Inl ValueError
   \<and> read_ply no_csv no_astype Little
        ''ply\<newline>format ascii 1.0\<newline>property uchar red\<newline>end_header\<newline>''
       = Inl UnboundLocalError
   \<and> read_ply no_csv no_astype Little
        ''ply\<newline>format ascii 1.0\<newline>element vertex 1\<newline>property uchar\<newline>end_header\<newline>''
       = Inl IndexError
   \<and> read_ply no_csv no_astype Little
        (''ply\<newline>format ascii 1.0\<newline>element vertex 1\<newline>property uchar '' @ [CHR 0xFF]
         @ ''\<newline>end_header\<newline>'')
       = Inl UnicodeDecodeError
   \<and> read_ply no_csv no_astype Little
        ''ply\<newline>format ascii 1.0\<newline>element vertex 1\<newline>property uchar list\<newline>end_header\<newline>''
       = Inl (KeyError ''list'')"
  by code_simp


section \<open>The binary round trip for 4-byte cells\<close>

lemma digit_val_char: "d < 10 \<Longrightarrow> digit_val (digit_char d) = d"
  by (simp add: digit_val_def digit_char_def)

lemma is_digit_char: "d < 10 \<Longrightarrow> is_digit (digit_char d)"
  by (simp add: is_digit_def digit_char_def)

lemma str_nat_digits: "list_all is_digit (str_nat n) \<and> str_nat n \<noteq> []"
proof (induction n rule: str_nat.induct)
  case (1 n)
  show ?case
  proof (cases "n < 10")
    case True
    then show ?thesis by (simp add: str_nat.simps [of n] is_digit_char)
  next
    case False
    with 1 show ?thesis by (simp add: str_nat.simps [of n] is_digit_char)
  qed
qed

lemma int_digits_all:
  "list_all is_digit ds \<Longrightarrow> ds \<noteq> [] \<or> prev \<Longrightarrow>
     int_digits prev acc ds = Some (foldl (\<lambda>a c. 10 * a + digit_val c) acc ds)"
  by (induction ds arbitrary: prev acc) auto

lemma str_nat_value: "foldl (\<lambda>a c. 10 * a + digit_val c) 0 (str_nat n) = n"
proof (induction n rule: str_nat.induct)
  case (1 n)
  show ?case
  proof (cases "n < 10")
    case True
    then show ?thesis by (simp add: str_nat.simps [of n] digit_val_char)
  next
    case False
    with 1 show ?thesis by (simp add: str_nat.simps [of n] digit_val_char)
  qed
qed

lemma str_nat_no_sign: "hd (str_nat n) \<noteq> CHR ''-'' \<and> hd (str_nat n) \<noteq> CHR ''+''"
proof -
  from str_nat_digits [of n] obtain c cs where s: "str_nat n = c # cs" and "is_digit c"
    by (cases "str_nat n") auto
  then have "c \<noteq> CHR ''-'' \<and> c \<noteq> CHR ''+''" by (auto simp: is_digit_def)
  with s show ?thesis by simp
qed

lemma py_int_str_nat: "py_int (str_nat n) = Inr (int n)"
proof -
  from str_nat_digits [of n] obtain c cs where s: "str_nat n = c # cs"
    by (cases "str_nat n") auto
  from str_nat_no_sign [of n] s have "c \<noteq> CHR ''-''" "c \<noteq> CHR ''+''" by simp_all
  moreover have "int_digits False 0 (str_nat n) = Some n"
    using int_digits_all [of "str_nat n" False 0] str_nat_digits [of n] str_nat_value [of n] by simp
  ultimately show ?thesis using s by (simp add: py_int_def)
qed

lemma digit_not_space: "is_digit c \<Longrightarrow> \<not> is_space c \<and> c \<noteq> CHR ''\<newline>''"
  by (auto simp: is_digit_def is_space_def)

lemma split_from_word:
  "list_all (\<lambda>c. \<not> is_space c) w \<Longrightarrow> is_space s \<Longrightarrow>
     split_from tok (w @ s # rest) = (if tok @ w = [] then split_from [] rest else (tok @ w) # split_from [] rest)"
  by (induction w arbitrary: tok) auto

lemma readline_line:
  "CHR ''\<newline>'' \<notin> set l \<Longrightarrow> readline (l @ CHR ''\<newline>'' # rest) = (l @ ''\<newline>'', rest)"
  by (induction l) auto

lemma bytes_in_prefix: "bytes_in n (n @ rest)"
  by (simp add: bytes_in_sublist)

lemma read_format_binary:
  "read_format (''ply\<newline>'' @ ''format binary_'' @ byteorder_name native @ ''_endian 1.0\<newline>'' @ rest)
     = Inr (''binary_'' @ byteorder_name native @ ''_endian'', sys_byteorder native, rest)"
proof (cases native)
  case Little
  have "decode ''binary_little_endian'' = Inr ''binary_little_endian''" by code_simp
  with Little show ?thesis
    by (simp add: read_format_def byteorder_name_def sys_byteorder_def split_ws_def is_space_def
          index_def bind_err_def lookup_def valid_formats_def dict_def)
next
  case Big
  have "decode ''binary_big_endian'' = Inr ''binary_big_endian''" by code_simp
  with Big show ?thesis
    by (simp add: read_format_def byteorder_name_def sys_byteorder_def split_ws_def is_space_def
          index_def bind_err_def lookup_def valid_formats_def dict_def)
qed

lemma split_number_line: "split_from [] (str_nat n @ ''\<newline>'') = [str_nat n]"
proof -
  have w: "list_all (\<lambda>c. \<not> is_space c) (str_nat n)"
    using str_nat_digits [of n] digit_not_space by (auto simp: list_all_iff)
  have "is_space (CHR ''\<newline>'')" by (simp add: is_space_def)
  from split_from_word [OF w this, of "[]" "[]"] str_nat_digits [of n] show ?thesis by simp
qed

lemma element_tokens:
  "split_ws (''element vertex '' @ str_nat n @ ''\<newline>'') = [''element'', ''vertex'', str_nat n]"
  "split_ws (''element face '' @ str_nat n @ ''\<newline>'') = [''element'', ''face'', str_nat n]"
  using split_number_line [of n] by (simp_all add: split_ws_def is_space_def)

lemma number_line_no_newline: "CHR ''\<newline>'' \<notin> set (str_nat n)"
  using str_nat_digits [of n] digit_not_space by (auto simp: list_all_iff)

lemma header_body_element_vertex:
  "header_body fmt ext h (''element vertex '' @ str_nat n @ ''\<newline>'')
     = Inr (h\<lparr>line := Tokens [''element'', ''vertex'', str_nat n],
              points_size := Some (int n), name := Some ''vertex'', count := count h + 1\<rparr>)"
proof -
  have d: "decode ''vertex'' = Inr ''vertex''" by code_simp
  have b: "bytes_in ''element'' (''element vertex '' @ str_nat n @ ''\<newline>'')"
    using bytes_in_prefix [of "''element''" "'' vertex '' @ str_nat n @ ''\<newline>''"] by simp
  show ?thesis
    by (simp only: header_body_def b if_True element_tokens element_line_def)
       (simp add: index_def bind_err_def d py_int_str_nat)
qed

lemma header_body_element_face:
  "header_body fmt ext h (''element face '' @ str_nat n @ ''\<newline>'')
     = Inr (h\<lparr>line := Tokens [''element'', ''face'', str_nat n],
              mesh_size := Some (int n), name := Some ''face'', count := count h + 1\<rparr>)"
proof -
  have d: "decode ''face'' = Inr ''face''" by code_simp
  have b: "bytes_in ''element'' (''element face '' @ str_nat n @ ''\<newline>'')"
    using bytes_in_prefix [of "''element''" "'' face '' @ str_nat n @ ''\<newline>''"] by simp
  show ?thesis
    by (simp only: header_body_def b if_True element_tokens element_line_def)
       (simp add: index_def bind_err_def d py_int_str_nat)
qed

lemma header_body_float:
  assumes "name h = Some nm" and "fmt \<noteq> ''ascii''"
  shows "header_body fmt ext h ''property float x\<newline>''
       = Inr ((append_dtype (h\<lparr>line := Tokens [''property'', ''float'', ''x'']\<rparr>) nm (''x'', ext @ ''f4''))
                \<lparr>count := count h + 1\<rparr>)"
    and "header_body fmt ext h ''property float y\<newline>''
       = Inr ((append_dtype (h\<lparr>line := Tokens [''property'', ''float'', ''y'']\<rparr>) nm (''y'', ext @ ''f4''))
                \<lparr>count := count h + 1\<rparr>)"
    and "header_body fmt ext h ''property float z\<newline>''
       = Inr ((append_dtype (h\<lparr>line := Tokens [''property'', ''float'', ''z'']\<rparr>) nm (''z'', ext @ ''f4''))
                \<lparr>count := count h + 1\<rparr>)"
  using assms
  by (simp_all add: header_body_def bind_err_def get_name_def decode_def split_ws_def is_space_def
        property_line_def index_def lookup_def ply_dtypes_unfold append_dtype_def)

lemma header_body_list:
  assumes "name h = Some nm" and "fmt \<noteq> ''ascii''"
  shows "header_body fmt ext h ''property list uchar int vertex_indices\<newline>''
       = Inr ((foldl (\<lambda>h' x. append_dtype h' nm x)
                 (h\<lparr>line := Tokens [''property'', ''list'', ''uchar'', ''int'', ''vertex_indices'']\<rparr>)
                 [(''n_points'', ext @ ''u1''), (''v1'', ext @ ''i4''), (''v2'', ext @ ''i4''),
                  (''v3'', ext @ ''i4'')])
                \<lparr>count := count h + 1\<rparr>)"
  using assms
  by (simp add: header_body_def bind_err_def get_name_def split_ws_def is_space_def
        property_line_def index_def lookup_def ply_dtypes_unfold append_dtype_def)

lemma turn_line:
  assumes "loop_test (line h)" and "readline ply = (l, rest)"
    and "header_body fmt ext h l = Inr h'"
  shows "header_loop fmt ext h ply = header_loop fmt ext h' rest"
  using header_loop_turn [OF assms(1) assms(2), of fmt ext] assms(3) by simp

lemma readline_number:
  assumes "CHR ''\<newline>'' \<notin> set pre"
  shows "readline (pre @ str_nat n @ ''\<newline>'' @ rest) = (pre @ str_nat n @ ''\<newline>'', rest)"
  using readline_line [of "pre @ str_nat n" rest] number_line_no_newline [of n] assms by simp

lemma header_loop_written:
  assumes "fmt \<noteq> ''ascii''"
  shows "header_loop fmt ext header_init
           (''element vertex '' @ str_nat n @ ''\<newline>'' @
            ''property float x\<newline>'' @ ''property float y\<newline>'' @ ''property float z\<newline>'' @
            ''element face '' @ str_nat m @ ''\<newline>'' @
            ''property list uchar int vertex_indices\<newline>'' @ ''end_header\<newline>'' @ rest)
       = Inr (written_header ext n m, rest)"
proof -
  let ?h1 = "header_init\<lparr>line := Tokens [''element'', ''vertex'', str_nat n],
              points_size := Some (int n), name := Some ''vertex'', count := count header_init + 1\<rparr>"
  let ?h2 = "(append_dtype (?h1\<lparr>line := Tokens [''property'', ''float'', ''x'']\<rparr>) ''vertex'' (''x'', ext @ ''f4''))
                \<lparr>count := count ?h1 + 1\<rparr>"
  let ?h3 = "(append_dtype (?h2\<lparr>line := Tokens [''property'', ''float'', ''y'']\<rparr>) ''vertex'' (''y'', ext @ ''f4''))
                \<lparr>count := count ?h2 + 1\<rparr>"
  let ?h4 = "(append_dtype (?h3\<lparr>line := Tokens [''property'', ''float'', ''z'']\<rparr>) ''vertex'' (''z'', ext @ ''f4''))
                \<lparr>count := count ?h3 + 1\<rparr>"
  let ?h5 = "?h4\<lparr>line := Tokens [''element'', ''face'', str_nat m],
              mesh_size := Some (int m), name := Some ''face'', count := count ?h4 + 1\<rparr>"
  let ?h6 = "(foldl (\<lambda>h' x. append_dtype h' ''face'' x)
                 (?h5\<lparr>line := Tokens [''property'', ''list'', ''uchar'', ''int'', ''vertex_indices'']\<rparr>)
                 [(''n_points'', ext @ ''u1''), (''v1'', ext @ ''i4''), (''v2'', ext @ ''i4''),
                  (''v3'', ext @ ''i4'')])
                \<lparr>count := count ?h5 + 1\<rparr>"
  let ?h7 = "?h6\<lparr>line := Bytes ''end_header\<newline>'', count := count ?h6 + 1\<rparr>"
  let ?r7 = rest
  let ?r6 = "''end_header\<newline>'' @ ?r7"
  let ?r5 = "''property list uchar int vertex_indices\<newline>'' @ ?r6"
  let ?r4 = "''element face '' @ str_nat m @ ''\<newline>'' @ ?r5"
  let ?r3 = "''property float z\<newline>'' @ ?r4"
  let ?r2 = "''property float y\<newline>'' @ ?r3"
  let ?r1 = "''property float x\<newline>'' @ ?r2"
  let ?r0 = "''element vertex '' @ str_nat n @ ''\<newline>'' @ ?r1"
  have ne: "str_nat k \<noteq> ''end_header''" for k
    using str_nat_digits [of k] by (auto simp: is_digit_def)
  have t0: "loop_test (line header_init)" by (simp add: header_init_def)
  have t1: "loop_test (line ?h1)" using ne [of n] by simp
  have t2: "loop_test (line ?h2)" by (simp add: append_dtype_def)
  have t3: "loop_test (line ?h3)" by (simp add: append_dtype_def)
  have t4: "loop_test (line ?h4)" by (simp add: append_dtype_def)
  have t5: "loop_test (line ?h5)" using ne [of m] by simp
  have t6: "loop_test (line ?h6)" by (simp add: append_dtype_def)
  have t7: "\<not> loop_test (line ?h7)" by (simp add: bytes_in_prefix [of "''end_header''" "''\<newline>''", simplified])
  have n1: "name ?h1 = Some ''vertex''" by simp
  have n2: "name ?h2 = Some ''vertex''" by (simp add: append_dtype_def)
  have n3: "name ?h3 = Some ''vertex''" by (simp add: append_dtype_def)
  have n5: "name ?h5 = Some ''face''" by simp
  have l1: "readline ?r0 = (''element vertex '' @ str_nat n @ ''\<newline>'', ?r1)"
    by (rule readline_number) simp
  have l2: "readline ?r1 = (''property float x\<newline>'', ?r2)" by simp
  have l3: "readline ?r2 = (''property float y\<newline>'', ?r3)" by simp
  have l4: "readline ?r3 = (''property float z\<newline>'', ?r4)" by simp
  have l5: "readline ?r4 = (''element face '' @ str_nat m @ ''\<newline>'', ?r5)"
    by (rule readline_number) simp
  have l6: "readline ?r5 = (''property list uchar int vertex_indices\<newline>'', ?r6)" by simp
  have l7: "readline ?r6 = (''end_header\<newline>'', ?r7)" by simp
  have s1: "header_loop fmt ext header_init ?r0 = header_loop fmt ext ?h1 ?r1"
    by (rule turn_line [OF t0 l1 header_body_element_vertex])
  have s2: "header_loop fmt ext ?h1 ?r1 = header_loop fmt ext ?h2 ?r2"
    by (rule turn_line [OF t1 l2 header_body_float(1) [OF n1 assms]])
  have s3: "header_loop fmt ext ?h2 ?r2 = header_loop fmt ext ?h3 ?r3"
    by (rule turn_line [OF t2 l3 header_body_float(2) [OF n2 assms]])
  have s4: "header_loop fmt ext ?h3 ?r3 = header_loop fmt ext ?h4 ?r4"
    by (rule turn_line [OF t3 l4 header_body_float(3) [OF n3 assms]])
  have s5: "header_loop fmt ext ?h4 ?r4 = header_loop fmt ext ?h5 ?r5"
    by (rule turn_line [OF t4 l5 header_body_element_face])
  have s6: "header_loop fmt ext ?h5 ?r5 = header_loop fmt ext ?h6 ?r6"
    by (rule turn_line [OF t5 l6 header_body_list [OF n5 assms]])
  have s7: "header_loop fmt ext ?h6 ?r6 = header_loop fmt ext ?h7 ?r7"
    by (rule turn_line [OF t6 l7 header_body_end])
  have s8: "header_loop fmt ext ?h7 ?r7 = Inr (?h7, ?r7)"
    by (rule header_loop_stop [OF t7])
  have e: "?h7 = written_header ext n m"
    by (simp add: written_header_def header_init_def append_dtype_def fun_eq_iff)
  from s1 s2 s3 s4 s5 s6 s7 s8 e show ?thesis by (simp only:)
qed

lemma written_text_lines:
  "concat (map (\<lambda>l. l @ ''\<newline>'')
          [''ply'', ''format binary_'' @ byteorder_name native @ ''_endian 1.0'',
           ''element vertex '' @ str_nat n,
           ''property float x'', ''property float y'', ''property float z'',
           ''element face '' @ str_nat m,
           ''property list uchar int vertex_indices'', ''end_header''])
     = written_text native n m"
  by (simp add: written_text_def)

lemma read_header_written:
  "read_header (written_text native n m @ payload)
     = Inr \<lparr>p_fmt = ''binary_'' @ byteorder_name native @ ''_endian'',
            p_ext = sys_byteorder native,
            p_header = written_header (sys_byteorder native) n m,
            p_end_header = length (written_text native n m)\<rparr>"
proof -
  let ?rest = "''element vertex '' @ str_nat n @ ''\<newline>'' @
     ''property float x\<newline>'' @ ''property float y\<newline>'' @ ''property float z\<newline>'' @
     ''element face '' @ str_nat m @ ''\<newline>'' @
     ''property list uchar int vertex_indices\<newline>'' @ ''end_header\<newline>'' @ payload"
  have f: "written_text native n m @ payload
      = ''ply\<newline>'' @ ''format binary_'' @ byteorder_name native @ ''_endian 1.0\<newline>'' @ ?rest"
    by (simp add: written_text_def)
  have na: "''binary_'' @ byteorder_name native @ ''_endian'' \<noteq> ''ascii''" by simp
  have l: "length (written_text native n m @ payload) - length payload
      = length (written_text native n m)" by simp
  show ?thesis
    unfolding read_header_def
    by (simp only: f read_format_binary bind_err_def sum.case fst_conv snd_conv
          header_loop_written [OF na] l [unfolded f])
qed

lemma np_struct_vertex:
  "np_struct [(''x'', sys_byteorder native @ ''f4''), (''y'', sys_byteorder native @ ''f4''),
              (''z'', sys_byteorder native @ ''f4'')]
     = Inr [(''x'', float32), (''y'', float32), (''z'', float32)]"
proof (cases native)
  case Little
  have "np_struct [(''x'', sys_byteorder Little @ ''f4''), (''y'', sys_byteorder Little @ ''f4''),
              (''z'', sys_byteorder Little @ ''f4'')]
     = Inr [(''x'', float32), (''y'', float32), (''z'', float32)]" by code_simp
  with Little show ?thesis by simp
next
  case Big
  have "np_struct [(''x'', sys_byteorder Big @ ''f4''), (''y'', sys_byteorder Big @ ''f4''),
              (''z'', sys_byteorder Big @ ''f4'')]
     = Inr [(''x'', float32), (''y'', float32), (''z'', float32)]" by code_simp
  with Big show ?thesis by simp
qed

lemma np_struct_face:
  "np_struct [(''n_points'', sys_byteorder native @ ''u1''), (''v1'', sys_byteorder native @ ''i4''),
              (''v2'', sys_byteorder native @ ''i4''), (''v3'', sys_byteorder native @ ''i4'')]
     = Inr [(''n_points'', uint8), (''v1'', int32), (''v2'', int32), (''v3'', int32)]"
proof (cases native)
  case Little
  have "np_struct [(''n_points'', sys_byteorder Little @ ''u1''), (''v1'', sys_byteorder Little @ ''i4''),
              (''v2'', sys_byteorder Little @ ''i4''), (''v3'', sys_byteorder Little @ ''i4'')]
     = Inr [(''n_points'', uint8), (''v1'', int32), (''v2'', int32), (''v3'', int32)]" by code_simp
  with Little show ?thesis by simp
next
  case Big
  have "np_struct [(''n_points'', sys_byteorder Big @ ''u1''), (''v1'', sys_byteorder Big @ ''i4''),
              (''v2'', sys_byteorder Big @ ''i4''), (''v3'', sys_byteorder Big @ ''i4'')]
     = Inr [(''n_points'', uint8), (''v1'', int32), (''v2'', int32), (''v3'', int32)]" by code_simp
  with Big show ?thesis by simp
qed

lemma chop_concat: "map length r = sizes \<Longrightarrow> chop sizes (concat r) = r"
  by (induction r arbitrary: sizes) auto

lemma length_packed:
  "list_all (\<lambda>r. map length r = sizes) rs \<Longrightarrow>
     length (concat (map concat rs)) = length rs * sum_list sizes"
  by (induction rs) (auto simp: length_concat)

lemma records_concat:
  "list_all (\<lambda>r. map length r = sizes) rs \<Longrightarrow>
     records (length rs) sizes (concat (map concat rs) @ rest) = rs"
proof (induction rs)
  case Nil
  then show ?case by simp
next
  case (Cons r rs)
  then have l: "length (concat r) = sum_list sizes" by (auto simp: length_concat)
  from Cons show ?case by (simp add: l chop_concat)
qed

lemma np_fromfile_packed:
  assumes "np_struct flds = Inr cds"
    and "list_all (\<lambda>r. map length r = map (\<lambda>cd. dt_size (snd cd)) cds) rs"
    and "0 < item_size cds"
    and "int (length rs) * int (item_size cds) < 2 ^ 63"
  shows "np_fromfile flds (Some (int (length rs))) (concat (map concat rs) @ rest)
       = Inr (\<lparr>columns = cds, rows = rs\<rparr>, rest)"
proof -
  let ?sz = "map (\<lambda>cd. dt_size (snd cd)) cds"
  let ?ply = "concat (map concat rs) @ rest"
  have i: "item_size cds = sum_list ?sz" by (simp add: item_size_def)
  have len: "length (concat (map concat rs)) = length rs * item_size cds"
    using length_packed [OF assms(2)] by (simp add: i)
  have le: "length rs \<le> length ?ply div item_size cds"
    using assms(3) by (simp add: len div_add1_eq [of _ "length rest"])
  then have n: "n_read (int (length rs)) (item_size cds) ?ply = length rs"
    by (simp add: n_read_def min_def)
  have "int (length rs) * 1 \<le> int (length rs) * int (item_size cds)"
    using assms(3) by (intro mult_left_mono) simp_all
  with assms(4) have c: "int (length rs) < 2 ^ 63" by simp
  have r: "records (length rs) ?sz ?ply = rs" by (rule records_concat [OF assms(2)])
  have d: "drop (length rs * item_size cds) ?ply = rest" by (simp add: len)
  have ns: "\<not> (length ?ply div item_size cds < nat (int (length rs)))" using le by simp
  have nz: "item_size cds \<noteq> 0" using assms(3) by simp
  have no: "\<not> (int (length rs) < - (2 ^ 63) \<or> 2 ^ 63 \<le> int (length rs))" using c by simp
  have nb: "\<not> (2 ^ 63 \<le> int (length rs) * int (item_size cds))" using assms(4) by simp
  show ?thesis
    unfolding np_fromfile_def
    by (simp only: assms(1) bind_err_def sum.case option.case no nz nb ns n r d if_False
          simp_thms)
qed

lemma drop_n_points:
  assumes "list_all (\<lambda>r. length r = 3) fs"
  shows "drop_column ''n_points''
           \<lparr>columns = [(''n_points'', uint8), (''v1'', int32), (''v2'', int32), (''v3'', int32)],
            rows = map (\<lambda>r. [CHR 0x03] # r) fs\<rparr>
       = Inr \<lparr>columns = [(''v1'', int32), (''v2'', int32), (''v3'', int32)], rows = fs\<rparr>"
proof -
  have "map snd (filter (\<lambda>cc. fst (fst cc) \<noteq> ''n_points'')
          (zip [(''n_points'', uint8), (''v1'', int32), (''v2'', int32), (''v3'', int32)]
               ([CHR 0x03] # r))) = r" if "length r = 3" for r :: "string list"
  proof -
    from that obtain a b c where "r = [a, b, c]"
      by (cases r; cases "tl r"; cases "tl (tl r)") auto
    then show ?thesis by simp
  qed
  then have "map (\<lambda>r. map snd (filter (\<lambda>cc. fst (fst cc) \<noteq> ''n_points'')
          (zip [(''n_points'', uint8), (''v1'', int32), (''v2'', int32), (''v3'', int32)]
               ([CHR 0x03] # r)))) fs = fs"
    using assms by (intro map_idI) (auto simp: list_all_iff)
  then show ?thesis by (simp add: drop_column_def comp_def)
qed

lemma read_ply_written:
  assumes "list_all (\<lambda>r. map length r = [4, 4, 4]) ps"
    and "list_all (\<lambda>r. map length r = [4, 4, 4]) fs"
    and "int (length ps) * 12 < 2 ^ 63" and "int (length fs) * 13 < 2 ^ 63"
  shows "read_ply read_csv astype native
           (written_text native (length ps) (length fs)
            @ concat (map concat ps) @ concat (map (\<lambda>r. CHR 0x03 # concat r) fs))
       = Inr \<lparr>d_points = \<lparr>columns = [(''x'', float32), (''y'', float32), (''z'', float32)],
                            rows = ps\<rparr>,
              d_mesh = Some \<lparr>columns = [(''v1'', int32), (''v2'', int32), (''v3'', int32)],
                              rows = fs\<rparr>\<rparr>"
proof -
  let ?ext = "sys_byteorder native"
  let ?fs' = "map (\<lambda>r. [CHR 0x03] # r) fs"
  let ?mb = "concat (map (\<lambda>r. CHR 0x03 # concat r) fs)"
  let ?file = "written_text native (length ps) (length fs) @ concat (map concat ps) @ ?mb"
  let ?vc = "[(''x'', float32), (''y'', float32), (''z'', float32)]"
  let ?fc = "[(''n_points'', uint8), (''v1'', int32), (''v2'', int32), (''v3'', int32)]"
  let ?p = "\<lparr>p_fmt = ''binary_'' @ byteorder_name native @ ''_endian'', p_ext = ?ext,
            p_header = written_header ?ext (length ps) (length fs),
            p_end_header = length (written_text native (length ps) (length fs))\<rparr>"
  have h: "read_header ?file = Inr ?p" by (rule read_header_written)
  have na: "''binary_'' @ byteorder_name native @ ''_endian'' \<noteq> ''ascii''" by simp
  have ps: "list_all (\<lambda>r. map length r = map (\<lambda>cd. dt_size (snd cd)) ?vc) ps"
    using assms(1) by (simp add: float32_def)
  have fs: "list_all (\<lambda>r. map length r = map (\<lambda>cd. dt_size (snd cd)) ?fc) ?fs'"
    using assms(2) by (simp add: int32_def uint8_def list_all_iff)
  have l3: "list_all (\<lambda>r. length r = 3) fs"
    using assms(2) by (auto simp: list_all_iff dest: arg_cong [where f = length])
  have v: "np_fromfile (dtypes (written_header ?ext (length ps) (length fs)) ''vertex'')
             (Some (int (length ps))) (concat (map concat ps) @ ?mb)
         = Inr (\<lparr>columns = ?vc, rows = ps\<rparr>, ?mb)"
    using np_fromfile_packed [OF np_struct_vertex ps, where rest = ?mb] assms(3)
    by (simp add: written_header_def item_size_def float32_def)
  have f: "np_fromfile (dtypes (written_header ?ext (length ps) (length fs)) ''face'')
             (Some (int (length fs))) ?mb
         = Inr (\<lparr>columns = ?fc, rows = ?fs'\<rparr>, [])"
    using np_fromfile_packed [OF np_struct_face fs, where rest = "[]"] assms(4)
    by (simp add: written_header_def item_size_def int32_def uint8_def comp_def)
  have b: "read_binary native ?file ?p
      = Inr \<lparr>d_points = \<lparr>columns = ?vc, rows = ps\<rparr>,
             d_mesh = Some \<lparr>columns = [(''v1'', int32), (''v2'', int32), (''v3'', int32)],
                             rows = fs\<rparr>\<rparr>"
    by (simp add: read_binary_def v f bind_err_def to_native_def drop_n_points [OF l3]
          DataFrame_records_def
          written_header_def [where n = "length ps", THEN arg_cong [where f = points_size]]
          written_header_def [where n = "length ps", THEN arg_cong [where f = mesh_size]])
  show ?thesis
    unfolding read_ply_def by (simp only: h bind_err_def sum.case parsed.simps na if_False b)
qed

text \<open>
  The binary round trip for 4-byte cells: a \<open>float32\<close> array of points and an \<open>int32\<close>
  array of faces, three columns each, written by write_ply in binary mode and read by
  read_ply from the file written, come back cell for cell, as \<open>float32\<close> columns \<open>x\<close>,
  \<open>y\<close>, \<open>z\<close> and \<open>int32\<close> columns \<open>v1\<close>, \<open>v2\<close>, \<open>v3\<close>, on either byte order (the
  arrays being smaller than 2^63 bytes, as every array in memory is).
\<close>

theorem write_read_binary_float32_int32:
  assumes "nd_dtype P = float32" and "nd_cols P = 3"
    and "list_all (\<lambda>r. map length r = [4, 4, 4]) (nd_rows P)"
    and "nd_dtype F = int32" and "nd_cols F = 3"
    and "list_all (\<lambda>r. map length r = [4, 4, 4]) (nd_rows F)"
    and "int (length (nd_rows P)) * 12 < 2 ^ 63" and "int (length (nd_rows F)) * 13 < 2 ^ 63"
  shows "\<exists>file. write_ply native shw filename (Some P) (Some F) False
                  = (Some (ply_filename filename, file), Inr True)
           \<and> read_ply read_csv astype native file
               = Inr \<lparr>d_points = \<lparr>columns = [(''x'', float32), (''y'', float32), (''z'', float32)],
                                    rows = nd_rows P\<rparr>,
                      d_mesh = Some \<lparr>columns = [(''v1'', int32), (''v2'', int32), (''v3'', int32)],
                                      rows = nd_rows F\<rparr>\<rparr>"
proof -
  have l3: "list_all (\<lambda>r. length r = 3) (nd_rows F)"
    using assms(6) by (auto simp: list_all_iff dest: arg_cong [where f = length])
  have w: "write_ply native shw filename (Some P) (Some F) False =
     (Some (ply_filename filename,
        written_text native (length (nd_rows P)) (length (nd_rows F))
        @ concat (map concat (nd_rows P))
        @ concat (map (\<lambda>r. CHR 0x03 # concat r) (nd_rows F))),
      Inr True)"
    using write_ply_binary [OF assms(2) _ assms(5) l3, of native shw filename] assms(1,4)
    by (simp only: written_text_lines) (simp add: float32_def int32_def)
  from w read_ply_written [OF assms(3) assms(6) assms(7) assms(8)] show ?thesis by blast
qed

theorem write_read_binary_float32_int32_witness:
  "nd_dtype P_single = float32 \<and> nd_cols P_single = 3
   \<and> list_all (\<lambda>r. map length r = [4, 4, 4]) (nd_rows P_single)
   \<and> nd_dtype F_single = int32 \<and> nd_cols F_single = 3
   \<and> list_all (\<lambda>r. map length r = [4, 4, 4]) (nd_rows F_single)
   \<and> int (length (nd_rows P_single)) * 12 < 2 ^ 63
   \<and> int (length (nd_rows F_single)) * 13 < 2 ^ 63
   \<and> (\<exists>file. write_ply Little (\<lambda>d c. ''?'') ''m'' (Some P_single) (Some F_single) False
                  = (Some (ply_filename ''m'', file), Inr True)
           \<and> read_ply no_csv no_astype Little file
               = Inr \<lparr>d_points = \<lparr>columns = [(''x'', float32), (''y'', float32), (''z'', float32)],
                                    rows = nd_rows P_single\<rparr>,
                      d_mesh = Some \<lparr>columns = [(''v1'', int32), (''v2'', int32), (''v3'', int32)],
                                      rows = nd_rows F_single\<rparr>\<rparr>)"
proof -
  have h1: "nd_dtype P_single = float32" by (simp add: P_single_def)
  have h2: "nd_cols P_single = 3" by (simp add: P_single_def)
  have h3: "list_all (\<lambda>r. map length r = [4, 4, 4]) (nd_rows P_single)"
    by (simp add: P_single_def)
  have h4: "nd_dtype F_single = int32" by (simp add: F_single_def)
  have h5: "nd_cols F_single = 3" by (simp add: F_single_def)
  have h6: "list_all (\<lambda>r. map length r = [4, 4, 4]) (nd_rows F_single)"
    by (simp add: F_single_def)
  have h7: "int (length (nd_rows P_single)) * 12 < 2 ^ 63" by (simp add: P_single_def)
  have h8: "int (length (nd_rows F_single)) * 13 < 2 ^ 63" by (simp add: F_single_def)
  from h1 h2 h3 h4 h5 h6 h7 h8
    write_read_binary_float32_int32 [OF h1 h2 h3 h4 h5 h6 h7 h8, where native = Little
      and shw = "\<lambda>d c. ''?''" and filename = "''m''" and read_csv = no_csv and astype = no_astype]
  show ?thesis by (intro conjI)
qed

end
